(* ===== verification/Prelude.thy ===== *)
theory Prelude
  imports Main "HOL-Library.Monad_Syntax"
begin

text \<open>
  Shared material of the development: C integer widths and division on \<^typ>\<open>int\<close>, vectors
  with checked indices, counted loops, and the lemmas on them that the component theories use.

  Conventions. Every C integer is an \<^typ>\<open>int\<close>; a conversion or an operation of the source
  that may wrap is written with \<open>u32\<close>, \<open>i32\<close> or \<open>u64\<close>. Signed overflow, a division by
  zero, an access outside a \<^verbatim>\<open>std::vector\<close> and a loop that does not end have no defined
  result in C++: the operations that can meet them return an \<^typ>\<open>'a option\<close>, and \<^term>\<open>None\<close>
  stands for such an execution.
\<close>

named_theorems width_simps \<open>wrap-around functions on values that are in range\<close>

section \<open>Integer widths\<close>

definition u32 :: "int \<Rightarrow> int" where
  "u32 x = x mod 4294967296"

definition u64 :: "int \<Rightarrow> int" where
  "u64 x = x mod 18446744073709551616"

definition i32 :: "int \<Rightarrow> int" where
  "i32 x = (x + 2147483648) mod 4294967296 - 2147483648"

abbreviation U32_LIM :: int where
  "U32_LIM \<equiv> 4294967296"

abbreviation INT64_MAX :: int where
  "INT64_MAX \<equiv> 9223372036854775807"

lemma u32_id [width_simps]: "0 \<le> x \<Longrightarrow> x < 4294967296 \<Longrightarrow> u32 x = x"
  by (simp add: u32_def)

lemma u64_id [width_simps]: "0 \<le> x \<Longrightarrow> x < 18446744073709551616 \<Longrightarrow> u64 x = x"
  by (simp add: u64_def)

lemma i32_id [width_simps]: "- 2147483648 \<le> x \<Longrightarrow> x < 2147483648 \<Longrightarrow> i32 x = x"
  by (simp add: i32_def)

lemma u32_nonneg [simp]: "0 \<le> u32 x"
  by (simp add: u32_def)

lemma u32_less [simp]: "u32 x < 4294967296"
  by (simp add: u32_def)

lemma u32_0 [simp]: "u32 0 = 0"
  by (simp add: u32_def)

lemma u32_u32 [simp]: "u32 (u32 x) = u32 x"
  by (simp add: u32_def)

section \<open>Division\<close>

text \<open>
  Division in C truncates towards zero and is undefined for a zero divisor. On operands that are
  not negative it is \<^term>\<open>(div)\<close>, which the source's literal divisors use directly.
\<close>

definition tdiv :: "int \<Rightarrow> int \<Rightarrow> int" where
  "tdiv a b = sgn a * sgn b * (\<bar>a\<bar> div \<bar>b\<bar>)"

definition tmod :: "int \<Rightarrow> int \<Rightarrow> int" where
  "tmod a b = sgn a * (\<bar>a\<bar> mod \<bar>b\<bar>)"

definition cdiv :: "int \<Rightarrow> int \<Rightarrow> int option" where
  "cdiv a b = (if b = 0 then None else Some (tdiv a b))"

definition cmod :: "int \<Rightarrow> int \<Rightarrow> int option" where
  "cmod a b = (if b = 0 then None else Some (tmod a b))"

lemma tdiv_pos: "0 \<le> a \<Longrightarrow> 0 < b \<Longrightarrow> tdiv a b = a div b"
  by (cases "a = 0") (auto simp: tdiv_def)

lemma tmod_pos: "0 \<le> a \<Longrightarrow> 0 < b \<Longrightarrow> tmod a b = a mod b"
  by (cases "a = 0") (auto simp: tmod_def)

lemma cdiv_pos: "0 \<le> a \<Longrightarrow> 0 < b \<Longrightarrow> cdiv a b = Some (a div b)"
  by (simp add: cdiv_def tdiv_pos)

lemma cmod_pos: "0 \<le> a \<Longrightarrow> 0 < b \<Longrightarrow> cmod a b = Some (a mod b)"
  by (simp add: cmod_def tmod_pos)

lemma cdiv_None_iff [simp]: "cdiv a b = None \<longleftrightarrow> b = 0"
  by (simp add: cdiv_def)

text \<open>Rounding up to a multiple, the \<open>((x + a - 1) / a) * a\<close> of the alignment code.\<close>

definition align_up :: "int \<Rightarrow> int \<Rightarrow> int" where
  "align_up x a = ((x + a - 1) div a) * a"

lemma align_up_ge: "0 < a \<Longrightarrow> x \<le> align_up x a"
proof -
  assume a: "0 < a"
  have "x + a - 1 = ((x + a - 1) div a) * a + (x + a - 1) mod a" by simp
  moreover have "(x + a - 1) mod a < a" using a by simp
  ultimately show ?thesis unfolding align_up_def by linarith
qed

lemma align_up_less: "0 < a \<Longrightarrow> align_up x a < x + a"
proof -
  assume a: "0 < a"
  have "x + a - 1 = ((x + a - 1) div a) * a + (x + a - 1) mod a" by simp
  moreover have "0 \<le> (x + a - 1) mod a" using a by simp
  ultimately show ?thesis unfolding align_up_def by linarith
qed

lemma align_up_dvd: "a dvd align_up x a"
  by (simp add: align_up_def)

lemma align_up_id: "0 < a \<Longrightarrow> a dvd x \<Longrightarrow> align_up x a = x"
proof -
  assume a: "0 < a" and "a dvd x"
  then obtain q where q: "x = a * q" by blast
  have "x + a - 1 = (a - 1) + a * q" using q by simp
  then have "(x + a - 1) div a = (a - 1 + a * q) div a" by (rule arg_cong)
  also have "\<dots> = q" using a by (simp add: div_pos_pos_trivial)
  finally show ?thesis using a q by (simp add: align_up_def)
qed

lemma align_up_least: "0 < a \<Longrightarrow> a dvd y \<Longrightarrow> x \<le> y \<Longrightarrow> align_up x a \<le> y"
proof -
  assume a: "0 < a" and dvd: "a dvd y" and le: "x \<le> y"
  have "(x + a - 1) div a \<le> (y + a - 1) div a" using a le by (intro zdiv_mono1) auto
  then have "align_up x a \<le> align_up y a" using a by (simp add: align_up_def)
  then show ?thesis using align_up_id [OF a dvd] by simp
qed

text \<open>The number of blocks of a rounded-up division.\<close>

lemma ceil_div_bounds:
  fixes x a :: int
  assumes a: "0 < a"
  shows "x \<le> ((x + a - 1) div a) * a" and "((x + a - 1) div a) * a < x + a"
  using align_up_ge [OF a, of x] align_up_less [OF a, of x] by (simp_all add: align_up_def)

section \<open>Results of the graph engine's host functions\<close>

text \<open>The \<^verbatim>\<open>ge::graphStatus\<close> a tiling function returns, with what it wrote on success.\<close>

datatype 'a graph_status = GRAPH_FAILED | GRAPH_SUCCESS 'a

section \<open>Vectors with checked indices\<close>

definition vget :: "'a list \<Rightarrow> int \<Rightarrow> 'a option" where
  "vget xs i = (if 0 \<le> i \<and> i < int (length xs) then Some (xs ! nat i) else None)"

definition vset :: "'a list \<Rightarrow> int \<Rightarrow> 'a \<Rightarrow> 'a list option" where
  "vset xs i v = (if 0 \<le> i \<and> i < int (length xs) then Some (xs[nat i := v]) else None)"

lemma vget_Some: "0 \<le> i \<Longrightarrow> i < int (length xs) \<Longrightarrow> vget xs i = Some (xs ! nat i)"
  by (simp add: vget_def)

lemma vset_Some: "0 \<le> i \<Longrightarrow> i < int (length xs) \<Longrightarrow> vset xs i v = Some (xs[nat i := v])"
  by (simp add: vset_def)

lemma vget_SomeD: "vget xs i = Some v \<Longrightarrow> 0 \<le> i \<and> i < int (length xs) \<and> v = xs ! nat i"
  by (auto simp: vget_def split: if_splits)

lemma vset_SomeD:
  "vset xs i v = Some ys \<Longrightarrow> 0 \<le> i \<and> i < int (length xs) \<and> ys = xs[nat i := v]"
  by (auto simp: vset_def split: if_splits)

lemma vset_length: "vset xs i v = Some ys \<Longrightarrow> length ys = length xs"
  by (auto dest: vset_SomeD)

lemma vget_vset:
  "vset xs i v = Some ys \<Longrightarrow> vget ys j = (if j = i then Some v else vget xs j)"
  by (auto simp: vset_def vget_def nth_list_update split: if_splits)

section \<open>Counted loops\<close>

text \<open>
  \<open>for_up n f i s\<close> is the loop \<^verbatim>\<open>for (; n > 0; --n, ++i) s = f(i, s)\<close>;
  \<open>for_range a b f s\<close> is \<^verbatim>\<open>for (i = a; i < b; ++i) s = f(i, s)\<close>. \<open>for_opt\<close> is the
  same loop over a body that may be undefined.
\<close>

fun for_up :: "nat \<Rightarrow> (int \<Rightarrow> 's \<Rightarrow> 's) \<Rightarrow> int \<Rightarrow> 's \<Rightarrow> 's" where
  "for_up 0 f i s = s"
| "for_up (Suc n) f i s = for_up n f (i + 1) (f i s)"

definition for_range :: "int \<Rightarrow> int \<Rightarrow> (int \<Rightarrow> 's \<Rightarrow> 's) \<Rightarrow> 's \<Rightarrow> 's" where
  "for_range a b f = for_up (nat (b - a)) f a"

fun for_up_opt :: "nat \<Rightarrow> (int \<Rightarrow> 's \<Rightarrow> 's option) \<Rightarrow> int \<Rightarrow> 's \<Rightarrow> 's option" where
  "for_up_opt 0 f i s = Some s"
| "for_up_opt (Suc n) f i s = f i s \<bind> for_up_opt n f (i + 1)"

definition for_opt :: "int \<Rightarrow> int \<Rightarrow> (int \<Rightarrow> 's \<Rightarrow> 's option) \<Rightarrow> 's \<Rightarrow> 's option" where
  "for_opt a b f = for_up_opt (nat (b - a)) f a"

text \<open>
  \<open>for_step d n f i s\<close> is \<^verbatim>\<open>for (; i < n; i += d) s = f(i, s)\<close> for a positive step \<open>d\<close>;
  \<open>for_step_break\<close> leaves the loop when the body's second result is true.
\<close>

function for_step :: "int \<Rightarrow> int \<Rightarrow> (int \<Rightarrow> 's \<Rightarrow> 's) \<Rightarrow> int \<Rightarrow> 's \<Rightarrow> 's" where
  "for_step d n f i s = (if i < n \<and> 0 < d then for_step d n f (i + d) (f i s) else s)"
  by pat_completeness auto
termination
  by (relation "measure (\<lambda>(d, n, f, i, s). nat (n - i))") auto

function for_step_break :: "int \<Rightarrow> int \<Rightarrow> (int \<Rightarrow> 's \<Rightarrow> 's \<times> bool) \<Rightarrow> int \<Rightarrow> 's \<Rightarrow> 's" where
  "for_step_break d n f i s =
     (if i < n \<and> 0 < d
      then (let r = f i s in if snd r then fst r else for_step_break d n f (i + d) (fst r)) else s)"
  by pat_completeness auto
termination
  by (relation "measure (\<lambda>(d, n, f, i, s). nat (n - i))") auto

declare for_step.simps [simp del] for_step_break.simps [simp del]

lemma for_step_done: "n \<le> i \<Longrightarrow> for_step d n f i s = s"
  by (subst for_step.simps) simp

lemma for_step_go: "i < n \<Longrightarrow> 0 < d \<Longrightarrow> for_step d n f i s = for_step d n f (i + d) (f i s)"
  by (subst for_step.simps) simp

lemma for_step_inv:
  assumes "0 < d" and "P i s"
    and "\<And>j t. i \<le> j \<Longrightarrow> j < n \<Longrightarrow> d dvd (j - i) \<Longrightarrow> P j t \<Longrightarrow> P (j + d) (f j t)"
  shows "\<exists>j. n \<le> j \<and> i \<le> j \<and> d dvd (j - i) \<and> P j (for_step d n f i s)"
  using assms
proof (induction d n f i s rule: for_step.induct)
  case (1 d n f i s)
  show ?case
  proof (cases "i < n")
    case True
    have "P (i + d) (f i s)" using 1(2-4) True by auto
    moreover have "P (j + d) (f j t)" if "i + d \<le> j" "j < n" "d dvd j - (i + d)" "P j t" for j t
    proof -
      have "d dvd (j - (i + d)) + d" using that(3) by (rule dvd_add) simp
      then show ?thesis using 1(4) [of j t] that "1.prems"(1) by (simp add: algebra_simps)
    qed
    ultimately obtain j where j: "n \<le> j" "i + d \<le> j" "d dvd j - (i + d)"
      "P j (for_step d n f (i + d) (f i s))"
      using "1.IH" [OF conjI [OF True "1.prems"(1)] "1.prems"(1)] by blast
    have "d dvd (j - (i + d)) + d" using j(3) by (rule dvd_add) simp
    then have "d dvd j - i" by (simp add: algebra_simps)
    moreover have "i \<le> j" using j(2) "1.prems"(1) by simp
    ultimately show ?thesis
      using j(1,4) True "1.prems"(1) by (auto simp: for_step_go)
  next
    case False
    then show ?thesis using "1.prems"(2) by (intro exI [of _ i]) (simp add: for_step_done)
  qed
qed

text \<open>The invariant rules: what holds before the loop and is kept by the body holds after it.\<close>

lemma for_up_inv:
  assumes "P i s"
    and "\<And>j t. i \<le> j \<Longrightarrow> j < i + int n \<Longrightarrow> P j t \<Longrightarrow> P (j + 1) (f j t)"
  shows "P (i + int n) (for_up n f i s)"
  using assms
proof (induction n arbitrary: i s)
  case (Suc n)
  have "P (i + 1) (f i s)" using Suc.prems by simp
  then have "P (i + 1 + int n) (for_up n f (i + 1) (f i s))"
    by (rule Suc.IH) (use Suc.prems(2) in auto)
  then show ?case by (simp add: add.commute add.left_commute)
qed simp

lemma for_range_inv:
  assumes "a \<le> b" and "P a s"
    and "\<And>j t. a \<le> j \<Longrightarrow> j < b \<Longrightarrow> P j t \<Longrightarrow> P (j + 1) (f j t)"
  shows "P b (for_range a b f s)"
  using for_up_inv [of P a s "nat (b - a)" f] assms by (simp add: for_range_def)

lemma for_range_empty [simp]: "b \<le> a \<Longrightarrow> for_range a b f s = s"
  by (simp add: for_range_def)

lemma for_range_step: "a < b \<Longrightarrow> for_range a b f s = for_range (a + 1) b f (f a s)"
proof -
  assume "a < b"
  then have "nat (b - a) = Suc (nat (b - (a + 1)))" by simp
  then show ?thesis by (simp add: for_range_def)
qed

lemma for_up_snoc: "for_up (Suc n) f i s = f (i + int n) (for_up n f i s)"
proof (induction n arbitrary: i s)
  case (Suc n)
  have "for_up (Suc (Suc n)) f i s = for_up (Suc n) f (i + 1) (f i s)" by simp
  also have "\<dots> = f (i + 1 + int n) (for_up n f (i + 1) (f i s))" by (rule Suc.IH)
  finally show ?case by (simp add: add.assoc)
qed simp

lemma for_range_last: "a < b \<Longrightarrow> for_range a b f s = f (b - 1) (for_range a (b - 1) f s)"
proof -
  assume ab: "a < b"
  then have n: "nat (b - a) = Suc (nat (b - 1 - a))" by simp
  show ?thesis
    using ab unfolding for_range_def n for_up_snoc by simp
qed

lemma for_opt_empty [simp]: "b \<le> a \<Longrightarrow> for_opt a b f s = Some s"
  by (simp add: for_opt_def)

lemma for_opt_step: "a < b \<Longrightarrow> for_opt a b f s = f a s \<bind> for_opt (a + 1) b f"
proof -
  assume "a < b"
  then have "nat (b - a) = Suc (nat (b - (a + 1)))" by simp
  then show ?thesis by (simp add: for_opt_def)
qed

lemma for_up_opt_inv:
  assumes "P i s"
    and "\<And>j t. i \<le> j \<Longrightarrow> j < i + int n \<Longrightarrow> P j t \<Longrightarrow> \<exists>t'. f j t = Some t' \<and> P (j + 1) t'"
  shows "\<exists>t. for_up_opt n f i s = Some t \<and> P (i + int n) t"
  using assms
proof (induction n arbitrary: i s)
  case (Suc n)
  obtain s' where s': "f i s = Some s'" "P (i + 1) s'" using Suc.prems by fastforce
  have "\<exists>t. for_up_opt n f (i + 1) s' = Some t \<and> P (i + 1 + int n) t"
    by (rule Suc.IH [OF s'(2)]) (use Suc.prems(2) in auto)
  with s'(1) show ?case by (simp add: add.commute add.left_commute)
qed simp

lemma for_opt_inv:
  assumes "a \<le> b" and "P a s"
    and "\<And>j t. a \<le> j \<Longrightarrow> j < b \<Longrightarrow> P j t \<Longrightarrow> \<exists>t'. f j t = Some t' \<and> P (j + 1) t'"
  shows "\<exists>t. for_opt a b f s = Some t \<and> P b t"
  using for_up_opt_inv [of P a s "nat (b - a)" f] assms by (simp add: for_opt_def)

text \<open>A loop that stores \<open>g j\<close> at index \<open>c + j\<close> for every \<open>j\<close> of its range.\<close>

lemma for_range_store:
  "for_range a b (\<lambda>j m. m(c + j := g j)) m =
     (\<lambda>i. if c + a \<le> i \<and> i < c + b then g (i - c) else m i)"
proof (cases "a \<le> b")
  case True
  show ?thesis
    by (rule for_range_inv [OF True, where P = "\<lambda>j t. t = (\<lambda>i. if c + a \<le> i \<and> i < c + j then g (i - c) else m i)"])
       (auto simp: fun_eq_iff)
qed (auto simp: fun_eq_iff)

text \<open>A loop over the elements of a list.\<close>

primrec fold_opt :: "('a \<Rightarrow> 's \<Rightarrow> 's option) \<Rightarrow> 'a list \<Rightarrow> 's \<Rightarrow> 's option" where
  "fold_opt f [] s = Some s"
| "fold_opt f (x # xs) s = f x s \<bind> fold_opt f xs"

lemma fold_opt_inv:
  assumes "P [] s"
    and "\<And>pre x rest t. xs = pre @ x # rest \<Longrightarrow> P pre t \<Longrightarrow> \<exists>t'. f x t = Some t' \<and> P (pre @ [x]) t'"
  shows "\<exists>t. fold_opt f xs s = Some t \<and> P xs t"
proof -
  have "\<exists>t. fold_opt f rest s = Some t \<and> P xs t" if "xs = pre @ rest" "P pre s" for pre rest s
    using that
  proof (induction rest arbitrary: pre s)
    case (Cons x rest)
    then obtain t' where "f x s = Some t'" "P (pre @ [x]) t'" using assms(2) by blast
    then show ?case using Cons.IH [of "pre @ [x]" t'] Cons.prems(1) by simp
  qed simp
  from this [of "[]" xs s] assms(1) show ?thesis by simp
qed

text \<open>Row-major layout: which row of length \<open>n\<close> an index falls into.\<close>

lemma slot_iff:
  fixes a b i n :: int
  assumes "0 \<le> i" "i < n"
  shows "a * n \<le> b * n + i \<and> b * n + i < a * n + n \<longleftrightarrow> a = b"
proof
  assume h: "a * n \<le> b * n + i \<and> b * n + i < a * n + n"
  have "(b * n + i) div n = b" using assms by simp
  moreover have "(a * n + (b * n + i - a * n)) div n = a" using h by (subst div_mult_self3) (use assms in auto)
  ultimately show "a = b" by simp
qed (use assms in auto)

lemma slot_before:
  fixes a b i n :: int
  assumes "a < b" "i < n" "0 < n"
  shows "a * n + i < b * n"
proof -
  have "(a + 1) * n \<le> b * n" using assms by (intro mult_right_mono) auto
  then show ?thesis using assms by (simp add: algebra_simps)
qed

text \<open>
  \<open>find_up n p i\<close> is the search loop \<^verbatim>\<open>for (; n > 0; --n, ++i) if (p(i)) { found i; break; }\<close>;
  \<open>find_range a b p\<close> searches the indices from \<open>a\<close> up to but not including \<open>b\<close>.
\<close>

fun find_up :: "nat \<Rightarrow> (int \<Rightarrow> bool) \<Rightarrow> int \<Rightarrow> int option" where
  "find_up 0 p i = None"
| "find_up (Suc n) p i = (if p i then Some i else find_up n p (i + 1))"

definition find_range :: "int \<Rightarrow> int \<Rightarrow> (int \<Rightarrow> bool) \<Rightarrow> int option" where
  "find_range a b p = find_up (nat (b - a)) p a"

lemma find_up_Some_iff:
  "find_up n p i = Some r \<longleftrightarrow> i \<le> r \<and> r < i + int n \<and> p r \<and> (\<forall>q. i \<le> q \<and> q < r \<longrightarrow> \<not> p q)"
proof (induction n arbitrary: i)
  case (Suc n)
  show ?case
  proof (cases "p i")
    case True
    then show ?thesis by (auto simp: not_less)
  next
    case False
    have *: "(\<forall>q. i + 1 \<le> q \<and> q < r \<longrightarrow> \<not> p q) \<longleftrightarrow> (\<forall>q. i \<le> q \<and> q < r \<longrightarrow> \<not> p q)" for r
      using False by (metis add1_zle_eq order_le_less)
    have **: "p r \<Longrightarrow> i \<le> r \<longleftrightarrow> i + 1 \<le> r" using False by (metis add1_zle_eq order_le_less)
    show ?thesis using False Suc.IH [of "i + 1"] * ** by auto
  qed
qed auto

lemma find_up_None_iff: "find_up n p i = None \<longleftrightarrow> (\<forall>q. i \<le> q \<and> q < i + int n \<longrightarrow> \<not> p q)"
proof (induction n arbitrary: i)
  case (Suc n)
  have "(\<forall>q. i \<le> q \<and> q < i + int (Suc n) \<longrightarrow> \<not> p q) \<longleftrightarrow>
        \<not> p i \<and> (\<forall>q. i + 1 \<le> q \<and> q < i + 1 + int n \<longrightarrow> \<not> p q)" (is "?l \<longleftrightarrow> ?r")
  proof
    assume ?r
    show ?l
    proof (intro allI impI)
      fix q assume "i \<le> q \<and> q < i + int (Suc n)"
      then have "q = i \<or> i + 1 \<le> q \<and> q < i + 1 + int n" by auto
      with \<open>?r\<close> show "\<not> p q" by blast
    qed
  qed auto
  then show ?case using Suc.IH [of "i + 1"] by simp
qed auto

lemma find_range_Some_iff:
  "find_range a b p = Some r \<longleftrightarrow> a \<le> r \<and> r < b \<and> p r \<and> (\<forall>q. a \<le> q \<and> q < r \<longrightarrow> \<not> p q)"
  by (auto simp: find_range_def find_up_Some_iff)

lemma find_range_None_iff: "find_range a b p = None \<longleftrightarrow> (\<forall>q. a \<le> q \<and> q < b \<longrightarrow> \<not> p q)"
  by (auto simp: find_range_def find_up_None_iff)

lemma find_range_cong:
  "(\<And>q. a \<le> q \<Longrightarrow> q < b \<Longrightarrow> p q = p' q) \<Longrightarrow> find_range a b p = find_range a b p'"
proof (cases "find_range a b p'")
  case None
  moreover assume "\<And>q. a \<le> q \<Longrightarrow> q < b \<Longrightarrow> p q = p' q"
  ultimately have "find_range a b p = None" by (auto simp: find_range_None_iff)
  with None show ?thesis by simp
next
  case (Some r)
  moreover assume "\<And>q. a \<le> q \<Longrightarrow> q < b \<Longrightarrow> p q = p' q"
  ultimately have "find_range a b p = Some r" by (auto simp: find_range_Some_iff)
  with Some show ?thesis by simp
qed

text \<open>A search over a range is the search over its first part, then over the rest.\<close>

lemma find_range_split:
  assumes "a \<le> c" "c \<le> b"
  shows "find_range a b p = (case find_range a c p of Some r \<Rightarrow> Some r | None \<Rightarrow> find_range c b p)"
proof (cases "find_range a c p")
  case None
  then have none: "\<forall>q. a \<le> q \<and> q < c \<longrightarrow> \<not> p q" by (simp add: find_range_None_iff)
  show ?thesis
  proof (cases "find_range c b p")
    case None
    with none have "find_range a b p = None"
      using assms by (metis find_range_None_iff not_le)
    with None \<open>find_range a c p = None\<close> show ?thesis by simp
  next
    case (Some r)
    then have r: "c \<le> r" "r < b" "p r" "\<And>q. c \<le> q \<Longrightarrow> q < r \<Longrightarrow> \<not> p q"
      by (auto simp: find_range_Some_iff)
    have "\<not> p q" if "a \<le> q" "q < r" for q
      using none r(4) [of q] that by (cases "q < c") auto
    with r assms have "find_range a b p = Some r" by (auto simp: find_range_Some_iff)
    with Some \<open>find_range a c p = None\<close> show ?thesis by simp
  qed
next
  case (Some r)
  then have "find_range a b p = Some r" using assms by (auto simp: find_range_Some_iff)
  with Some show ?thesis by simp
qed

end
