(* ===== verification/Device.thy ===== *)
theory Device
  imports Prelude
begin

text \<open>
  The interface to the vector cores. The AscendC intrinsics are not part of the repository, so the
  kernels take them as an argument of type \<open>ascendc\<close>, and what the kernels rely on is stated
  as locales: copies into the unified buffer (UB), stores to global memory (GM) and the vector
  comparison. A GM or UB tensor is a function from element index to element value.

  Two contracts for stores are kept apart. \<open>dma_out_burst\<close> lets a store overwrite up to \<open>w\<close>
  elements behind its last one, which is what the host code of the repository reports of stores
  that do not fill a 32-byte block (seven 32-bit or 31 8-bit elements); \<open>dma_out_exact\<close> writes
  exactly the requested elements.
\<close>

unbundle bit_operations_syntax

type_synonym tensor = "int \<Rightarrow> int"

record ascendc =
  copy_in :: "tensor \<Rightarrow> int \<Rightarrow> tensor \<Rightarrow> int \<Rightarrow> int \<Rightarrow> tensor"
    \<comment> \<open>GM to UB: destination, its offset, source, its offset, number of elements\<close>
  copy_out :: "tensor \<Rightarrow> int \<Rightarrow> tensor \<Rightarrow> int \<Rightarrow> int \<Rightarrow> tensor"
    \<comment> \<open>UB to GM, same arguments, 32-bit elements\<close>
  copy_out8 :: "tensor \<Rightarrow> int \<Rightarrow> tensor \<Rightarrow> int \<Rightarrow> int \<Rightarrow> tensor"
    \<comment> \<open>UB to GM, same arguments, 8-bit elements\<close>
  compare_eq :: "tensor \<Rightarrow> tensor \<Rightarrow> int \<Rightarrow> int \<Rightarrow> int \<Rightarrow> tensor"
    \<comment> \<open>mask bytes, source, its offset, scalar, number of elements\<close>

text \<open>The tensor with the elements of a list.\<close>

definition tensor_of :: "int list \<Rightarrow> tensor" where
  "tensor_of xs i = (if 0 \<le> i \<and> nat i < length xs then xs ! nat i else 0)"

section \<open>Contracts\<close>

locale dma_in =
  fixes ci :: "tensor \<Rightarrow> int \<Rightarrow> tensor \<Rightarrow> int \<Rightarrow> int \<Rightarrow> tensor"
  assumes ci_read: "0 < n \<Longrightarrow> d \<le> i \<Longrightarrow> i < d + n \<Longrightarrow> ci dst d src s n i = src (s + (i - d))"
    and ci_frame: "0 < n \<Longrightarrow> i < d \<or> d + align_up n 8 \<le> i \<Longrightarrow> ci dst d src s n i = dst i"

locale dma_out_burst =
  fixes co :: "tensor \<Rightarrow> int \<Rightarrow> tensor \<Rightarrow> int \<Rightarrow> int \<Rightarrow> tensor" and w :: int
  assumes co_write: "0 < n \<Longrightarrow> d \<le> i \<Longrightarrow> i < d + n \<Longrightarrow> co dst d src s n i = src (s + (i - d))"
    and co_frame: "0 < n \<Longrightarrow> i < d \<or> d + n + w \<le> i \<Longrightarrow> co dst d src s n i = dst i"

locale dma_out_exact =
  fixes co :: "tensor \<Rightarrow> int \<Rightarrow> tensor \<Rightarrow> int \<Rightarrow> int \<Rightarrow> tensor"
  assumes co_exact: "0 < n \<Longrightarrow>
    co dst d src s n i = (if d \<le> i \<and> i < d + n then src (s + (i - d)) else dst i)"

text \<open>
  The comparison sets bit \<open>p mod 8\<close> of mask byte \<open>p div 8\<close> to the outcome for element
  \<open>p\<close>, for whole vectors of 64 elements, and leaves the bytes behind them alone.
\<close>

definition mask_bit :: "tensor \<Rightarrow> int \<Rightarrow> bool" where
  "mask_bit m p = (m (p div 8) AND push_bit (nat (p mod 8)) 1 \<noteq> 0)"

locale vec_compare =
  fixes cmp :: "tensor \<Rightarrow> tensor \<Rightarrow> int \<Rightarrow> int \<Rightarrow> int \<Rightarrow> tensor"
  assumes cmp_bit: "64 dvd n \<Longrightarrow> 0 \<le> p \<Longrightarrow> p < n \<Longrightarrow>
      mask_bit (cmp m src d x n) p = (src (d + p) = x)"
    and cmp_frame: "64 dvd n \<Longrightarrow> 0 \<le> n \<Longrightarrow> n \<le> p \<Longrightarrow> mask_bit (cmp m src d x n) p = mask_bit m p"

locale npu_burst = dma_in "copy_in dev" + dma_out_burst "copy_out dev" 7 +
    b8: dma_out_burst "copy_out8 dev" 31 + vec_compare "compare_eq dev"
  for dev :: ascendc

locale npu_exact = dma_in "copy_in dev" + dma_out_exact "copy_out dev" +
    e8: dma_out_exact "copy_out8 dev" + vec_compare "compare_eq dev"
  for dev :: ascendc

sublocale npu_exact \<subseteq> npu_burst dev
  by unfold_locales (auto simp: co_exact e8.co_exact)

section \<open>Devices that meet the contracts\<close>

definition ub_load :: "tensor \<Rightarrow> int \<Rightarrow> tensor \<Rightarrow> int \<Rightarrow> int \<Rightarrow> tensor" where
  "ub_load dst d src s n = (\<lambda>i. if d \<le> i \<and> i < d + n then src (s + (i - d)) else dst i)"

definition gm_store :: "tensor \<Rightarrow> int \<Rightarrow> tensor \<Rightarrow> int \<Rightarrow> int \<Rightarrow> tensor" where
  "gm_store dst d src s n = (\<lambda>i. if d \<le> i \<and> i < d + n then src (s + (i - d)) else dst i)"

text \<open>A store that leaves \<open>g\<close> in the \<open>w\<close> elements behind the last one it should write.\<close>

definition gm_store_burst :: "int \<Rightarrow> int \<Rightarrow> tensor \<Rightarrow> int \<Rightarrow> tensor \<Rightarrow> int \<Rightarrow> int \<Rightarrow> tensor" where
  "gm_store_burst w g dst d src s n =
     (\<lambda>i. if d \<le> i \<and> i < d + n then src (s + (i - d))
          else if d + n \<le> i \<and> i < d + n + w then g else dst i)"

definition cmp_bytes :: "tensor \<Rightarrow> tensor \<Rightarrow> int \<Rightarrow> int \<Rightarrow> int \<Rightarrow> tensor" where
  "cmp_bytes m src d x n =
     (\<lambda>j. if 0 \<le> j \<and> 8 * j < n
          then horner_sum of_bool 2 (map (\<lambda>b. src (d + (8 * j + int b)) = x) [0..<8]) else m j)"

lemma mask_bit_iff: "mask_bit m p \<longleftrightarrow> bit (m (p div 8)) (nat (p mod 8))"
  by (simp add: mask_bit_def bit_iff_and_push_bit_not_eq_0)

lemma cmp_bytes_bit:
  assumes n: "64 dvd n" and p: "0 \<le> p" "p < n"
  shows "mask_bit (cmp_bytes m src d x n) p = (src (d + p) = x)"
proof -
  obtain q where q: "n = 64 * q" using n by blast
  have "8 * (p div 8) < n" using p q by presburger
  moreover have "0 \<le> p div 8" using p by simp
  moreover have "nat (p mod 8) < 8" by simp
  ultimately have "mask_bit (cmp_bytes m src d x n) p \<longleftrightarrow>
      (src (d + (8 * (p div 8) + int (nat (p mod 8)))) = x)"
    by (simp add: mask_bit_iff cmp_bytes_def bit_horner_sum_bit_iff)
  moreover have "8 * (p div 8) + int (nat (p mod 8)) = p" by simp
  ultimately show ?thesis by simp
qed

lemma cmp_bytes_frame:
  assumes n: "64 dvd n" "0 \<le> n" and p: "n \<le> p"
  shows "mask_bit (cmp_bytes m src d x n) p = mask_bit m p"
proof -
  obtain q where q: "n = 64 * q" using n by blast
  have "\<not> 8 * (p div 8) < n" using p q by presburger
  then show ?thesis by (simp add: mask_bit_iff cmp_bytes_def)
qed

definition exact_npu :: ascendc where
  "exact_npu = \<lparr>copy_in = ub_load, copy_out = gm_store, copy_out8 = gm_store, compare_eq = cmp_bytes\<rparr>"

definition burst_npu :: "int \<Rightarrow> ascendc" where
  "burst_npu g = \<lparr>copy_in = ub_load, copy_out = gm_store_burst 7 g, copy_out8 = gm_store_burst 31 g,
     compare_eq = cmp_bytes\<rparr>"

lemma ub_load_dma_in: "dma_in ub_load"
proof unfold_locales
  fix n i d s :: int and dst src :: tensor
  assume "0 < n" and "i < d \<or> d + align_up n 8 \<le> i"
  moreover have "n \<le> align_up n 8" by (rule align_up_ge) simp
  ultimately show "ub_load dst d src s n i = dst i" by (auto simp: ub_load_def)
qed (simp add: ub_load_def)

lemma cmp_bytes_vec_compare: "vec_compare cmp_bytes"
  by unfold_locales (auto simp: cmp_bytes_bit cmp_bytes_frame)

interpretation exact: npu_exact exact_npu
  using ub_load_dma_in cmp_bytes_vec_compare
  by (auto simp: npu_exact_def exact_npu_def dma_out_exact_def gm_store_def)

interpretation burst: npu_burst "burst_npu g" for g
  using ub_load_dma_in cmp_bytes_vec_compare
  by (auto simp: npu_burst_def burst_npu_def dma_out_burst_def gm_store_burst_def)

end
