(* ===== verification/Eagle.thy ===== *)
theory Eagle
  imports Device
begin

text \<open>
  Expansion of the draft inputs for parallel drafting
  (\<^verbatim>\<open>csrc/moe/copy_and_expand_eagle_inputs\<close>): shape inference, the tiling function and the
  vector-core kernel. Offsets into GM are unbounded integers; the operator addresses tensors of at
  most \<open>2 ^ 31\<close> elements, where the kernel's 32-bit offsets are the same numbers.
\<close>

section \<open>Shape inference\<close>

record eagle_shape_context =
  es_targetTokenIds :: "int list option"
  es_queryStartLoc :: "int list option"
  es_attrs :: "(int \<times> bool) option"
    \<comment> \<open>the attributes \<open>num_padding_slots\<close> and \<open>shift_input_ids\<close>\<close>
  es_outputs :: "bool list"
    \<comment> \<open>which of the output shapes exist\<close>

text \<open>The result is the list of the first dimensions of the six outputs.\<close>

definition InferShape4CopyAndExpandEagleInputs :: "eagle_shape_context \<Rightarrow> int list graph_status option" where
  "InferShape4CopyAndExpandEagleInputs c =
     (case es_targetTokenIds c of None \<Rightarrow> Some GRAPH_FAILED | Some tokenShape \<Rightarrow>
     (case es_queryStartLoc c of None \<Rightarrow> Some GRAPH_FAILED | Some qslShape \<Rightarrow>
      do {
        totalInputTokens \<leftarrow> vget tokenShape 0;
        qsl0 \<leftarrow> vget qslShape 0;
        let numReqs = qsl0 - 1;
        (case es_attrs c of None \<Rightarrow> Some GRAPH_FAILED
         | Some (numPaddingSlotsPerReq, shiftInputIds) \<Rightarrow>
           let totalDraftTokens = totalInputTokens +
                 (numPaddingSlotsPerReq - (if shiftInputIds then 1 else 0)) * numReqs
           in if \<forall>i \<in> set [0..<6]. i < length (es_outputs c) \<and> es_outputs c ! i
              then Some (GRAPH_SUCCESS [totalDraftTokens, totalDraftTokens, totalDraftTokens, totalDraftTokens,
                     numReqs * numPaddingSlotsPerReq, totalInputTokens])
              else Some GRAPH_FAILED) }))"

datatype ge_dtype = DT_INT32 | DT_INT8

definition InferDataType4CopyAndExpandEagleInputs :: "ge_dtype list graph_status" where
  "InferDataType4CopyAndExpandEagleInputs =
     GRAPH_SUCCESS [DT_INT32, DT_INT32, DT_INT8, DT_INT8, DT_INT32, DT_INT32]"

section \<open>Tiling\<close>

record eagle_tiling =
  et_usedCoreNum :: int
  et_numReqs :: int
  et_reqsPerCore :: int
  et_remainderReqs :: int
  et_paddingTokenId :: int
  et_parallelDraftingTokenId :: int
  et_numPaddingSlotsPerReq :: int
  et_totalInputTokens :: int
  et_shiftInputIds :: int
  et_totalDraftTokens :: int

record eagle_context =
  ec_compileInfo :: "int option"
    \<comment> \<open>\<open>totalCoreNum\<close> of the compile info\<close>
  ec_coreNum :: int
    \<comment> \<open>the core number of the platform\<close>
  ec_queryStartLoc :: "int list option"
  ec_attrs :: "int \<times> int \<times> int \<times> bool \<times> int"
  ec_outShape :: "int list option"

definition GetCompileParameters :: "eagle_context \<Rightarrow> int" where
  "GetCompileParameters c = (case ec_compileInfo c of None \<Rightarrow> ec_coreNum c | Some totalCoreNum \<Rightarrow> totalCoreNum)"

text \<open>The tiling data and the block dimension; the core number it asks for is not used.\<close>

definition eagle_TilingFunc :: "eagle_context \<Rightarrow> eagle_tiling \<times> int" where
  "eagle_TilingFunc c =
     (let numReqs = (case ec_queryStartLoc c of Some (dim0 # _) \<Rightarrow> if dim0 > 1 then u32 (dim0 - 1) else 0 | _ \<Rightarrow> 0);
          (paddingTokenId, parallelDraftingTokenId, numPaddingSlotsPerReq, shiftInputIds, totalInputTokens) = ec_attrs c;
          usedCoreNum = 1;
          totalDraftTokens = (case ec_outShape c of Some (dim0 # _) \<Rightarrow> u32 dim0 | _ \<Rightarrow> 0)
      in (\<lparr>et_usedCoreNum = usedCoreNum, et_numReqs = numReqs, et_reqsPerCore = numReqs div usedCoreNum,
           et_remainderReqs = numReqs mod usedCoreNum, et_paddingTokenId = paddingTokenId,
           et_parallelDraftingTokenId = parallelDraftingTokenId,
           et_numPaddingSlotsPerReq = u32 numPaddingSlotsPerReq, et_totalInputTokens = u32 totalInputTokens,
           et_shiftInputIds = (if shiftInputIds then 1 else 0), et_totalDraftTokens = totalDraftTokens\<rparr>,
          usedCoreNum))"

section \<open>Kernel state\<close>

record eagle_gm =
  gmTargetTokenIds :: tensor
  gmTargetPositions :: tensor
  gmNextTokenIds :: tensor
  gmQueryStartLoc :: tensor
  gmQueryEndLoc :: tensor
  gmOutInputIds :: tensor
  gmOutPositions :: tensor
  gmOutIsRejectedTokenMask :: tensor
  gmOutIsMaskedTokenMask :: tensor
  gmOutNewTokenIndices :: tensor
  gmOutHiddenStateMapping :: tensor

record eagle_ub =
  qsBuf :: tensor
  qeBuf :: tensor
  ntBuf :: tensor
  inputBuf :: tensor
  outIdsBuf :: tensor
  outPosBuf :: tensor
  outRejBuf :: tensor
  outMskBuf :: tensor
  ntiBuf :: tensor
  hsmBuf :: tensor

record eagle_kernel =
  ek_numReqs :: int
  ek_paddingTokenId :: int
  ek_parallelDraftingTokenId :: int
  ek_numPaddingSlotsPerReq :: int
  ek_totalInputTokens :: int
  ek_totalDraftTokens :: int
  ek_myStartReq :: int
  ek_myNumReqs :: int

section \<open>Copies\<close>

definition DataCopyIn :: "ascendc \<Rightarrow> tensor \<Rightarrow> tensor \<Rightarrow> int \<Rightarrow> int \<Rightarrow> tensor" where
  "DataCopyIn dev dst src gmOffset count =
     (if count \<le> 0 then dst
      else (let aligned = (count + 8 - 1) div 8 * 8 in copy_in dev dst 0 src gmOffset aligned))"

definition DataCopyOut_int32 :: "ascendc \<Rightarrow> tensor \<Rightarrow> tensor \<Rightarrow> int \<Rightarrow> int \<Rightarrow> tensor" where
  "DataCopyOut_int32 dev dst src gmOffset count =
     (if count \<le> 0 then dst else copy_out dev dst gmOffset src 0 count)"

definition DataCopyOut_int8 :: "ascendc \<Rightarrow> tensor \<Rightarrow> tensor \<Rightarrow> int \<Rightarrow> int \<Rightarrow> tensor" where
  "DataCopyOut_int8 dev dst src gmOffset count =
     (if count \<le> 0 then dst else copy_out8 dev dst gmOffset src 0 count)"

definition eagle_Init :: "ascendc \<Rightarrow> eagle_tiling \<Rightarrow> int \<Rightarrow> eagle_gm \<Rightarrow> eagle_ub \<Rightarrow> eagle_kernel \<times> eagle_ub" where
  "eagle_Init dev t coreId gm ub =
     (let reqsPerCore = et_reqsPerCore t; remainderReqs = et_remainderReqs t;
          (myStartReq, myNumReqs) =
            (if coreId < remainderReqs then (u32 (coreId * (reqsPerCore + 1)), u32 (reqsPerCore + 1))
             else (u32 (remainderReqs * (reqsPerCore + 1) + (coreId - remainderReqs) * reqsPerCore), reqsPerCore));
          kn = \<lparr>ek_numReqs = et_numReqs t, ek_paddingTokenId = et_paddingTokenId t,
                ek_parallelDraftingTokenId = et_parallelDraftingTokenId t,
                ek_numPaddingSlotsPerReq = et_numPaddingSlotsPerReq t,
                ek_totalInputTokens = et_totalInputTokens t, ek_totalDraftTokens = et_totalDraftTokens t,
                ek_myStartReq = myStartReq, ek_myNumReqs = myNumReqs\<rparr>
      in (kn,
          if myNumReqs > 0
          then ub\<lparr>qsBuf := DataCopyIn dev (qsBuf ub) (gmQueryStartLoc gm) myStartReq (myNumReqs + 1),
                  qeBuf := DataCopyIn dev (qeBuf ub) (gmQueryEndLoc gm) myStartReq myNumReqs,
                  ntBuf := DataCopyIn dev (ntBuf ub) (gmNextTokenIds gm) myStartReq myNumReqs\<rparr>
          else ub))"

definition ReadQS :: "eagle_ub \<Rightarrow> int \<Rightarrow> int" where
  "ReadQS ub rLocal = qsBuf ub rLocal"

definition ReadNextQS :: "eagle_ub \<Rightarrow> int \<Rightarrow> int" where
  "ReadNextQS ub rLocal = qsBuf ub (rLocal + 1)"

definition ReadQE :: "eagle_ub \<Rightarrow> int \<Rightarrow> int" where
  "ReadQE ub rLocal = qeBuf ub rLocal"

definition ReadNT :: "eagle_ub \<Rightarrow> int \<Rightarrow> int" where
  "ReadNT ub rLocal = ntBuf ub rLocal"

section \<open>One request\<close>

text \<open>
  One row of the four token buffers, and the fill loops of a request, which both variants share:
  the accepted tokens \<open>tok j\<close>, the bonus token, the parallel-draft slots, the rejected slots.
\<close>

definition set_slot :: "int \<Rightarrow> int \<Rightarrow> int \<Rightarrow> int \<Rightarrow> int \<Rightarrow> eagle_ub \<Rightarrow> eagle_ub" where
  "set_slot j tokId p rej msk ub =
     ub\<lparr>outIdsBuf := (outIdsBuf ub)(j := tokId), outPosBuf := (outPosBuf ub)(j := p),
        outRejBuf := (outRejBuf ub)(j := rej), outMskBuf := (outMskBuf ub)(j := msk)\<rparr>"

definition fill_request :: "eagle_kernel \<Rightarrow> int \<Rightarrow> int \<Rightarrow> int \<Rightarrow> int \<Rightarrow> (int \<Rightarrow> int) \<Rightarrow> eagle_ub \<Rightarrow> eagle_ub" where
  "fill_request kn numValid numRejected startPos nextTokenId tok ub =
     (let slots = ek_numPaddingSlotsPerReq kn;
          ub1 = for_range 0 numValid (\<lambda>j. set_slot j (tok j) (startPos + j) 0 0) ub;
          ub2 = set_slot numValid nextTokenId (startPos + numValid) 0 0 ub1;
          ub3 = for_range 1 slots
                  (\<lambda>k. set_slot (numValid + k) (ek_parallelDraftingTokenId kn) (startPos + (numValid + k)) 0 1) ub2
      in for_range 0 numRejected (\<lambda>k. set_slot (numValid + slots + k) (ek_paddingTokenId kn) 0 1 0) ub3)"

definition write_request :: "ascendc \<Rightarrow> int \<Rightarrow> int \<Rightarrow> eagle_ub \<Rightarrow> eagle_gm \<Rightarrow> eagle_gm" where
  "write_request dev outputStart len ub gm =
     gm\<lparr>gmOutInputIds := DataCopyOut_int32 dev (gmOutInputIds gm) (outIdsBuf ub) outputStart len,
        gmOutPositions := DataCopyOut_int32 dev (gmOutPositions gm) (outPosBuf ub) outputStart len,
        gmOutIsRejectedTokenMask := DataCopyOut_int8 dev (gmOutIsRejectedTokenMask gm) (outRejBuf ub) outputStart len,
        gmOutIsMaskedTokenMask := DataCopyOut_int8 dev (gmOutIsMaskedTokenMask gm) (outMskBuf ub) outputStart len\<rparr>"

definition write_nti :: "ascendc \<Rightarrow> eagle_kernel \<Rightarrow> int \<Rightarrow> int \<Rightarrow> eagle_gm \<times> eagle_ub \<Rightarrow> eagle_gm \<times> eagle_ub" where
  "write_nti dev kn r first st =
     (case st of (gm, ub) \<Rightarrow>
      let slots = ek_numPaddingSlotsPerReq kn;
          nti = for_range 1 slots (\<lambda>k b. b(k := first + k)) ((ntiBuf ub)(0 := first))
      in (gm\<lparr>gmOutNewTokenIndices := DataCopyOut_int32 dev (gmOutNewTokenIndices gm) nti (r * slots) slots\<rparr>,
          ub\<lparr>ntiBuf := nti\<rparr>))"

definition ProcessOneRequestShiftFalse ::
  "ascendc \<Rightarrow> eagle_kernel \<Rightarrow> int \<Rightarrow> int \<Rightarrow> eagle_gm \<times> eagle_ub \<Rightarrow> eagle_gm \<times> eagle_ub" where
  "ProcessOneRequestShiftFalse dev kn r rLocal st =
     (case st of (gm, ub) \<Rightarrow>
      let slots = ek_numPaddingSlotsPerReq kn;
          queryStart = ReadQS ub rLocal;
          nextQueryStart = ReadNextQS ub rLocal;
          queryEnd = ReadQE ub rLocal;
          numRejected = max 0 (nextQueryStart - queryEnd - 1);
          numValid = max 0 (queryEnd - queryStart + 1);
          outputStart = queryStart + r * slots;
          outputLen = numValid + slots + numRejected;
          numInputTokensForReq = nextQueryStart - queryStart;
          localInput = (if numInputTokensForReq > 0
                        then DataCopyIn dev (inputBuf ub) (gmTargetTokenIds gm) queryStart numInputTokensForReq
                        else inputBuf ub);
          localTmpPos = DataCopyIn dev (hsmBuf ub) (gmTargetPositions gm) queryStart 1;
          startPos = localTmpPos 0;
          nextTokenId = ReadNT ub rLocal;
          tok = (\<lambda>j. localInput (if j \<ge> numInputTokensForReq then numInputTokensForReq - 1 else j));
          ub1 = fill_request kn numValid numRejected startPos nextTokenId tok
                  (ub\<lparr>inputBuf := localInput, hsmBuf := localTmpPos\<rparr>);
          gm1 = write_request dev outputStart outputLen ub1 gm
      in write_nti dev kn r (outputStart + numValid) (gm1, ub1))"

definition ProcessOneRequestShiftTrue ::
  "ascendc \<Rightarrow> eagle_kernel \<Rightarrow> int \<Rightarrow> int \<Rightarrow> eagle_gm \<times> eagle_ub \<Rightarrow> eagle_gm \<times> eagle_ub" where
  "ProcessOneRequestShiftTrue dev kn r rLocal st =
     (case st of (gm, ub) \<Rightarrow>
      let slots = ek_numPaddingSlotsPerReq kn;
          queryStart = ReadQS ub rLocal;
          nextQueryStart = ReadNextQS ub rLocal;
          queryEnd = ReadQE ub rLocal;
          numRejected = max 0 (nextQueryStart - queryEnd - 1);
          numValid = max 0 (queryEnd - queryStart);
          outputStart = queryStart + r * (slots - 1);
          outputLen = numValid + slots + numRejected;
          numInputTokensForReq = nextQueryStart - queryStart;
          readStart = queryStart + 1;
          readCount = (if readStart + numValid > ek_totalInputTokens kn
                       then max 0 (ek_totalInputTokens kn - readStart) else numValid);
          localInput = (if readCount > 0
                        then DataCopyIn dev (inputBuf ub) (gmTargetTokenIds gm) readStart readCount
                        else inputBuf ub);
          localTmpPos = DataCopyIn dev (hsmBuf ub) (gmTargetPositions gm) queryStart 1;
          startPos = localTmpPos 0;
          nextTokenId = ReadNT ub rLocal;
          tok = (\<lambda>j. if readCount > 0 then localInput (if j \<ge> readCount then readCount - 1 else j) else 0);
          ub1 = fill_request kn numValid numRejected startPos nextTokenId tok
                  (ub\<lparr>inputBuf := localInput, hsmBuf := localTmpPos\<rparr>);
          outputLenToWrite = (if nextQueryStart = queryEnd \<and> r + 1 < ek_numReqs kn then outputLen - 1 else outputLen);
          gm1 = write_request dev outputStart outputLenToWrite ub1 gm;
          (gm2, ub2) = write_nti dev kn r (outputStart + numValid) (gm1, ub1);
          hsm = for_range 0 numInputTokensForReq (\<lambda>j b. b(j := outputStart + j)) (hsmBuf ub2)
      in (gm2\<lparr>gmOutHiddenStateMapping :=
                DataCopyOut_int32 dev (gmOutHiddenStateMapping gm2) hsm queryStart numInputTokensForReq\<rparr>,
          ub2\<lparr>hsmBuf := hsm\<rparr>))"

section \<open>The requests of a core\<close>

definition ProcessShiftFalse :: "ascendc \<Rightarrow> eagle_kernel \<Rightarrow> eagle_gm \<times> eagle_ub \<Rightarrow> eagle_gm \<times> eagle_ub" where
  "ProcessShiftFalse dev kn st =
     for_range 0 (ek_myNumReqs kn)
       (\<lambda>rLocal. ProcessOneRequestShiftFalse dev kn (ek_myStartReq kn + rLocal) rLocal) st"

text \<open>The zero fill behind the last request.\<close>

definition fill_tail :: "ascendc \<Rightarrow> eagle_kernel \<Rightarrow> eagle_gm \<times> eagle_ub \<Rightarrow> eagle_gm \<times> eagle_ub" where
  "fill_tail dev kn st =
     (case st of (gm, ub) \<Rightarrow>
      let slots = ek_numPaddingSlotsPerReq kn;
          lastLocal = u32 (ek_myNumReqs kn - 1);
          lastQs = qsBuf ub lastLocal;
          lastNqs = qsBuf ub (u32 (lastLocal + 1));
          lastQe = qeBuf ub lastLocal;
          lastNumValid = max 0 (lastQe - lastQs);
          lastNumRejected = max 0 (lastNqs - lastQe - 1);
          lastOutputLen = lastNumValid + slots + lastNumRejected;
          lastOutputStart = lastQs + u32 (ek_myStartReq kn + lastLocal) * (slots - 1);
          writtenEnd = lastOutputStart + lastOutputLen;
          tailCount = ek_totalDraftTokens kn - writtenEnd
      in if tailCount > 0
         then (let z32 = for_range 0 tailCount (\<lambda>j b. b(j := 0)) (outIdsBuf ub);
                   z8 = for_range 0 tailCount (\<lambda>j b. b(j := 0)) (outRejBuf ub)
               in (gm\<lparr>gmOutInputIds := DataCopyOut_int32 dev (gmOutInputIds gm) z32 writtenEnd tailCount,
                      gmOutPositions := DataCopyOut_int32 dev (gmOutPositions gm) z32 writtenEnd tailCount,
                      gmOutIsRejectedTokenMask :=
                        DataCopyOut_int8 dev (gmOutIsRejectedTokenMask gm) z8 writtenEnd tailCount,
                      gmOutIsMaskedTokenMask :=
                        DataCopyOut_int8 dev (gmOutIsMaskedTokenMask gm) z8 writtenEnd tailCount\<rparr>,
                   ub\<lparr>outIdsBuf := z32, outRejBuf := z8\<rparr>))
         else (gm, ub))"

definition ProcessShiftTrue :: "ascendc \<Rightarrow> eagle_kernel \<Rightarrow> eagle_gm \<times> eagle_ub \<Rightarrow> eagle_gm \<times> eagle_ub" where
  "ProcessShiftTrue dev kn st =
     (let st1 = for_range 0 (ek_myNumReqs kn)
                  (\<lambda>rLocal. ProcessOneRequestShiftTrue dev kn (ek_myStartReq kn + rLocal) rLocal) st
      in if u32 (ek_myStartReq kn + ek_myNumReqs kn) = ek_numReqs kn \<and> ek_totalDraftTokens kn > 0
         then fill_tail dev kn st1 else st1)"

definition copy_and_expand_eagle_inputs ::
  "ascendc \<Rightarrow> eagle_tiling \<Rightarrow> int \<Rightarrow> eagle_gm \<times> eagle_ub \<Rightarrow> eagle_gm \<times> eagle_ub" where
  "copy_and_expand_eagle_inputs dev t blockIdx st =
     (case st of (gm, ub) \<Rightarrow>
      if blockIdx \<ge> et_usedCoreNum t then (gm, ub)
      else (let (kn, ub1) = eagle_Init dev t blockIdx gm ub
            in if et_shiftInputIds t = 0 then ProcessShiftFalse dev kn (gm, ub1)
               else ProcessShiftTrue dev kn (gm, ub1)))"

text \<open>A launch on the cores of \<open>order\<close>, each with its own UB, finishing in that order.\<close>

definition eagle_launch :: "ascendc \<Rightarrow> eagle_tiling \<Rightarrow> int list \<Rightarrow> (int \<Rightarrow> eagle_ub) \<Rightarrow> eagle_gm \<Rightarrow> eagle_gm" where
  "eagle_launch dev t order ubs gm =
     fold (\<lambda>b g. fst (copy_and_expand_eagle_inputs dev t b (g, ubs b))) order gm"

text \<open>
  The operator as the binding calls it (\<open>npu_copy_and_expand_eagle_inputs\<close>): zeroed outputs of the
  requested length, the tiling of the call, and a launch.
\<close>

definition npu_copy_and_expand_eagle_inputs ::
  "ascendc \<Rightarrow> (int \<Rightarrow> eagle_ub) \<Rightarrow> int option \<Rightarrow> int \<Rightarrow> int \<Rightarrow> int \<Rightarrow> int \<Rightarrow> int \<Rightarrow> int \<Rightarrow> bool \<Rightarrow> int \<Rightarrow> eagle_gm \<Rightarrow> eagle_gm" where
  "npu_copy_and_expand_eagle_inputs dev ubs compileInfo coreNum total_input_tokens num_reqs padding_token_id
      parallel_drafting_token_id num_padding_slots_per_request shift_input_ids total_draft_tokens gm =
     (let zeros = (\<lambda>_. 0);
          gm0 = gm\<lparr>gmOutInputIds := zeros, gmOutPositions := zeros, gmOutIsRejectedTokenMask := zeros,
                   gmOutIsMaskedTokenMask := zeros, gmOutNewTokenIndices := zeros, gmOutHiddenStateMapping := zeros\<rparr>;
          (t, blockDim) = eagle_TilingFunc
             \<lparr>ec_compileInfo = compileInfo, ec_coreNum = coreNum, ec_queryStartLoc = Some [num_reqs + 1],
              ec_attrs = (padding_token_id, parallel_drafting_token_id, num_padding_slots_per_request,
                          shift_input_ids, total_input_tokens),
              ec_outShape = Some [total_draft_tokens]\<rparr>
      in eagle_launch dev t [0..blockDim - 1] ubs gm0)"

end
