(* ===== verification/EagleSpec.thy ===== *)
theory EagleSpec
  imports Eagle
begin

text \<open>
  The reference for the expanded draft inputs and the proof that the operator writes it: every request
  fills its own segment of the outputs, a store may spill behind a segment only into the segment of
  the next request, which is written later, and the segments cover the outputs exactly.
\<close>

section \<open>Reference\<close>

text \<open>Slot \<open>j\<close> of a request: token, position, rejected mark, masked mark.\<close>

definition slot_ref :: "eagle_kernel \<Rightarrow> int \<Rightarrow> int \<Rightarrow> int \<Rightarrow> (int \<Rightarrow> int) \<Rightarrow> int \<Rightarrow> int \<times> int \<times> int \<times> int" where
  "slot_ref kn numValid startPos next tok j =
     (if j < numValid then (tok j, startPos + j, 0, 0)
      else if j = numValid then (next, startPos + j, 0, 0)
      else if j < numValid + ek_numPaddingSlotsPerReq kn then (ek_parallelDraftingTokenId kn, startPos + j, 0, 1)
      else (ek_paddingTokenId kn, 0, 1, 0))"

definition req_valid :: "bool \<Rightarrow> eagle_gm \<Rightarrow> int \<Rightarrow> int" where
  "req_valid shift gm r = gmQueryEndLoc gm r - gmQueryStartLoc gm r + (if shift then 0 else 1)"

definition req_start :: "bool \<Rightarrow> eagle_kernel \<Rightarrow> eagle_gm \<Rightarrow> int \<Rightarrow> int" where
  "req_start shift kn gm r = gmQueryStartLoc gm r + r * (ek_numPaddingSlotsPerReq kn - (if shift then 1 else 0))"

definition req_slot :: "bool \<Rightarrow> eagle_kernel \<Rightarrow> eagle_gm \<Rightarrow> int \<Rightarrow> int \<Rightarrow> int \<times> int \<times> int \<times> int" where
  "req_slot shift kn gm r =
     slot_ref kn (req_valid shift gm r) (gmTargetPositions gm (gmQueryStartLoc gm r)) (gmNextTokenIds gm r)
       (\<lambda>j. gmTargetTokenIds gm (gmQueryStartLoc gm r + j + (if shift then 1 else 0)))"

definition out_slot :: "eagle_gm \<Rightarrow> int \<Rightarrow> int \<times> int \<times> int \<times> int" where
  "out_slot gm i = (gmOutInputIds gm i, gmOutPositions gm i, gmOutIsRejectedTokenMask gm i, gmOutIsMaskedTokenMask gm i)"

lemma out_slot_other [simp]:
  "out_slot (gm\<lparr>gmOutNewTokenIndices := a\<rparr>) = out_slot gm" "out_slot (gm\<lparr>gmOutHiddenStateMapping := a\<rparr>) = out_slot gm"
  by (auto simp: out_slot_def)

text \<open>The outputs of request \<open>r\<close> in \<open>gm'\<close> are those the inputs \<open>gm\<close> ask for.\<close>

definition req_written :: "bool \<Rightarrow> eagle_kernel \<Rightarrow> eagle_gm \<Rightarrow> eagle_gm \<Rightarrow> int \<Rightarrow> bool" where
  "req_written shift kn gm gm' r \<longleftrightarrow>
     (\<forall>i. req_start shift kn gm r \<le> i \<and> i < req_start shift kn gm (r + 1) \<longrightarrow>
        out_slot gm' i = req_slot shift kn gm r (i - req_start shift kn gm r)) \<and>
     (\<forall>k. 0 \<le> k \<and> k < ek_numPaddingSlotsPerReq kn \<longrightarrow>
        gmOutNewTokenIndices gm' (r * ek_numPaddingSlotsPerReq kn + k) = req_start shift kn gm r + req_valid shift gm r + k) \<and>
     (shift \<longrightarrow> (\<forall>i. gmQueryStartLoc gm r \<le> i \<and> i < gmQueryStartLoc gm (r + 1) \<longrightarrow>
        gmOutHiddenStateMapping gm' i = req_start shift kn gm r + (i - gmQueryStartLoc gm r)))"

text \<open>
  The query locations the operator is called with: every request ends inside its input segment;
  with shifted input ids it keeps at least its first token.
\<close>

definition eagle_batch :: "bool \<Rightarrow> eagle_kernel \<Rightarrow> eagle_gm \<Rightarrow> int \<Rightarrow> bool" where
  "eagle_batch shift kn gm n \<longleftrightarrow> 1 \<le> ek_numPaddingSlotsPerReq kn \<and>
     (\<forall>r \<in> {0..<n}. gmQueryStartLoc gm r \<le> gmQueryEndLoc gm r + (if shift then 0 else 1) \<and>
        gmQueryEndLoc gm r < gmQueryStartLoc gm (r + 1) \<and>
        (shift \<longrightarrow> gmQueryStartLoc gm (r + 1) \<le> ek_totalInputTokens kn))"

definition eagle_inputs_same :: "eagle_gm \<Rightarrow> eagle_gm \<Rightarrow> bool" where
  "eagle_inputs_same gm gm' \<longleftrightarrow> gmTargetTokenIds gm' = gmTargetTokenIds gm \<and> gmTargetPositions gm' = gmTargetPositions gm \<and>
     gmNextTokenIds gm' = gmNextTokenIds gm \<and> gmQueryStartLoc gm' = gmQueryStartLoc gm \<and> gmQueryEndLoc gm' = gmQueryEndLoc gm"

section \<open>Filling the buffers\<close>

lemma set_slot_loop:
  "for_range a b (\<lambda>k. set_slot (c + k) (f k) (p k) rej msk) ub =
     ub\<lparr>outIdsBuf := (\<lambda>i. if c + a \<le> i \<and> i < c + b then f (i - c) else outIdsBuf ub i),
        outPosBuf := (\<lambda>i. if c + a \<le> i \<and> i < c + b then p (i - c) else outPosBuf ub i),
        outRejBuf := (\<lambda>i. if c + a \<le> i \<and> i < c + b then rej else outRejBuf ub i),
        outMskBuf := (\<lambda>i. if c + a \<le> i \<and> i < c + b then msk else outMskBuf ub i)\<rparr>" (is "_ = ?U b")
proof (cases "a \<le> b")
  case True
  show ?thesis
  proof (rule for_range_inv [OF True, where P = "\<lambda>m u. u = ?U m"])
    show "ub = ?U a" by (cases ub) (auto simp: fun_eq_iff)
  next
    fix m u assume "a \<le> m" "m < b" and u: "u = ?U m"
    then have "(c + a \<le> i \<and> i < c + (m + 1)) \<longleftrightarrow> (i = c + m \<or> (c + a \<le> i \<and> i < c + m))" for i by auto
    then show "set_slot (c + m) (f m) (p m) rej msk u = ?U (m + 1)"
      unfolding u by (auto simp: set_slot_def fun_eq_iff)
  qed
qed (cases ub, auto simp: fun_eq_iff)

lemma fill_request_slots:
  fixes ub :: eagle_ub and sp nt :: int and tok :: "int \<Rightarrow> int"
  assumes "0 \<le> nv" "0 \<le> nr" "1 \<le> ek_numPaddingSlotsPerReq kn"
  defines "ub' \<equiv> fill_request kn nv nr sp nt tok ub"
  shows "0 \<le> j \<Longrightarrow> j < nv + ek_numPaddingSlotsPerReq kn + nr \<Longrightarrow>
      (outIdsBuf ub' j, outPosBuf ub' j, outRejBuf ub' j, outMskBuf ub' j) = slot_ref kn nv sp nt tok j"
    and "qsBuf ub' = qsBuf ub" "qeBuf ub' = qeBuf ub" "ntBuf ub' = ntBuf ub" "ntiBuf ub' = ntiBuf ub" "hsmBuf ub' = hsmBuf ub"
proof -
  have l1: "for_range 0 nv (\<lambda>j. set_slot j (tok j) (sp + j) 0 0) = for_range 0 nv (\<lambda>j. set_slot (0 + j) (tok j) (sp + j) 0 0)"
    by simp
  have eq: "ub' = for_range 0 nr (\<lambda>k. set_slot (nv + ek_numPaddingSlotsPerReq kn + k) (ek_paddingTokenId kn) 0 1 0)
     (for_range 1 (ek_numPaddingSlotsPerReq kn) (\<lambda>k. set_slot (nv + k) (ek_parallelDraftingTokenId kn) (sp + (nv + k)) 0 1)
      (set_slot nv nt (sp + nv) 0 0 (for_range 0 nv (\<lambda>j. set_slot (0 + j) (tok j) (sp + j) 0 0) ub)))"
    unfolding ub'_def fill_request_def Let_def l1 ..
  show "qsBuf ub' = qsBuf ub" "qeBuf ub' = qeBuf ub" "ntBuf ub' = ntBuf ub" "ntiBuf ub' = ntiBuf ub" "hsmBuf ub' = hsmBuf ub"
    unfolding eq set_slot_loop by (simp_all add: set_slot_def)
  show "(outIdsBuf ub' j, outPosBuf ub' j, outRejBuf ub' j, outMskBuf ub' j) = slot_ref kn nv sp nt tok j"
    if "0 \<le> j" "j < nv + ek_numPaddingSlotsPerReq kn + nr"
    unfolding eq set_slot_loop using that assms by (auto simp: set_slot_def slot_ref_def)
qed

section \<open>Stores of one request\<close>

text \<open>What a request leaves untouched: everything before its own slots, and the inputs.\<close>

definition req_frame :: "bool \<Rightarrow> eagle_kernel \<Rightarrow> eagle_gm \<Rightarrow> int \<Rightarrow> eagle_gm \<Rightarrow> eagle_gm \<Rightarrow> bool" where
  "req_frame shift kn gm r a b \<longleftrightarrow> eagle_inputs_same a b \<and>
     (\<forall>i. i < req_start shift kn gm r \<longrightarrow> out_slot b i = out_slot a i) \<and>
     (\<forall>i. i < r * ek_numPaddingSlotsPerReq kn \<longrightarrow> gmOutNewTokenIndices b i = gmOutNewTokenIndices a i) \<and>
     (\<forall>i. i < gmQueryStartLoc gm r \<longrightarrow> gmOutHiddenStateMapping b i = gmOutHiddenStateMapping a i)"

lemma DataCopyOut_int32_spec:
  assumes "npu_burst dev"
  shows "d \<le> i \<Longrightarrow> i < d + n \<Longrightarrow> DataCopyOut_int32 dev dst src d n i = src (i - d)"
    and "i < d \<Longrightarrow> DataCopyOut_int32 dev dst src d n i = dst i"
proof -
  have b: "dma_out_burst (copy_out dev) 7" using assms by (simp add: npu_burst_def)
  show "d \<le> i \<Longrightarrow> i < d + n \<Longrightarrow> DataCopyOut_int32 dev dst src d n i = src (i - d)"
    using dma_out_burst.co_write [OF b] by (simp add: DataCopyOut_int32_def)
  show "i < d \<Longrightarrow> DataCopyOut_int32 dev dst src d n i = dst i"
    using dma_out_burst.co_frame [OF b] by (simp add: DataCopyOut_int32_def)
qed

lemma DataCopyOut_int8_spec:
  assumes "npu_burst dev"
  shows "d \<le> i \<Longrightarrow> i < d + n \<Longrightarrow> DataCopyOut_int8 dev dst src d n i = src (i - d)"
    and "i < d \<Longrightarrow> DataCopyOut_int8 dev dst src d n i = dst i"
proof -
  have b: "dma_out_burst (copy_out8 dev) 31" using assms by (simp add: npu_burst_def)
  show "d \<le> i \<Longrightarrow> i < d + n \<Longrightarrow> DataCopyOut_int8 dev dst src d n i = src (i - d)"
    using dma_out_burst.co_write [OF b] by (simp add: DataCopyOut_int8_def)
  show "i < d \<Longrightarrow> DataCopyOut_int8 dev dst src d n i = dst i"
    using dma_out_burst.co_frame [OF b] by (simp add: DataCopyOut_int8_def)
qed

lemma DataCopyIn_read:
  assumes "npu_burst dev" "0 \<le> i" "i < n"
  shows "DataCopyIn dev dst src d n i = src (d + i)"
proof -
  have c: "dma_in (copy_in dev)" using assms by (simp add: npu_burst_def)
  have "n \<le> align_up n 8" by (rule align_up_ge) simp
  then show ?thesis
    using dma_in.ci_read [OF c, of "align_up n 8" 0 i] assms by (simp add: DataCopyIn_def align_up_def)
qed

lemma write_request_slots:
  assumes "npu_burst dev"
  shows "s \<le> i \<Longrightarrow> i < s + n \<Longrightarrow> out_slot (write_request dev s n ub gm) i =
      (outIdsBuf ub (i - s), outPosBuf ub (i - s), outRejBuf ub (i - s), outMskBuf ub (i - s))"
    and "i < s \<Longrightarrow> out_slot (write_request dev s n ub gm) i = out_slot gm i"
  by (simp_all add: out_slot_def write_request_def DataCopyOut_int32_spec [OF assms] DataCopyOut_int8_spec [OF assms])

lemma write_nti_spec:
  assumes "npu_burst dev" "1 \<le> ek_numPaddingSlotsPerReq kn"
  shows "\<exists>nti idx. write_nti dev kn r first (gm, ub) = (gm\<lparr>gmOutNewTokenIndices := idx\<rparr>, ub\<lparr>ntiBuf := nti\<rparr>) \<and>
     (\<forall>k. 0 \<le> k \<and> k < ek_numPaddingSlotsPerReq kn \<longrightarrow> idx (r * ek_numPaddingSlotsPerReq kn + k) = first + k) \<and>
     (\<forall>i. i < r * ek_numPaddingSlotsPerReq kn \<longrightarrow> idx i = gmOutNewTokenIndices gm i)"
proof -
  let ?P = "ek_numPaddingSlotsPerReq kn"
  define nti where "nti = for_range 1 ?P (\<lambda>k b. b(k := first + k)) ((ntiBuf ub)(0 := first))"
  have "for_range 1 ?P (\<lambda>k b. b(k := first + k)) ((ntiBuf ub)(0 := first)) =
     for_range 1 ?P (\<lambda>k b. b(0 + k := first + k)) ((ntiBuf ub)(0 := first))" by simp
  then have "nti k = first + k" if "0 \<le> k" "k < ?P" for k
    unfolding nti_def for_range_store using that by auto
  moreover have "write_nti dev kn r first (gm, ub) =
     (gm\<lparr>gmOutNewTokenIndices := DataCopyOut_int32 dev (gmOutNewTokenIndices gm) nti (r * ?P) ?P\<rparr>, ub\<lparr>ntiBuf := nti\<rparr>)"
    by (simp add: write_nti_def nti_def Let_def)
  ultimately show ?thesis
    using DataCopyOut_int32_spec [OF assms(1)] by (intro exI conjI) auto
qed


section \<open>One request\<close>

text \<open>The query locations of the core's requests are in its buffers.\<close>

definition eagle_loaded :: "eagle_kernel \<Rightarrow> eagle_gm \<Rightarrow> eagle_ub \<Rightarrow> bool" where
  "eagle_loaded kn gm ub \<longleftrightarrow> (\<forall>l. 0 \<le> l \<and> l < ek_myNumReqs kn \<longrightarrow>
     qsBuf ub l = gmQueryStartLoc gm (ek_myStartReq kn + l) \<and> qsBuf ub (l + 1) = gmQueryStartLoc gm (ek_myStartReq kn + l + 1) \<and>
     qeBuf ub l = gmQueryEndLoc gm (ek_myStartReq kn + l) \<and> ntBuf ub l = gmNextTokenIds gm (ek_myStartReq kn + l))"

lemma write_request_other:
  fixes gm :: eagle_gm
  shows "eagle_inputs_same gm (write_request dev s n ub gm)"
  "gmOutNewTokenIndices (write_request dev s n ub gm) = gmOutNewTokenIndices gm"
  "gmOutHiddenStateMapping (write_request dev s n ub gm) = gmOutHiddenStateMapping gm"
  by (simp_all add: write_request_def eagle_inputs_same_def)

lemma request_written:
  assumes dev: "npu_burst dev" and P: "1 \<le> ek_numPaddingSlotsPerReq kn"
    and nv: "nv = req_valid shift gm r" "0 \<le> nv" and s: "s = req_start shift kn gm r"
    and len: "s + (nv + ek_numPaddingSlotsPerReq kn + nr) = req_start shift kn gm (r + 1)" "0 \<le> nr"
    and fill: "\<And>j. 0 \<le> j \<Longrightarrow> j < nv + ek_numPaddingSlotsPerReq kn + nr \<Longrightarrow>
      (outIdsBuf ub j, outPosBuf ub j, outRejBuf ub j, outMskBuf ub j) = req_slot shift kn gm r j"
  shows "\<exists>gm' nti. write_nti dev kn r (s + nv) (write_request dev s (nv + ek_numPaddingSlotsPerReq kn + nr) ub g, ub) =
       (gm', ub\<lparr>ntiBuf := nti\<rparr>) \<and>
     req_frame shift kn gm r g gm' \<and> gmOutHiddenStateMapping gm' = gmOutHiddenStateMapping g \<and>
     (\<forall>i. req_start shift kn gm r \<le> i \<and> i < req_start shift kn gm (r + 1) \<longrightarrow>
        out_slot gm' i = req_slot shift kn gm r (i - req_start shift kn gm r)) \<and>
     (\<forall>k. 0 \<le> k \<and> k < ek_numPaddingSlotsPerReq kn \<longrightarrow>
        gmOutNewTokenIndices gm' (r * ek_numPaddingSlotsPerReq kn + k) = req_start shift kn gm r + req_valid shift gm r + k)"
proof -
  let ?g1 = "write_request dev s (nv + ek_numPaddingSlotsPerReq kn + nr) ub g"
  obtain nti idx where w: "write_nti dev kn r (s + nv) (?g1, ub) = (?g1\<lparr>gmOutNewTokenIndices := idx\<rparr>, ub\<lparr>ntiBuf := nti\<rparr>)"
    and idx: "\<And>k. 0 \<le> k \<Longrightarrow> k < ek_numPaddingSlotsPerReq kn \<Longrightarrow> idx (r * ek_numPaddingSlotsPerReq kn + k) = s + nv + k"
    "\<And>i. i < r * ek_numPaddingSlotsPerReq kn \<Longrightarrow> idx i = gmOutNewTokenIndices ?g1 i"
    using write_nti_spec [OF dev P, of r "s + nv" ?g1 ub] by blast
  have "out_slot ?g1 i = req_slot shift kn gm r (i - s)" if "s \<le> i" "i < req_start shift kn gm (r + 1)" for i
    using write_request_slots(1) [OF dev that(1), of "nv + ek_numPaddingSlotsPerReq kn + nr" ub g] fill [of "i - s"] that len
    by simp
  moreover have "req_frame shift kn gm r g (?g1\<lparr>gmOutNewTokenIndices := idx\<rparr>)"
    using write_request_slots(2) [OF dev] idx(2) s write_request_other [where gm = g and s = s and ub = ub and dev = dev]
    by (simp add: req_frame_def eagle_inputs_same_def)
  ultimately show ?thesis
    using w idx(1) s nv write_request_other(3) by auto
qed


lemma ProcessOneRequestShiftFalse_step:
  assumes dev: "npu_burst dev" and batch: "eagle_batch False kn gm n" and r: "0 \<le> r" "r < n"
    and l: "r = ek_myStartReq kn + l" "0 \<le> l" "l < ek_myNumReqs kn"
    and ub: "eagle_loaded kn gm ub" and g: "eagle_inputs_same gm g"
  shows "\<exists>g' ub'. ProcessOneRequestShiftFalse dev kn r l (g, ub) = (g', ub') \<and> eagle_loaded kn gm ub' \<and>
     req_frame False kn gm r g g' \<and> req_written False kn gm g' r"
proof -
  let ?P = "ek_numPaddingSlotsPerReq kn"
  define qs where "qs = gmQueryStartLoc gm r"
  define nqs where "nqs = gmQueryStartLoc gm (r + 1)"
  define qe where "qe = gmQueryEndLoc gm r"
  have P: "1 \<le> ?P" and q: "qs \<le> qe + 1" "qe < nqs" using batch r by (auto simp: eagle_batch_def qs_def nqs_def qe_def)
  have rd: "ReadQS ub l = qs" "ReadNextQS ub l = nqs" "ReadQE ub l = qe" "ReadNT ub l = gmNextTokenIds gm r"
    using ub l by (auto simp: eagle_loaded_def ReadQS_def ReadNextQS_def ReadQE_def ReadNT_def qs_def nqs_def qe_def)
  define nv where "nv = qe - qs + 1"
  define nr where "nr = nqs - qe - 1"
  have mx: "max 0 (nqs - qe - 1) = nr" "max 0 (qe - qs + 1) = nv" using q by (auto simp: nv_def nr_def)
  define inp where "inp = (if nqs - qs > 0 then DataCopyIn dev (inputBuf ub) (gmTargetTokenIds g) qs (nqs - qs) else inputBuf ub)"
  define pos where "pos = DataCopyIn dev (hsmBuf ub) (gmTargetPositions g) qs 1"
  define ub1 where "ub1 = fill_request kn nv nr (pos 0) (gmNextTokenIds gm r)
     (\<lambda>j. inp (if j \<ge> nqs - qs then nqs - qs - 1 else j)) (ub\<lparr>inputBuf := inp, hsmBuf := pos\<rparr>)"
  have nn: "0 \<le> nv" "0 \<le> nr" using q by (auto simp: nv_def nr_def)
  note fr = fill_request_slots [OF nn P, where sp = "pos 0" and nt = "gmNextTokenIds gm r" and
      tok = "\<lambda>j. inp (if j \<ge> nqs - qs then nqs - qs - 1 else j)" and ub = "ub\<lparr>inputBuf := inp, hsmBuf := pos\<rparr>", folded ub1_def]
  have pos0: "pos 0 = gmTargetPositions gm qs"
    using DataCopyIn_read [OF dev, of 0 1] g by (simp add: pos_def eagle_inputs_same_def)
  have inp: "inp j = gmTargetTokenIds gm (qs + j)" if "0 \<le> j" "j < nqs - qs" for j
    using DataCopyIn_read [OF dev that] that g by (simp add: inp_def eagle_inputs_same_def)
  have fill: "(outIdsBuf ub1 j, outPosBuf ub1 j, outRejBuf ub1 j, outMskBuf ub1 j) = req_slot False kn gm r j"
    if "0 \<le> j" "j < nv + ?P + nr" for j
    unfolding fr(1) [OF that] req_slot_def slot_ref_def req_valid_def
    using inp [of j] that q by (simp add: pos0 qs_def [symmetric] qe_def [symmetric] nv_def)
  obtain g' nti where w: "write_nti dev kn r (qs + r * ?P + nv) (write_request dev (qs + r * ?P) (nv + ?P + nr) ub1 g, ub1) =
       (g', ub1\<lparr>ntiBuf := nti\<rparr>)"
    and fw: "req_frame False kn gm r g g'" "req_written False kn gm g' r"
    using request_written [OF dev P, of nv False gm r "qs + r * ?P" nr ub1 g] nn fill
    unfolding req_written_def by (auto simp: req_valid_def req_start_def qs_def nqs_def qe_def nv_def nr_def algebra_simps)
  have run: "ProcessOneRequestShiftFalse dev kn r l (g, ub) = (g', ub1\<lparr>ntiBuf := nti\<rparr>)"
    unfolding ProcessOneRequestShiftFalse_def Let_def prod.case rd mx inp_def [symmetric] pos_def [symmetric] ub1_def [symmetric]
    by (rule w)
  have "eagle_loaded kn gm (ub1\<lparr>ntiBuf := nti\<rparr>)" using ub fr(2-4) by (simp add: eagle_loaded_def)
  then show ?thesis using run fw by blast
qed


lemma ProcessOneRequestShiftTrue_step:
  assumes dev: "npu_burst dev" and batch: "eagle_batch True kn gm n" and r: "0 \<le> r" "r < n"
    and l: "r = ek_myStartReq kn + l" "0 \<le> l" "l < ek_myNumReqs kn"
    and ub: "eagle_loaded kn gm ub" and g: "eagle_inputs_same gm g"
  shows "\<exists>g' ub'. ProcessOneRequestShiftTrue dev kn r l (g, ub) = (g', ub') \<and> eagle_loaded kn gm ub' \<and>
     req_frame True kn gm r g g' \<and> req_written True kn gm g' r"
proof -
  let ?P = "ek_numPaddingSlotsPerReq kn"
  define qs where "qs = gmQueryStartLoc gm r"
  define nqs where "nqs = gmQueryStartLoc gm (r + 1)"
  define qe where "qe = gmQueryEndLoc gm r"
  have P: "1 \<le> ?P" and q: "qs \<le> qe" "qe < nqs" "nqs \<le> ek_totalInputTokens kn"
    using batch r by (auto simp: eagle_batch_def qs_def nqs_def qe_def)
  have rd: "ReadQS ub l = qs" "ReadNextQS ub l = nqs" "ReadQE ub l = qe" "ReadNT ub l = gmNextTokenIds gm r"
    using ub l by (auto simp: eagle_loaded_def ReadQS_def ReadNextQS_def ReadQE_def ReadNT_def qs_def nqs_def qe_def)
  define nv where "nv = qe - qs"
  define nr where "nr = nqs - qe - 1"
  have mx: "max 0 (nqs - qe - 1) = nr" "max 0 (qe - qs) = nv" using q by (auto simp: nv_def nr_def)
  have rc: "(if qs + 1 + nv > ek_totalInputTokens kn then max 0 (ek_totalInputTokens kn - (qs + 1)) else nv) = nv"
    using q by (simp add: nv_def)
  have ln: "(if nqs = qe \<and> r + 1 < ek_numReqs kn then nv + ?P + nr - 1 else nv + ?P + nr) = nv + ?P + nr" using q by simp
  define inp where "inp = (if nv > 0 then DataCopyIn dev (inputBuf ub) (gmTargetTokenIds g) (qs + 1) nv else inputBuf ub)"
  define pos where "pos = DataCopyIn dev (hsmBuf ub) (gmTargetPositions g) qs 1"
  define ub1 where "ub1 = fill_request kn nv nr (pos 0) (gmNextTokenIds gm r)
     (\<lambda>j. if nv > 0 then inp (if j \<ge> nv then nv - 1 else j) else 0) (ub\<lparr>inputBuf := inp, hsmBuf := pos\<rparr>)"
  have nn: "0 \<le> nv" "0 \<le> nr" using q by (auto simp: nv_def nr_def)
  note fr = fill_request_slots [OF nn P, where sp = "pos 0" and nt = "gmNextTokenIds gm r" and
      tok = "\<lambda>j. if nv > 0 then inp (if j \<ge> nv then nv - 1 else j) else 0" and ub = "ub\<lparr>inputBuf := inp, hsmBuf := pos\<rparr>", folded ub1_def]
  have pos0: "pos 0 = gmTargetPositions gm qs"
    using DataCopyIn_read [OF dev, of 0 1] g by (simp add: pos_def eagle_inputs_same_def)
  have inp: "inp j = gmTargetTokenIds gm (qs + j + 1)" if "0 \<le> j" "j < nv" for j
    using DataCopyIn_read [OF dev that] that g by (simp add: inp_def eagle_inputs_same_def algebra_simps)
  have fill: "(outIdsBuf ub1 j, outPosBuf ub1 j, outRejBuf ub1 j, outMskBuf ub1 j) = req_slot True kn gm r j"
    if "0 \<le> j" "j < nv + ?P + nr" for j
    unfolding fr(1) [OF that] req_slot_def slot_ref_def req_valid_def
    using inp [of j] that q by (simp add: pos0 qs_def [symmetric] qe_def [symmetric] nv_def)
  obtain g' nti where w: "write_nti dev kn r (qs + r * (?P - 1) + nv) (write_request dev (qs + r * (?P - 1)) (nv + ?P + nr) ub1 g, ub1) =
       (g', ub1\<lparr>ntiBuf := nti\<rparr>)"
    and f: "req_frame True kn gm r g g'"
    and hs: "gmOutHiddenStateMapping g' = gmOutHiddenStateMapping g"
    and w1: "\<forall>i. req_start True kn gm r \<le> i \<and> i < req_start True kn gm (r + 1) \<longrightarrow>
        out_slot g' i = req_slot True kn gm r (i - req_start True kn gm r)"
    and w2: "\<forall>k. 0 \<le> k \<and> k < ?P \<longrightarrow> gmOutNewTokenIndices g' (r * ?P + k) = req_start True kn gm r + req_valid True gm r + k"
    using request_written [OF dev P, of nv True gm r "qs + r * (?P - 1)" nr ub1 g] nn fill
    by (auto simp: req_valid_def req_start_def qs_def nqs_def qe_def nv_def nr_def algebra_simps)
  define hsm where "hsm = for_range 0 (nqs - qs) (\<lambda>j b. b(j := qs + r * (?P - 1) + j)) (hsmBuf ub1)"
  have hsm: "hsm j = qs + r * (?P - 1) + j" if "0 \<le> j" "j < nqs - qs" for j
  proof -
    have "for_range 0 (nqs - qs) (\<lambda>j b. b(j := qs + r * (?P - 1) + j)) (hsmBuf ub1) =
      for_range 0 (nqs - qs) (\<lambda>j b. b(0 + j := qs + r * (?P - 1) + j)) (hsmBuf ub1)" by simp
    then show ?thesis unfolding hsm_def for_range_store using that by auto
  qed
  define g2 where "g2 = g'\<lparr>gmOutHiddenStateMapping := DataCopyOut_int32 dev (gmOutHiddenStateMapping g') hsm qs (nqs - qs)\<rparr>"
  have run: "ProcessOneRequestShiftTrue dev kn r l (g, ub) = (g2, ub1\<lparr>ntiBuf := nti, hsmBuf := hsm\<rparr>)"
    unfolding ProcessOneRequestShiftTrue_def Let_def prod.case rd mx rc ln inp_def [symmetric] pos_def [symmetric]
      ub1_def [symmetric] w g2_def hsm_def by simp
  have "req_frame True kn gm r g g2"
    using f DataCopyOut_int32_spec(2) [OF dev] by (simp add: req_frame_def g2_def qs_def eagle_inputs_same_def)
  moreover have "req_written True kn gm g2 r"
    using w1 w2 DataCopyOut_int32_spec(1) [OF dev] hsm
    by (simp add: req_written_def g2_def qs_def nqs_def req_start_def)
  moreover have "eagle_loaded kn gm (ub1\<lparr>ntiBuf := nti, hsmBuf := hsm\<rparr>)" using ub fr(2-4) by (simp add: eagle_loaded_def)
  ultimately show ?thesis using run by blast
qed

section \<open>The requests of a core\<close>

lemma eagle_batch_mono:
  assumes "eagle_batch shift kn gm n" "0 \<le> a" "a \<le> b" "b \<le> n"
  shows "gmQueryStartLoc gm a \<le> gmQueryStartLoc gm b" "req_start shift kn gm a \<le> req_start shift kn gm b"
proof -
  have step: "gmQueryStartLoc gm r \<le> gmQueryStartLoc gm (r + 1)" if "0 \<le> r" "r < n" for r
    using assms(1) that by (force simp: eagle_batch_def split: if_splits)
  have "gmQueryStartLoc gm a \<le> gmQueryStartLoc gm (a + int m)" if "a + int m \<le> n" for m
    using that
  proof (induction m)
    case (Suc m)
    then show ?case using step [of "a + int m"] assms(2) by (simp add: algebra_simps)
  qed simp
  from this [of "nat (b - a)"] show q: "gmQueryStartLoc gm a \<le> gmQueryStartLoc gm b" using assms by simp
  have "a * (ek_numPaddingSlotsPerReq kn - (if shift then 1 else 0)) \<le> b * (ek_numPaddingSlotsPerReq kn - (if shift then 1 else 0))"
    using assms by (intro mult_right_mono) (auto simp: eagle_batch_def)
  then show "req_start shift kn gm a \<le> req_start shift kn gm b" using q by (simp add: req_start_def)
qed

lemma req_written_frame:
  assumes "eagle_batch shift kn gm n" "0 \<le> a" "a < b" "b < n" and w: "req_written shift kn gm g a"
    and f: "req_frame shift kn gm b g g'"
  shows "req_written shift kn gm g' a"
proof -
  note m = eagle_batch_mono [OF assms(1), of "a + 1" b]
  have "a * ek_numPaddingSlotsPerReq kn + k < b * ek_numPaddingSlotsPerReq kn"
    if "k < ek_numPaddingSlotsPerReq kn" for k
    using slot_before [of a b k "ek_numPaddingSlotsPerReq kn"] that assms(1,3) by (auto simp: eagle_batch_def)
  moreover have "req_start shift kn gm (a + 1) \<le> req_start shift kn gm b"
    "gmQueryStartLoc gm (a + 1) \<le> gmQueryStartLoc gm b" using m assms by auto
  ultimately show ?thesis using w f by (simp add: req_written_def req_frame_def)
qed

text \<open>A core that processes its requests in order writes every one of them.\<close>

lemma requests_loop:
  assumes batch: "eagle_batch shift kn gm n" and my: "0 \<le> ek_myStartReq kn" "0 \<le> ek_myNumReqs kn" "ek_myStartReq kn + ek_myNumReqs kn \<le> n"
    and step: "\<And>l g ub. 0 \<le> l \<Longrightarrow> l < ek_myNumReqs kn \<Longrightarrow> eagle_loaded kn gm ub \<Longrightarrow> eagle_inputs_same gm g \<Longrightarrow>
      \<exists>g' ub'. f l (g, ub) = (g', ub') \<and> eagle_loaded kn gm ub' \<and>
        req_frame shift kn gm (ek_myStartReq kn + l) g g' \<and> req_written shift kn gm g' (ek_myStartReq kn + l)"
    and ub: "eagle_loaded kn gm ub"
  shows "\<exists>g' ub'. for_range 0 (ek_myNumReqs kn) f (gm, ub) = (g', ub') \<and> eagle_loaded kn gm ub' \<and> eagle_inputs_same gm g' \<and>
     (\<forall>l. 0 \<le> l \<and> l < ek_myNumReqs kn \<longrightarrow> req_written shift kn gm g' (ek_myStartReq kn + l))"
proof -
  let ?P = "\<lambda>m st. \<exists>g' ub'. st = (g', ub') \<and> eagle_loaded kn gm ub' \<and> eagle_inputs_same gm g' \<and>
     (\<forall>l. 0 \<le> l \<and> l < m \<longrightarrow> req_written shift kn gm g' (ek_myStartReq kn + l))"
  have "?P (ek_myNumReqs kn) (for_range 0 (ek_myNumReqs kn) f (gm, ub))"
  proof (rule for_range_inv [OF my(2), where P = ?P])
    show "?P 0 (gm, ub)" using ub by (auto simp: eagle_inputs_same_def)
  next
    fix m st assume m: "0 \<le> m" "m < ek_myNumReqs kn" and "?P m st"
    then obtain g u where st: "st = (g, u)" "eagle_loaded kn gm u" "eagle_inputs_same gm g"
      and old: "\<And>l. 0 \<le> l \<Longrightarrow> l < m \<Longrightarrow> req_written shift kn gm g (ek_myStartReq kn + l)" by blast
    obtain g' u' where n: "f m (g, u) = (g', u')" "eagle_loaded kn gm u'"
      "req_frame shift kn gm (ek_myStartReq kn + m) g g'" "req_written shift kn gm g' (ek_myStartReq kn + m)"
      using step [OF m st(2,3)] by blast
    have "req_written shift kn gm g' (ek_myStartReq kn + l)" if "0 \<le> l" "l < m + 1" for l
    proof (cases "l = m")
      case False
      then show ?thesis
        using req_written_frame [OF batch _ _ _ old n(3)] that m my by simp
    qed (use n in simp)
    moreover have "eagle_inputs_same gm g'" using st(3) n(3) by (simp add: req_frame_def eagle_inputs_same_def)
    ultimately show "?P (m + 1) (f m st)" using st(1) n by auto
  qed
  then show ?thesis by blast
qed


lemma fill_tail_spec:
  assumes dev: "npu_burst dev" and batch: "eagle_batch True kn gm n"
    and my: "0 \<le> ek_myStartReq kn" "0 < ek_myNumReqs kn" "ek_myStartReq kn + ek_myNumReqs kn = n" "n < U32_LIM"
    and ub: "eagle_loaded kn gm ub"
  shows "\<exists>g' ub'. fill_tail dev kn (g, ub) = (g', ub') \<and> eagle_inputs_same g g' \<and>
     gmOutNewTokenIndices g' = gmOutNewTokenIndices g \<and> gmOutHiddenStateMapping g' = gmOutHiddenStateMapping g \<and>
     (\<forall>i. i < req_start True kn gm n \<longrightarrow> out_slot g' i = out_slot g i) \<and>
     (\<forall>i. req_start True kn gm n \<le> i \<and> i < ek_totalDraftTokens kn \<longrightarrow> out_slot g' i = (0, 0, 0, 0))"
proof -
  let ?P = "ek_numPaddingSlotsPerReq kn"
  define l where "l = ek_myNumReqs kn - 1"
  have u: "u32 (ek_myNumReqs kn - 1) = l" "u32 (l + 1) = l + 1" "u32 (ek_myStartReq kn + l) = n - 1"
    using my by (simp_all add: l_def u32_id)
  have r: "qsBuf ub l = gmQueryStartLoc gm (n - 1)" "qsBuf ub (l + 1) = gmQueryStartLoc gm n" "qeBuf ub l = gmQueryEndLoc gm (n - 1)"
  proof -
    have e: "ek_myStartReq kn + l = n - 1" using my by (simp add: l_def)
    have lb: "0 \<le> l" "l < ek_myNumReqs kn" using my by (simp_all add: l_def)
    show "qsBuf ub l = gmQueryStartLoc gm (n - 1)" "qsBuf ub (l + 1) = gmQueryStartLoc gm n" "qeBuf ub l = gmQueryEndLoc gm (n - 1)"
      using ub lb unfolding eagle_loaded_def by (simp_all add: e)
  qed
  define w where "w = req_start True kn gm n"
  have w: "gmQueryStartLoc gm (n - 1) + (n - 1) * (?P - 1) + (max 0 (gmQueryEndLoc gm (n - 1) - gmQueryStartLoc gm (n - 1)) + ?P +
      max 0 (gmQueryStartLoc gm n - gmQueryEndLoc gm (n - 1) - 1)) = w"
  proof -
    have "n - 1 \<in> {0..<n}" using my by auto
    then have "gmQueryStartLoc gm (n - 1) \<le> gmQueryEndLoc gm (n - 1)" "gmQueryEndLoc gm (n - 1) < gmQueryStartLoc gm (n - 1 + 1)"
      using batch unfolding eagle_batch_def by fastforce+
    then show ?thesis by (simp add: w_def req_start_def algebra_simps)
  qed
  define c where "c = ek_totalDraftTokens kn - w"
  have z: "for_range 0 c (\<lambda>j b. b(j := 0)) b j = 0" if "0 \<le> j" "j < c" for j and b :: tensor
  proof -
    have "for_range 0 c (\<lambda>j b. b(j := 0)) b = for_range 0 c (\<lambda>j b. b(0 + j := 0)) b" by simp
    then show ?thesis unfolding for_range_store using that by simp
  qed
  show ?thesis
  proof (cases "c > 0")
    case True
    then show ?thesis
      unfolding fill_tail_def Let_def prod.case u r w c_def [symmetric] w_def [symmetric]
      using DataCopyOut_int32_spec [OF dev] DataCopyOut_int8_spec [OF dev] z
      by (auto simp: eagle_inputs_same_def out_slot_def c_def)
  next
    case False
    then show ?thesis
      unfolding fill_tail_def Let_def prod.case u r w c_def [symmetric] w_def [symmetric]
      by (auto simp: eagle_inputs_same_def c_def)
  qed
qed

section \<open>The operator\<close>

definition eagle_params :: "int \<Rightarrow> int \<Rightarrow> int \<Rightarrow> int \<Rightarrow> int \<Rightarrow> int \<Rightarrow> eagle_kernel" where
  "eagle_params n pad draft slots total_in total_draft =
     \<lparr>ek_numReqs = n, ek_paddingTokenId = pad, ek_parallelDraftingTokenId = draft, ek_numPaddingSlotsPerReq = slots,
      ek_totalInputTokens = total_in, ek_totalDraftTokens = total_draft, ek_myStartReq = 0, ek_myNumReqs = n\<rparr>"

lemma eagle_Init_single:
  assumes dev: "npu_burst dev" and n: "0 < n" "n < U32_LIM" and b: "0 \<le> slots" "slots < U32_LIM" "0 \<le> ti" "ti < U32_LIM" "0 \<le> td" "td < U32_LIM"
    and t: "eagle_TilingFunc \<lparr>ec_compileInfo = ci, ec_coreNum = cn, ec_queryStartLoc = Some [n + 1],
      ec_attrs = (pad, draft, slots, shift, ti), ec_outShape = Some [td]\<rparr> = (t, dim)"
  shows "dim = 1" "et_usedCoreNum t = 1" "et_shiftInputIds t = (if shift then 1 else 0)"
    "\<exists>ub'. eagle_Init dev t 0 gm ub = (eagle_params n pad draft slots ti td, ub') \<and> eagle_loaded (eagle_params n pad draft slots ti td) gm ub'"
proof -
  have t': "t = \<lparr>et_usedCoreNum = 1, et_numReqs = n, et_reqsPerCore = n, et_remainderReqs = 0, et_paddingTokenId = pad,
      et_parallelDraftingTokenId = draft, et_numPaddingSlotsPerReq = slots, et_totalInputTokens = ti,
      et_shiftInputIds = (if shift then 1 else 0), et_totalDraftTokens = td\<rparr>" "dim = 1"
    using t n b by (auto simp: eagle_TilingFunc_def Let_def u32_id)
  then show "dim = 1" "et_usedCoreNum t = 1" "et_shiftInputIds t = (if shift then 1 else 0)" by auto
  show "\<exists>ub'. eagle_Init dev t 0 gm ub = (eagle_params n pad draft slots ti td, ub') \<and> eagle_loaded (eagle_params n pad draft slots ti td) gm ub'"
    using n DataCopyIn_read [OF dev] by (auto simp: t' eagle_Init_def Let_def eagle_params_def eagle_loaded_def)
qed


lemma req_written_above:
  assumes "eagle_batch shift kn gm n" "0 \<le> r" "r < n" "req_written shift kn gm a r"
    and "\<And>i. i < req_start shift kn gm n \<Longrightarrow> out_slot b i = out_slot a i"
    and "gmOutNewTokenIndices b = gmOutNewTokenIndices a" "gmOutHiddenStateMapping b = gmOutHiddenStateMapping a"
  shows "req_written shift kn gm b r"
proof -
  have "req_start shift kn gm (r + 1) \<le> req_start shift kn gm n"
    using eagle_batch_mono(2) [OF assms(1), of "r + 1" n] assms by simp
  then show ?thesis using assms by (simp add: req_written_def)
qed

text \<open>Clearing the outputs does not change what the inputs ask for.\<close>

lemma req_written_inputs:
  assumes "eagle_inputs_same gm gm0"
  shows "req_written shift kn gm0 b r = req_written shift kn gm b r" "eagle_batch shift kn gm0 n = eagle_batch shift kn gm n"
    "req_start shift kn gm0 r = req_start shift kn gm r"
  using assms
  by (simp_all add: req_written_def eagle_inputs_same_def req_start_def req_valid_def req_slot_def eagle_batch_def)

lemma eagle_operator:
  fixes ubs :: "int \<Rightarrow> eagle_ub" and ci :: "int option" and cn :: int
  assumes dev: "npu_burst dev" and n: "0 < n" "n < U32_LIM"
    and b: "slots < U32_LIM" "0 \<le> ti" "ti < U32_LIM" "0 \<le> td" "td < U32_LIM"
    and batch: "eagle_batch shift (eagle_params n pad draft slots ti td) gm n"
  defines "g' \<equiv> npu_copy_and_expand_eagle_inputs dev ubs ci cn ti n pad draft slots shift td gm"
  shows "\<forall>r \<in> {0..<n}. req_written shift (eagle_params n pad draft slots ti td) gm g' r"
    and "shift \<longrightarrow> (\<forall>i. 0 \<le> i \<and> req_start shift (eagle_params n pad draft slots ti td) gm n \<le> i \<and> i < td \<longrightarrow> out_slot g' i = (0, 0, 0, 0))"
proof -
  let ?kn = "eagle_params n pad draft slots ti td"
  obtain t dim where t: "eagle_TilingFunc \<lparr>ec_compileInfo = ci, ec_coreNum = cn, ec_queryStartLoc = Some [n + 1],
      ec_attrs = (pad, draft, slots, shift, ti), ec_outShape = Some [td]\<rparr> = (t, dim)" by fastforce
  have slots: "0 \<le> slots" using batch by (simp add: eagle_batch_def eagle_params_def)
  define gm0 where "gm0 = gm\<lparr>gmOutInputIds := (\<lambda>_. 0), gmOutPositions := (\<lambda>_. 0), gmOutIsRejectedTokenMask := (\<lambda>_. 0),
     gmOutIsMaskedTokenMask := (\<lambda>_. 0), gmOutNewTokenIndices := (\<lambda>_. 0), gmOutHiddenStateMapping := (\<lambda>_. 0)\<rparr>"
  have same: "eagle_inputs_same gm gm0" by (simp add: eagle_inputs_same_def gm0_def)
  note init = eagle_Init_single [OF dev n slots b t]
  obtain ub1 where i1: "eagle_Init dev t 0 gm0 (ubs 0) = (?kn, ub1)" "eagle_loaded ?kn gm0 ub1" using init(4) by blast
  have batch0: "eagle_batch shift ?kn gm0 n" using batch by (simp add: req_written_inputs [OF same])
  have my: "0 \<le> ek_myStartReq ?kn" "0 \<le> ek_myNumReqs ?kn" "ek_myStartReq ?kn + ek_myNumReqs ?kn \<le> n"
    "ek_myStartReq ?kn = 0" "ek_myNumReqs ?kn = n" "ek_numReqs ?kn = n" "ek_totalDraftTokens ?kn = td"
    using n by (simp_all add: eagle_params_def)
  have out: "g' = fst (if shift then ProcessShiftTrue dev ?kn (gm0, ub1) else ProcessShiftFalse dev ?kn (gm0, ub1))"
    unfolding g'_def npu_copy_and_expand_eagle_inputs_def Let_def t prod.case init(1) gm0_def [symmetric]
    using init(2,3) i1(1) by (simp add: eagle_launch_def copy_and_expand_eagle_inputs_def)
  have "(\<forall>r \<in> {0..<n}. req_written shift ?kn gm0 g' r) \<and>
      (shift \<longrightarrow> (\<forall>i. 0 \<le> i \<and> req_start shift ?kn gm0 n \<le> i \<and> i < td \<longrightarrow> out_slot g' i = (0, 0, 0, 0)))"
  proof (cases shift)
    case False
    have "\<exists>g' ub'. ProcessShiftFalse dev ?kn (gm0, ub1) = (g', ub') \<and> eagle_loaded ?kn gm0 ub' \<and> eagle_inputs_same gm0 g' \<and>
       (\<forall>l. 0 \<le> l \<and> l < ek_myNumReqs ?kn \<longrightarrow> req_written False ?kn gm0 g' (ek_myStartReq ?kn + l))"
      unfolding ProcessShiftFalse_def
    proof (rule requests_loop [OF _ my(1-3) _ i1(2)])
      show "eagle_batch False ?kn gm0 n" using batch0 False by simp
      then show "\<exists>g' ub'. ProcessOneRequestShiftFalse dev ?kn (ek_myStartReq ?kn + l) l (g, ub) = (g', ub') \<and> eagle_loaded ?kn gm0 ub' \<and>
        req_frame False ?kn gm0 (ek_myStartReq ?kn + l) g g' \<and> req_written False ?kn gm0 g' (ek_myStartReq ?kn + l)"
        if "0 \<le> l" "l < ek_myNumReqs ?kn" "eagle_loaded ?kn gm0 ub" "eagle_inputs_same gm0 g" for l g ub
        using ProcessOneRequestShiftFalse_step [OF dev _ _ _ refl that] that my by simp
    qed
    then show ?thesis using out False my(4,5) by auto
  next
    case True
    define st where "st = for_range 0 (ek_myNumReqs ?kn) (\<lambda>l. ProcessOneRequestShiftTrue dev ?kn (ek_myStartReq ?kn + l) l) (gm0, ub1)"
    have bt: "eagle_batch True ?kn gm0 n" using batch0 True by simp
    have "\<exists>g' ub'. st = (g', ub') \<and> eagle_loaded ?kn gm0 ub' \<and> eagle_inputs_same gm0 g' \<and>
       (\<forall>l. 0 \<le> l \<and> l < ek_myNumReqs ?kn \<longrightarrow> req_written True ?kn gm0 g' (ek_myStartReq ?kn + l))"
      unfolding st_def
    proof (rule requests_loop [OF bt my(1-3) _ i1(2)])
      show "\<exists>g' ub'. ProcessOneRequestShiftTrue dev ?kn (ek_myStartReq ?kn + l) l (g, ub) = (g', ub') \<and> eagle_loaded ?kn gm0 ub' \<and>
        req_frame True ?kn gm0 (ek_myStartReq ?kn + l) g g' \<and> req_written True ?kn gm0 g' (ek_myStartReq ?kn + l)"
        if "0 \<le> l" "l < ek_myNumReqs ?kn" "eagle_loaded ?kn gm0 ub" "eagle_inputs_same gm0 g" for l g ub
        using ProcessOneRequestShiftTrue_step [OF dev bt _ _ refl that] that my by simp
    qed
    then obtain g1 ub2 where s: "st = (g1, ub2)" "eagle_loaded ?kn gm0 ub2"
      "\<forall>r \<in> {0..<n}. req_written True ?kn gm0 g1 r" using my(4,5) by auto
    have e: "ProcessShiftTrue dev ?kn (gm0, ub1) = (if td > 0 then fill_tail dev ?kn st else st)"
      using n my by (simp add: ProcessShiftTrue_def st_def Let_def u32_id)
    show ?thesis
    proof (cases "td > 0")
      case t: True
      have m: "0 < ek_myNumReqs ?kn" "ek_myStartReq ?kn + ek_myNumReqs ?kn = n" using n my by auto
      obtain g2 ub3 where f: "fill_tail dev ?kn (g1, ub2) = (g2, ub3)"
        "gmOutNewTokenIndices g2 = gmOutNewTokenIndices g1" "gmOutHiddenStateMapping g2 = gmOutHiddenStateMapping g1"
        "\<And>i. i < req_start True ?kn gm0 n \<Longrightarrow> out_slot g2 i = out_slot g1 i"
        "\<And>i. req_start True ?kn gm0 n \<le> i \<Longrightarrow> i < td \<Longrightarrow> out_slot g2 i = (0, 0, 0, 0)"
        using fill_tail_spec [OF dev bt my(1) m n(2) s(2), of g1] my(7) by auto
      have "req_written True ?kn gm0 g2 r" if "r \<in> {0..<n}" for r
        using req_written_above [OF bt, of r g1 g2] s(3) f that by auto
      then show ?thesis using out e t True s(1) f by simp
    next
      case False
      then show ?thesis using out e True s by auto
    qed
  qed
  then show "\<forall>r \<in> {0..<n}. req_written shift ?kn gm g' r"
    and "shift \<longrightarrow> (\<forall>i. 0 \<le> i \<and> req_start shift ?kn gm n \<le> i \<and> i < td \<longrightarrow> out_slot g' i = (0, 0, 0, 0))"
    by (simp_all add: req_written_inputs [OF same])
qed


end
