(* ===== verification/EagleProperties.thy ===== *)
theory EagleProperties
  imports EagleSpec
begin

text \<open>The properties of the expansion of the draft inputs.\<close>

lemma req_start_ends:
  "req_start shift kn gm 0 = gmQueryStartLoc gm 0"
  "req_start shift kn gm n = gmQueryStartLoc gm n + (ek_numPaddingSlotsPerReq kn - (if shift then 1 else 0)) * n"
  by (simp_all add: req_start_def)

lemma req_segments_cover:
  assumes "eagle_batch shift kn gm n" "0 \<le> n"
    and "req_start shift kn gm 0 \<le> i" "i < req_start shift kn gm n"
  shows "\<exists>r \<in> {0..<n}. req_start shift kn gm r \<le> i \<and> i < req_start shift kn gm (r + 1)"
proof -
  have "\<exists>r \<in> {0..<int m}. req_start shift kn gm r \<le> i \<and> i < req_start shift kn gm (r + 1)"
    if "int m \<le> n" "i < req_start shift kn gm (int m)" for m
    using that
  proof (induction m)
    case (Suc m)
    show ?case
    proof (cases "i < req_start shift kn gm (int m)")
      case True
      then obtain r where "r \<in> {0..<int m}" "req_start shift kn gm r \<le> i \<and> i < req_start shift kn gm (r + 1)"
        using Suc by auto
      then show ?thesis by (intro bexI [of _ r]) auto
    next
      case False
      then show ?thesis using Suc.prems by (intro bexI [of _ "int m"]) (auto simp: add.commute)
    qed
  qed (use assms in simp)
  from this [of "nat n"] show ?thesis using assms by simp
qed


definition eagle_example :: eagle_gm where
  "eagle_example = \<lparr>gmTargetTokenIds = tensor_of [11, 12, 13, 21, 22], gmTargetPositions = tensor_of [5, 6, 7, 0, 1],
     gmNextTokenIds = tensor_of [90, 91], gmQueryStartLoc = tensor_of [0, 3, 5], gmQueryEndLoc = tensor_of [1, 4],
     gmOutInputIds = (\<lambda>_. 0), gmOutPositions = (\<lambda>_. 0), gmOutIsRejectedTokenMask = (\<lambda>_. 0),
     gmOutIsMaskedTokenMask = (\<lambda>_. 0), gmOutNewTokenIndices = (\<lambda>_. 0), gmOutHiddenStateMapping = (\<lambda>_. 0)\<rparr>"

definition eagle_ub0 :: eagle_ub where
  "eagle_ub0 = \<lparr>qsBuf = (\<lambda>_. 0), qeBuf = (\<lambda>_. 0), ntBuf = (\<lambda>_. 0), inputBuf = (\<lambda>_. 0), outIdsBuf = (\<lambda>_. 0),
     outPosBuf = (\<lambda>_. 0), outRejBuf = (\<lambda>_. 0), outMskBuf = (\<lambda>_. 0), ntiBuf = (\<lambda>_. 0), hsmBuf = (\<lambda>_. 0)\<rparr>"

lemma eagle_example_batch: "eagle_batch shift (eagle_params 2 (- 1) 7 2 5 td) eagle_example 2"
proof -
  have "{0..<2} = {0, 1::int}" by auto
  then show ?thesis by (simp add: eagle_batch_def eagle_params_def eagle_example_def tensor_of_def)
qed


text \<open>
  C26. The segments of the requests are exactly the outputs of the inferred shape: when the input tokens are
  the whole range of the query locations, every index below the inferred number of draft tokens lies in the
  segment of one request, and no segment reaches beyond it.
\<close>

theorem eagle_segments_exact:
  assumes "InferShape4CopyAndExpandEagleInputs c = Some (GRAPH_SUCCESS dims)"
    and "es_targetTokenIds c = Some [ti]" "es_queryStartLoc c = Some [n + 1]" "es_attrs c = Some (ek_numPaddingSlotsPerReq kn, shift)"
    and "eagle_batch shift kn gm n" "0 \<le> n" "gmQueryStartLoc gm 0 = 0" "gmQueryStartLoc gm n = ti"
  shows "{0..<hd dims} = (\<Union>r \<in> {0..<n}. {req_start shift kn gm r ..< req_start shift kn gm (r + 1)}) \<and>
    (\<forall>r \<in> {0..<n}. \<forall>q \<in> {0..<n}. r < q \<longrightarrow> req_start shift kn gm (r + 1) \<le> req_start shift kn gm q)"
proof -
  have "hd dims = req_start shift kn gm n"
    using assms by (auto simp: InferShape4CopyAndExpandEagleInputs_def vget_def req_start_ends Let_def split: if_splits)
  moreover have "req_start shift kn gm 0 = 0" using assms by (simp add: req_start_ends)
  moreover have "req_start shift kn gm a \<le> req_start shift kn gm b" if "0 \<le> a" "a \<le> b" "b \<le> n" for a b
    using eagle_batch_mono(2) [OF assms(5) that] .
  ultimately have e: "hd dims = req_start shift kn gm n" "req_start shift kn gm 0 = 0"
    and mono: "\<And>a b. 0 \<le> a \<Longrightarrow> a \<le> b \<Longrightarrow> b \<le> n \<Longrightarrow> req_start shift kn gm a \<le> req_start shift kn gm b" by blast+
  have "i \<in> (\<Union>r \<in> {0..<n}. {req_start shift kn gm r ..< req_start shift kn gm (r + 1)})" if "i \<in> {0..<hd dims}" for i
    using req_segments_cover [OF assms(5,6), of i] that e by auto
  moreover have "i \<in> {0..<hd dims}" if "r \<in> {0..<n}" "i \<in> {req_start shift kn gm r ..< req_start shift kn gm (r + 1)}" for i r
    using mono [of 0 r] mono [of "r + 1" n] that e by auto
  moreover have "req_start shift kn gm (r + 1) \<le> req_start shift kn gm q" if "r \<in> {0..<n}" "q \<in> {0..<n}" "r < q" for r q
    using mono [of "r + 1" q] that by auto
  ultimately show ?thesis by blast
qed

theorem eagle_segments_exact_witness:
  "{0..<7::int} = (\<Union>r \<in> {0..<2}. {req_start True (eagle_params 2 (- 1) 7 2 5 7) eagle_example r ..<
      req_start True (eagle_params 2 (- 1) 7 2 5 7) eagle_example (r + 1)})"
  using eagle_segments_exact [of "\<lparr>es_targetTokenIds = Some [5], es_queryStartLoc = Some [3], es_attrs = Some (2, True),
      es_outputs = replicate 6 True\<rparr>" "[7, 7, 7, 7, 4, 5]" 5 2 "eagle_params 2 (- 1) 7 2 5 7" True eagle_example]
    eagle_example_batch [of True 7]
  by (simp add: InferShape4CopyAndExpandEagleInputs_def vget_def eagle_params_def eagle_example_def tensor_of_def numeral_nat upt_rec)

text \<open>
  With shifted input ids, the slots behind the last request up to the requested number of draft tokens are
  zero in all four token outputs.
\<close>

theorem eagle_tail_zero:
  assumes "npu_burst dev" "0 < n" "n < U32_LIM" "slots < U32_LIM" "0 \<le> ti" "ti < U32_LIM" "0 \<le> td" "td < U32_LIM"
    "eagle_batch True (eagle_params n pad draft slots ti td) gm n"
    "req_start True (eagle_params n pad draft slots ti td) gm n \<le> i" "0 \<le> i" "i < td"
  shows "out_slot (npu_copy_and_expand_eagle_inputs dev ubs ci cn ti n pad draft slots True td gm) i = (0, 0, 0, 0)"
  using eagle_operator(2) [OF assms(1-9)] assms(10-12) by blast

theorem eagle_tail_zero_witness:
  "out_slot (npu_copy_and_expand_eagle_inputs (burst_npu 9) (\<lambda>_. eagle_ub0) None 8 5 2 (- 1) 7 2 True 10 eagle_example) 8 = (0, 0, 0, 0)"
  using eagle_tail_zero [of "burst_npu 9" 2 2 5 10 "- 1" 7 eagle_example 8 "\<lambda>_. eagle_ub0" None 8]
    burst.npu_burst_axioms [of 9] eagle_example_batch [of True 10]
  by (simp add: req_start_def eagle_params_def eagle_example_def tensor_of_def)

definition eagle_two_cores :: eagle_tiling where
  "eagle_two_cores = \<lparr>et_usedCoreNum = 2, et_numReqs = 2, et_reqsPerCore = 1, et_remainderReqs = 0, et_paddingTokenId = - 1,
     et_parallelDraftingTokenId = 7, et_numPaddingSlotsPerReq = 2, et_totalInputTokens = 5, et_shiftInputIds = 0, et_totalDraftTokens = 9\<rparr>"

lemma ProcessOneRequestShiftFalse_ids:
  "\<exists>buf. gmOutInputIds (fst (ProcessOneRequestShiftFalse dev kn r l (g, ub))) =
     DataCopyOut_int32 dev (gmOutInputIds g) buf (ReadQS ub l + r * ek_numPaddingSlotsPerReq kn)
       (max 0 (ReadQE ub l - ReadQS ub l + 1) + ek_numPaddingSlotsPerReq kn + max 0 (ReadNextQS ub l - ReadQE ub l - 1))"
  by (auto simp: ProcessOneRequestShiftFalse_def Let_def write_nti_def write_request_def)

lemma eagle_core0:
  assumes "eagle_inputs_same eagle_example g"
  shows "gmOutInputIds (fst (copy_and_expand_eagle_inputs (burst_npu 99) eagle_two_cores 0 (g, eagle_ub0))) 5 = 99"
proof -
  obtain kn ub where init: "eagle_Init (burst_npu 99) eagle_two_cores 0 g eagle_ub0 = (kn, ub)" by fastforce
  have kn: "ek_myNumReqs kn = 1" "ek_myStartReq kn = 0" "ek_numPaddingSlotsPerReq kn = 2"
    and ub': "ub = eagle_ub0\<lparr>qsBuf := DataCopyIn (burst_npu 99) (\<lambda>_. 0) (gmQueryStartLoc g) 0 2,
      qeBuf := DataCopyIn (burst_npu 99) (\<lambda>_. 0) (gmQueryEndLoc g) 0 1, ntBuf := DataCopyIn (burst_npu 99) (\<lambda>_. 0) (gmNextTokenIds g) 0 1\<rparr>"
    using init by (auto simp: eagle_Init_def eagle_two_cores_def Let_def eagle_ub0_def u32_def)
  have ub: "qsBuf ub 0 = 0" "qsBuf ub 1 = 3" "qeBuf ub 0 = 1"
    using assms unfolding ub' eagle_inputs_same_def
    by (simp_all add: DataCopyIn_read [OF burst.npu_burst_axioms] eagle_example_def tensor_of_def)
  have run: "copy_and_expand_eagle_inputs (burst_npu 99) eagle_two_cores 0 (g, eagle_ub0) =
      ProcessOneRequestShiftFalse (burst_npu 99) kn 0 0 (g, ub)"
    using init kn by (simp add: copy_and_expand_eagle_inputs_def eagle_two_cores_def ProcessShiftFalse_def for_range_step)
  show ?thesis
    unfolding run
    using ProcessOneRequestShiftFalse_ids [of "burst_npu 99" kn 0 0 g ub] kn ub
    by (auto simp: ReadQS_def ReadQE_def ReadNextQS_def DataCopyOut_int32_def burst_npu_def gm_store_burst_def)
qed

lemma copy_and_expand_inputs_same:
  "eagle_inputs_same g (fst (copy_and_expand_eagle_inputs dev eagle_two_cores b (g, ub)))"
proof -
  have step: "eagle_inputs_same g (fst (ProcessOneRequestShiftFalse dev kn r l (h, u)))" if "eagle_inputs_same g h" for kn r l h u
    using that by (auto simp: ProcessOneRequestShiftFalse_def Let_def write_nti_def write_request_def eagle_inputs_same_def)
  have "eagle_inputs_same g (fst (ProcessShiftFalse dev kn (g, u)))" for kn u
  proof (cases "0 \<le> ek_myNumReqs kn")
    case True
    show ?thesis
      unfolding ProcessShiftFalse_def
      by (rule for_range_inv [OF True, where P = "\<lambda>_ st. eagle_inputs_same g (fst st)"])
         (use step in \<open>auto simp: eagle_inputs_same_def\<close>)
  qed (simp add: ProcessShiftFalse_def eagle_inputs_same_def)
  then show ?thesis
    by (auto simp: copy_and_expand_eagle_inputs_def eagle_two_cores_def eagle_inputs_same_def split: prod.splits)
qed

text \<open>
  Sharing the requests between two cores would not be safe on such a device: with the two requests of the
  example on two cores, the core of the first request finishing last, its spill destroys the first slot of
  the second request. This is the reason the tiling function gives for using one core.
\<close>

theorem eagle_two_cores_unsafe:
  "gmOutInputIds (eagle_launch (burst_npu 99) eagle_two_cores [1, 0] (\<lambda>_. eagle_ub0) eagle_example) 5 = 99 \<and>
   req_start False (eagle_params 2 (- 1) 7 2 5 9) eagle_example 1 = 5 \<and>
   fst (req_slot False (eagle_params 2 (- 1) 7 2 5 9) eagle_example 1 0) = 21"
proof -
  have "eagle_inputs_same eagle_example (fst (copy_and_expand_eagle_inputs (burst_npu 99) eagle_two_cores 1 (eagle_example, eagle_ub0)))"
    by (rule copy_and_expand_inputs_same)
  then show ?thesis
    using eagle_core0
    by (simp add: eagle_launch_def req_start_def req_slot_def slot_ref_def req_valid_def eagle_params_def eagle_example_def tensor_of_def)
qed

end
