(* ===== verification/Ngram.thy ===== *)
theory Ngram
  imports Device
begin

text \<open>
  N-gram speculative decoding (\<^verbatim>\<open>csrc/attention/ngram_spec_decode\<close>): the host tiling function
  and the vector-core kernel \<open>KernelNgramSpecDecode\<close>. The kernel takes the intrinsics as its
  argument \<open>dev\<close>; its class members are the record \<open>ngram_kernel\<close>, the GM tensors the record
  \<open>ngram_gm\<close>, the UB buffers the record \<open>ngram_ub\<close>.
\<close>

section \<open>Tiling data and the host tiling function\<close>

record ngram_info =
  ni_batchSize :: int
  ni_maxSeqLen :: int
  ni_maxNewTokens :: int
  ni_vocabSize :: int
  ni_minN :: int
  ni_maxN :: int
  ni_k :: int
  ni_formerNum :: int
  ni_rowsPerCore :: int
  ni_tailRows :: int
  ni_blockRows :: int

text \<open>
  What the tiling function reads from its context: whether the tiling data buffer exists, the four
  attributes (each pointer may be null), the shapes of the inputs \<open>token_ids\<close> and
  \<open>sampled\<close>, the number of vector cores and the UB size in bytes.
\<close>

record ngram_context =
  nc_tilingData :: bool
  nc_attrs :: "(int option \<times> int option \<times> int option \<times> int option) option"
  nc_tokenIdsShape :: "int list option"
  nc_sampledShape :: "int list option"
  nc_aivNum :: int
  nc_ubSize :: int

definition ngram_tile ::
  "int \<Rightarrow> int \<Rightarrow> int \<Rightarrow> int \<Rightarrow> int \<Rightarrow> int \<Rightarrow> int \<Rightarrow> int \<Rightarrow> int \<Rightarrow> (ngram_info \<times> int) option" where
  "ngram_tile vocab_size min_n max_n k batch_size max_seq_len max_new_tokens aivNum ubSize =
     (let align_elems = 8;
          max_seq_len_align = tdiv (max_seq_len + align_elems - 1) align_elems * align_elems;
          max_new_tokens_align = tdiv (max_new_tokens + align_elems - 1) align_elems * align_elems;
          k_align = tdiv (k + align_elems - 1) align_elems * align_elems;
          ub_per_row = (max_seq_len_align + max_new_tokens_align + k_align) * 4;
          ub_overhead = 4 * 32 + max_n * 4 + tdiv (max_seq_len_align + 7) 8;
          ub_available = ubSize - ub_overhead
      in do {
        max_block_rows \<leftarrow> (if ub_available > 0 then cdiv ub_available ub_per_row else Some 1);
        let max_block_rows = max max_block_rows 1;
        let block_dim = min batch_size aivNum;
        rows_per_core \<leftarrow> (if block_dim > 0 then cdiv batch_size block_dim else Some 0);
        let former_num = (if block_dim > 0 then block_dim - 1 else 0);
        let tail_rows = batch_size - former_num * rows_per_core;
        let block_rows = min rows_per_core max_block_rows;
        Some (\<lparr>ni_batchSize = u32 batch_size, ni_maxSeqLen = u32 max_seq_len,
               ni_maxNewTokens = u32 max_new_tokens, ni_vocabSize = u32 vocab_size,
               ni_minN = u32 min_n, ni_maxN = u32 max_n, ni_k = u32 k,
               ni_formerNum = u32 former_num, ni_rowsPerCore = u32 rows_per_core,
               ni_tailRows = u32 tail_rows, ni_blockRows = u32 block_rows\<rparr>, u32 block_dim) })"

definition NgramSpecDecodeTilingFunc :: "ngram_context \<Rightarrow> (ngram_info \<times> int) graph_status option" where
  "NgramSpecDecodeTilingFunc c =
     (if \<not> nc_tilingData c then Some GRAPH_FAILED
      else case nc_attrs c of None \<Rightarrow> Some GRAPH_FAILED
      | Some (vocabSizePtr, minNPtr, maxNPtr, kPtr) \<Rightarrow>
        (case vocabSizePtr of None \<Rightarrow> Some GRAPH_FAILED | Some vocab_size \<Rightarrow>
        (case minNPtr of None \<Rightarrow> Some GRAPH_FAILED | Some min_n \<Rightarrow>
        (case maxNPtr of None \<Rightarrow> Some GRAPH_FAILED | Some max_n \<Rightarrow>
        (case kPtr of None \<Rightarrow> Some GRAPH_FAILED | Some k \<Rightarrow>
        (case nc_tokenIdsShape c of None \<Rightarrow> Some GRAPH_FAILED | Some tokenIdsShape \<Rightarrow>
        (case nc_sampledShape c of None \<Rightarrow> Some GRAPH_FAILED | Some sampledShape \<Rightarrow>
          do {
            batch_size \<leftarrow> vget tokenIdsShape 0;
            max_seq_len \<leftarrow> vget tokenIdsShape 1;
            max_new_tokens \<leftarrow> vget sampledShape 1;
            r \<leftarrow> ngram_tile vocab_size min_n max_n k batch_size max_seq_len max_new_tokens
                  (nc_aivNum c) (nc_ubSize c);
            Some (GRAPH_SUCCESS r) })))))))"

section \<open>The kernel's members\<close>

record ngram_kernel =
  batch_size :: int
  max_seq_len :: int
  max_seq_len_align :: int
  max_new_tokens :: int
  max_new_tokens_align :: int
  k_val :: int
  k_align :: int
  vocab_size_val :: int
  min_n_val :: int
  max_n_val :: int
  former_num :: int
  rows_per_core :: int
  tail_rows :: int
  block_rows :: int
  my_rows :: int
  row_offset :: int
  is_large_row :: bool

abbreviation SAFE_CHUNK :: int where
  "SAFE_CHUNK \<equiv> 32768"

definition ngram_Init :: "ngram_info \<Rightarrow> int \<Rightarrow> ngram_kernel" where
  "ngram_Init t blockIdx =
     (let align_elems = 8;
          msl = i32 (ni_maxSeqLen t);
          mnt = i32 (ni_maxNewTokens t);
          kv = i32 (ni_k t);
          fnum = i32 (ni_formerNum t);
          rpc = i32 (ni_rowsPerCore t);
          tr = i32 (ni_tailRows t);
          msa = tdiv (msl + align_elems - 1) align_elems * align_elems;
          former = (blockIdx < u32 fnum)
      in \<lparr>batch_size = i32 (ni_batchSize t),
          max_seq_len = msl,
          max_seq_len_align = msa,
          max_new_tokens = mnt,
          max_new_tokens_align = tdiv (mnt + align_elems - 1) align_elems * align_elems,
          k_val = kv,
          k_align = tdiv (kv + align_elems - 1) align_elems * align_elems,
          vocab_size_val = i32 (ni_vocabSize t),
          min_n_val = i32 (ni_minN t),
          max_n_val = i32 (ni_maxN t),
          former_num = fnum,
          rows_per_core = rpc,
          tail_rows = tr,
          block_rows = i32 (ni_blockRows t),
          my_rows = (if former then u32 rpc else u32 tr),
          row_offset = (if former then u32 (u32 rpc * blockIdx) else u32 (u32 rpc * u32 fnum)),
          is_large_row = (msa > SAFE_CHUNK)\<rparr>)"

text \<open>The UB buffers \<open>Init\<close> asks the pipe for, in bytes, in the order of its calls.\<close>

definition ngram_InitBuffer :: "ngram_kernel \<Rightarrow> int list" where
  "ngram_InitBuffer kn =
     (let br = u32 (block_rows kn);
          br_align = (br * 4 + 31) div 32 * 32 div 4;
          tokenTileBytes =
            (if \<not> is_large_row kn then br * u32 (max_seq_len_align kn) * 4
             else (let chunk_ub = SAFE_CHUNK + u32 (max_n_val kn) in (chunk_ub + 7) div 8 * 8 * 4));
          mask_bytes = (SAFE_CHUNK + 7) div 8
      in [tokenTileBytes, mask_bytes, br * u32 (max_new_tokens_align kn) * 4,
          br_align * 4, br_align * 4, br_align * 4, br * u32 (k_align kn) * 4, br_align * 4,
          u32 (max_n_val kn) * 4])"

record ngram_gm =
  tokenGm :: tensor
  numTokensGm :: tensor
  sampledGm :: tensor
  discardGm :: tensor
  nextTokensGm :: tensor
  draftTokensGm :: tensor
  numValidGm :: tensor

record ngram_ub =
  tokenLocal :: tensor
  sampledLocal :: tensor
  numTokensLocal :: tensor
  discardLocal :: tensor
  nextLocal :: tensor
  draftLocal :: tensor
  numValidLocal :: tensor
  suffixLocal :: tensor
  maskLocal :: tensor

section \<open>Stages shared by the two row paths\<close>

text \<open>
  Filtering of the sampled tokens: entries of a discarded request and invalid entries become
  \<open>-1\<close>, the others are counted. The result is the row's buffer and the count.
\<close>

definition filter_sampled :: "ngram_kernel \<Rightarrow> int \<Rightarrow> int \<Rightarrow> tensor \<Rightarrow> tensor \<times> int" where
  "filter_sampled kn discard base sampled =
     for_range 0 (max_new_tokens kn)
       (\<lambda>j (sl, valid_count).
          let val = sl (base + j) in
          if discard \<noteq> 0 then (sl(base + j := - 1), valid_count)
          else if val \<noteq> - 1 \<and> val < vocab_size_val kn then (sl, valid_count + 1)
          else (sl(base + j := - 1), valid_count))
       (sampled, 0)"

definition clamp_valid :: "ngram_kernel \<Rightarrow> int \<Rightarrow> int \<Rightarrow> int" where
  "clamp_valid kn seq_len valid_count =
     (let avail_space = max_seq_len kn - seq_len;
          avail_space = (if avail_space < 0 then 0 else avail_space)
      in if valid_count > avail_space then avail_space else valid_count)"

text \<open>The number of leading draft tokens that are not the filler \<open>-1\<close>.\<close>

fun count_run :: "nat \<Rightarrow> tensor \<Rightarrow> int \<Rightarrow> int" where
  "count_run 0 d i = 0"
| "count_run (Suc n) d i = (if d i \<noteq> - 1 then 1 + count_run n d (i + 1) else 0)"

section \<open>Rows that fit the buffer\<close>

text \<open>
  The search on a core that holds one row at a time: the first token of the suffix is compared with
  up to 8192 positions by the vector unit, and the candidates of the mask are checked one by one.
  The state of the loops is the mask, the best position and its n-gram length.
\<close>

definition single_chunk ::
  "ascendc \<Rightarrow> ngram_kernel \<Rightarrow> tensor \<Rightarrow> int \<Rightarrow> int \<Rightarrow> int \<Rightarrow> tensor \<times> int \<times> int \<Rightarrow> (tensor \<times> int \<times> int) \<times> bool" where
  "single_chunk dev kn tok nt ngram_len cmp_off st =
     (case st of (mk, best_pos, best_len) \<Rightarrow>
      let wc = nt - ngram_len;
          suffix0 = tok (nt - ngram_len);
          remaining = wc - cmp_off;
          elements = (if remaining \<ge> 8192 then 8192 else remaining);
          count_aligned = (elements + 63) div 64 * 64;
          buf_avail = max_seq_len_align kn - cmp_off;
          count_aligned = (if count_aligned > buf_avail then buf_avail div 64 * 64 else count_aligned);
          all_match = (\<lambda>p. \<forall>s \<in> set [1..ngram_len - 1]. tok (cmp_off + p + s) = tok (nt - ngram_len + s));
          mk' = (if count_aligned = 0 then mk else compare_eq dev mk tok cmp_off suffix0 count_aligned);
          hit = (if count_aligned = 0
                 then find_range 0 elements (\<lambda>p. tok (cmp_off + p) = suffix0 \<and> all_match p)
                 else find_range 0 elements (\<lambda>p. mask_bit mk' p \<and> all_match p));
          st' = (case hit of Some p \<Rightarrow> (mk', cmp_off + p, ngram_len) | None \<Rightarrow> (mk', best_pos, best_len))
      in (st', fst (snd st') \<ge> 0))"

function search_single ::
  "ascendc \<Rightarrow> ngram_kernel \<Rightarrow> tensor \<Rightarrow> int \<Rightarrow> int \<Rightarrow> tensor \<times> int \<times> int \<Rightarrow> tensor \<times> int \<times> int" where
  "search_single dev kn tok nt ngram_len st =
     (if ngram_len \<le> max_n_val kn \<and> \<not> ngram_len > nt \<and> \<not> nt - ngram_len \<le> 0
      then search_single dev kn tok nt (ngram_len + 1)
             (for_step_break 8192 (nt - ngram_len) (single_chunk dev kn tok nt ngram_len) 0 st)
      else st)"
  by pat_completeness auto
termination
  by (relation "measure (\<lambda>(dev, kn, tok, nt, ngram_len, st). nat (max_n_val kn + 1 - ngram_len))") auto

text \<open>
  The search on a core that holds several rows: the suffix is copied to its own buffer and compared
  position by position. The state is the suffix buffer, the best position and its length.
\<close>

function search_multi ::
  "ngram_kernel \<Rightarrow> tensor \<Rightarrow> int \<Rightarrow> int \<Rightarrow> int \<Rightarrow> tensor \<times> int \<times> int \<Rightarrow> tensor \<times> int \<times> int" where
  "search_multi kn tok row_base nt ngram_len st =
     (if ngram_len \<le> max_n_val kn \<and> \<not> ngram_len > nt
      then (case st of (suffix, best_pos, best_len) \<Rightarrow>
        let suffix' = for_range 0 ngram_len (\<lambda>s sx. sx(s := tok (row_base + nt - ngram_len + s))) suffix;
            max_pos = nt - ngram_len - 1;
            hit = find_range 0 (max_pos + 1)
                    (\<lambda>pos. \<forall>s \<in> set [0..ngram_len - 1]. tok (row_base + pos + s) = suffix' s)
        in search_multi kn tok row_base nt (ngram_len + 1)
             (case hit of Some pos \<Rightarrow> (suffix', pos, ngram_len) | None \<Rightarrow> (suffix', best_pos, best_len)))
      else st)"
  by pat_completeness auto
termination
  by (relation "measure (\<lambda>(kn, tok, row_base, nt, ngram_len, st). nat (max_n_val kn + 1 - ngram_len))") auto

declare search_single.simps [simp del] search_multi.simps [simp del]

definition fill_draft :: "ngram_kernel \<Rightarrow> tensor \<Rightarrow> int \<Rightarrow> int \<Rightarrow> int \<Rightarrow> int \<Rightarrow> int \<Rightarrow> tensor \<Rightarrow> tensor" where
  "fill_draft kn tok row_base dbase nt best_pos best_len draft =
     (if best_pos \<ge> 0
      then (let draft_start = best_pos + best_len; tokens_available = nt - draft_start in
        for_range 0 (k_val kn)
          (\<lambda>j d. d(dbase + j := (if j < tokens_available then tok (row_base + draft_start + j) else - 1))) draft)
      else for_range 0 (k_val kn) (\<lambda>j d. d(dbase + j := - 1)) draft)"

definition ComputeOneRow :: "ascendc \<Rightarrow> ngram_kernel \<Rightarrow> int \<Rightarrow> ngram_ub \<Rightarrow> ngram_ub" where
  "ComputeOneRow dev kn idx ub =
     (let msa = max_seq_len_align kn;
          mnta = max_new_tokens_align kn;
          ka = k_align kn;
          seq_len = numTokensLocal ub idx;
          discard = discardLocal ub idx;
          backup_pos = (if seq_len > 0 then seq_len - 1 else 0);
          backup_token = tokenLocal ub (idx * msa + backup_pos);
          (sl, count) = filter_sampled kn discard (idx * mnta) (sampledLocal ub);
          valid_count = clamp_valid kn seq_len count;
          next = (if valid_count > 0 then sl (idx * mnta + valid_count - 1) else backup_token);
          num_tokens_tmp = seq_len + valid_count;
          tok = for_range 0 valid_count
                  (\<lambda>j t. t(idx * msa + seq_len + j := sl (idx * mnta + j))) (tokenLocal ub);
          (sx, mk, best_pos, best_len) =
            (if valid_count > 0 \<and> num_tokens_tmp \<ge> min_n_val kn
             then (if block_rows kn \<le> 1
                   then (suffixLocal ub,
                         search_single dev kn tok num_tokens_tmp (min_n_val kn) (maskLocal ub, - 1, 0))
                   else (case search_multi kn tok (idx * msa) num_tokens_tmp (min_n_val kn)
                                (suffixLocal ub, - 1, 0) of
                         (sx, bp, bl) \<Rightarrow> (sx, maskLocal ub, bp, bl)))
             else (suffixLocal ub, maskLocal ub, - 1, 0));
          draft = fill_draft kn tok (idx * msa) (idx * ka) num_tokens_tmp best_pos best_len (draftLocal ub);
          valid_draft_count = count_run (nat (k_val kn)) draft (idx * ka)
      in ub\<lparr>tokenLocal := tok, sampledLocal := sl, nextLocal := (nextLocal ub)(idx := next),
            draftLocal := draft, numValidLocal := (numValidLocal ub)(idx := valid_draft_count),
            suffixLocal := sx, maskLocal := mk\<rparr>)"

definition ngram_Compute :: "ascendc \<Rightarrow> ngram_kernel \<Rightarrow> int \<Rightarrow> ngram_ub \<Rightarrow> ngram_ub" where
  "ngram_Compute dev kn rows ub = for_range 0 rows (ComputeOneRow dev kn) ub"

definition copy_row_in :: "ascendc \<Rightarrow> ngram_kernel \<Rightarrow> tensor \<Rightarrow> int \<Rightarrow> int \<Rightarrow> tensor \<Rightarrow> tensor" where
  "copy_row_in dev kn gm gmRow ubRow loc =
     (let msl = max_seq_len kn in
      for_step 8192 msl
        (\<lambda>off l. let chunk = (if off + 8192 \<le> msl then 8192 else msl - off)
                 in copy_in dev l (ubRow + off) gm (gmRow + off) chunk) 0 loc)"

definition ngram_CopyIn :: "ascendc \<Rightarrow> ngram_kernel \<Rightarrow> ngram_gm \<Rightarrow> int \<Rightarrow> int \<Rightarrow> ngram_ub \<Rightarrow> ngram_ub" where
  "ngram_CopyIn dev kn gm start_row rows ub =
     (let msa = max_seq_len_align kn; mnta = max_new_tokens_align kn;
          msl = max_seq_len kn; mnt = max_new_tokens kn
      in ub\<lparr>tokenLocal := for_range 0 rows
              (\<lambda>r. copy_row_in dev kn (tokenGm gm) ((start_row + r) * msl) (r * msa)) (tokenLocal ub),
            sampledLocal := for_range 0 rows
              (\<lambda>r l. copy_in dev l (r * mnta) (sampledGm gm) ((start_row + r) * mnt) mnt) (sampledLocal ub),
            numTokensLocal := copy_in dev (numTokensLocal ub) 0 (numTokensGm gm) start_row rows,
            discardLocal := copy_in dev (discardLocal ub) 0 (discardGm gm) start_row rows\<rparr>)"

definition copy_row_out :: "ascendc \<Rightarrow> ngram_kernel \<Rightarrow> tensor \<Rightarrow> int \<Rightarrow> int \<Rightarrow> tensor \<Rightarrow> tensor" where
  "copy_row_out dev kn loc gmRow ubRow gm =
     (let msl = max_seq_len kn in
      for_step 8192 msl
        (\<lambda>off g. let chunk = (if off + 8192 \<le> msl then 8192 else msl - off)
                 in copy_out dev g (gmRow + off) loc (ubRow + off) chunk) 0 gm)"

definition ngram_CopyOut :: "ascendc \<Rightarrow> ngram_kernel \<Rightarrow> ngram_ub \<Rightarrow> int \<Rightarrow> int \<Rightarrow> ngram_gm \<Rightarrow> ngram_gm" where
  "ngram_CopyOut dev kn ub start_row rows gm =
     (let msa = max_seq_len_align kn; msl = max_seq_len kn
      in gm\<lparr>tokenGm := for_range 0 rows
              (\<lambda>r. copy_row_out dev kn (tokenLocal ub) ((start_row + r) * msl) (r * msa)) (tokenGm gm),
            nextTokensGm := copy_out dev (nextTokensGm gm) start_row (nextLocal ub) 0 rows,
            draftTokensGm := for_range 0 rows
              (\<lambda>r g. copy_out dev g ((start_row + r) * k_val kn) (draftLocal ub) (r * k_align kn) (k_val kn))
              (draftTokensGm gm),
            numValidGm := copy_out dev (numValidGm gm) start_row (numValidLocal ub) 0 rows\<rparr>)"

section \<open>Rows longer than the buffer\<close>

definition LoadGmElements :: "ascendc \<Rightarrow> ngram_gm \<Rightarrow> int \<Rightarrow> int \<Rightarrow> tensor \<Rightarrow> tensor" where
  "LoadGmElements dev gm gm_offset count tok =
     (if count \<le> 0 then tok else copy_in dev tok 0 (tokenGm gm) gm_offset count)"

definition StoreGmElements :: "ascendc \<Rightarrow> tensor \<Rightarrow> int \<Rightarrow> int \<Rightarrow> ngram_gm \<Rightarrow> ngram_gm" where
  "StoreGmElements dev tok gm_offset count gm =
     (if count \<le> 0 then gm
      else gm\<lparr>tokenGm := for_step 16383 count
                (\<lambda>off g. let chunk = (if off + 16383 \<le> count then 16383 else count - off)
                         in copy_out dev g (gm_offset + off) tok off chunk) 0 (tokenGm gm)\<rparr>)"

text \<open>
  One comparison of a loaded chunk, and the loop over the comparisons of a chunk. A hit is a
  position relative to the start of the chunk.
\<close>

definition chunk_compare ::
  "ascendc \<Rightarrow> tensor \<Rightarrow> tensor \<Rightarrow> int \<Rightarrow> int \<Rightarrow> int \<Rightarrow> int \<Rightarrow> int \<Rightarrow> int \<Rightarrow> tensor \<times> int option \<Rightarrow> (tensor \<times> int option) \<times> bool" where
  "chunk_compare dev tok suffix suffix_offset ngram_len chunk_count load_count cmp_count cmp_off st =
     (let rem = chunk_count - cmp_off;
          elements = (if rem \<ge> cmp_count then cmp_count else rem);
          aligned = (elements + 63) div 64 * 64;
          mk = compare_eq dev (fst st) tok cmp_off (suffix suffix_offset) aligned;
          hit = find_range 0 elements
                  (\<lambda>p. mask_bit mk p \<and>
                       (\<forall>s \<in> set [1..ngram_len - 1]. cmp_off + p + s < load_count \<and>
                          tok (cmp_off + p + s) = suffix (suffix_offset + s)))
      in (case hit of Some p \<Rightarrow> ((mk, Some (cmp_off + p)), True) | None \<Rightarrow> ((mk, None), False)))"

definition search_chunk ::
  "ascendc \<Rightarrow> ngram_gm \<Rightarrow> int \<Rightarrow> int \<Rightarrow> int \<Rightarrow> tensor \<Rightarrow> int \<Rightarrow> int \<Rightarrow> tensor \<times> tensor \<times> int option \<Rightarrow> (tensor \<times> tensor \<times> int option) \<times> bool" where
  "search_chunk dev gm gmRow nt ngram_len suffix suffix_offset chunk_start st =
     (case st of (tok, mk, _) \<Rightarrow>
      let wc = nt - ngram_len;
          chunk_count = (if chunk_start + SAFE_CHUNK \<le> wc then SAFE_CHUNK else wc - chunk_start);
          load_count = chunk_count + (ngram_len - 1);
          load_count = (if chunk_start + load_count > nt then nt - chunk_start else load_count);
          tok' = LoadGmElements dev gm (gmRow + chunk_start) load_count tok;
          cmp_count = (chunk_count + 63) div 64 * 64;
          max_cmp = (if SAFE_CHUNK > 8192 then 8192 else SAFE_CHUNK);
          cmp_count = (if cmp_count > max_cmp then max_cmp else cmp_count);
          cmp_count = (if cmp_count > load_count then (load_count + 63) div 64 * 64 else cmp_count);
          (mk', hit) = for_step_break cmp_count chunk_count
                           (chunk_compare dev tok' suffix suffix_offset ngram_len chunk_count load_count cmp_count)
                           0 (mk, None)
      in ((tok', mk', map_option (\<lambda>p. chunk_start + p) hit), hit \<noteq> None))"

function search_chunked ::
  "ascendc \<Rightarrow> ngram_kernel \<Rightarrow> ngram_gm \<Rightarrow> int \<Rightarrow> int \<Rightarrow> tensor \<Rightarrow> int \<Rightarrow> tensor \<times> tensor \<Rightarrow> (tensor \<times> tensor) \<times> int \<times> int" where
  "search_chunked dev kn gm gmRow nt suffix ngram_len st =
     (if ngram_len \<le> max_n_val kn \<and> \<not> ngram_len > nt \<and> \<not> nt - ngram_len \<le> 0
      then (case for_step_break SAFE_CHUNK (nt - ngram_len)
                   (search_chunk dev gm gmRow nt ngram_len suffix (max_n_val kn - ngram_len))
                   0 (fst st, snd st, None) of
              (tok', mk', Some p) \<Rightarrow> ((tok', mk'), p, ngram_len)
            | (tok', mk', None) \<Rightarrow> search_chunked dev kn gm gmRow nt suffix (ngram_len + 1) (tok', mk'))
      else (st, - 1, 0))"
  by pat_completeness auto
termination
  by (relation "measure (\<lambda>(dev, kn, gm, gmRow, nt, sx, ngram_len, st). nat (max_n_val kn + 1 - ngram_len))") auto

declare search_chunked.simps [simp del]

definition chunked_search ::
  "ascendc \<Rightarrow> ngram_kernel \<Rightarrow> ngram_gm \<Rightarrow> int \<Rightarrow> int \<Rightarrow> int \<Rightarrow> ngram_ub \<Rightarrow> ngram_ub \<times> int \<times> int" where
  "chunked_search dev kn gm gmRow valid_count nt ub =
     (if valid_count > 0 \<and> nt \<ge> min_n_val kn
      then (let suffix_gm_start = nt - max_n_val kn;
                suffix_gm_start = (if suffix_gm_start < 0 then 0 else suffix_gm_start);
                tok = LoadGmElements dev gm (gmRow + suffix_gm_start) (max_n_val kn) (tokenLocal ub);
                suffix = for_range 0 (max_n_val kn) (\<lambda>s sx. sx(s := tok s)) (suffixLocal ub);
                ((tok', mk'), best_pos, best_len) =
                  search_chunked dev kn gm gmRow nt suffix (min_n_val kn) (tok, maskLocal ub)
            in (ub\<lparr>tokenLocal := tok', suffixLocal := suffix, maskLocal := mk'\<rparr>, best_pos, best_len))
      else (ub, - 1, 0))"

definition chunked_draft ::
  "ascendc \<Rightarrow> ngram_kernel \<Rightarrow> ngram_gm \<Rightarrow> int \<Rightarrow> int \<Rightarrow> int \<Rightarrow> int \<Rightarrow> int \<Rightarrow> ngram_ub \<Rightarrow> ngram_ub" where
  "chunked_draft dev kn gm gmRow dbase nt best_pos best_len ub =
     (let none = (\<lambda>u. u\<lparr>draftLocal := for_range 0 (k_val kn) (\<lambda>j d. d(dbase + j := - 1)) (draftLocal u)\<rparr>) in
      if best_pos \<ge> 0
      then (let draft_start = best_pos + best_len;
                tokens_available = nt - draft_start;
                draft_load = (if tokens_available < k_val kn then tokens_available else k_val kn)
            in if draft_load > 0
               then (let tok = LoadGmElements dev gm (gmRow + draft_start) draft_load (tokenLocal ub) in
                 ub\<lparr>tokenLocal := tok,
                    draftLocal := for_range 0 (k_val kn)
                      (\<lambda>j d. d(dbase + j := (if j < draft_load then tok j else - 1))) (draftLocal ub)\<rparr>)
               else none ub)
      else none ub)"

definition chunked_row :: "ascendc \<Rightarrow> ngram_kernel \<Rightarrow> int \<Rightarrow> int \<Rightarrow> ngram_gm \<times> ngram_ub \<Rightarrow> ngram_gm \<times> ngram_ub" where
  "chunked_row dev kn start_row i st =
     (case st of (gm, ub) \<Rightarrow>
      let mnta = max_new_tokens_align kn;
          ka = k_align kn;
          gmRow = (start_row + i) * max_seq_len kn;
          seq_len = numTokensLocal ub i;
          discard = discardLocal ub i;
          backup_pos = (if seq_len > 0 then seq_len - 1 else 0);
          (sl, count) = filter_sampled kn discard (i * mnta) (sampledLocal ub);
          valid_count = clamp_valid kn seq_len count;
          tok0 = LoadGmElements dev gm (gmRow + backup_pos) 1 (tokenLocal ub);
          backup_token = tok0 0;
          next = (if valid_count > 0 then sl (i * mnta + valid_count - 1) else backup_token);
          nt = seq_len + valid_count;
          tok1 = (if valid_count > 0
                  then for_range 0 valid_count (\<lambda>j t. t(j := sl (i * mnta + j))) tok0 else tok0);
          gm1 = (if valid_count > 0 then StoreGmElements dev tok1 (gmRow + seq_len) valid_count gm else gm);
          ub1 = ub\<lparr>tokenLocal := tok1, sampledLocal := sl, nextLocal := (nextLocal ub)(i := next)\<rparr>;
          (ub2, best_pos, best_len) = chunked_search dev kn gm1 gmRow valid_count nt ub1;
          ub3 = chunked_draft dev kn gm1 gmRow (i * ka) nt best_pos best_len ub2;
          valid_draft_count = count_run (nat (k_val kn)) (draftLocal ub3) (i * ka)
      in (gm1, ub3\<lparr>numValidLocal := (numValidLocal ub3)(i := valid_draft_count)\<rparr>))"

definition ProcessChunkedRows ::
  "ascendc \<Rightarrow> ngram_kernel \<Rightarrow> int \<Rightarrow> int \<Rightarrow> ngram_gm \<times> ngram_ub \<Rightarrow> ngram_gm \<times> ngram_ub" where
  "ProcessChunkedRows dev kn start_row rows st =
     (case st of (gm, ub) \<Rightarrow>
      let mnta = max_new_tokens_align kn; mnt = max_new_tokens kn;
          ub0 = ub\<lparr>numTokensLocal := copy_in dev (numTokensLocal ub) 0 (numTokensGm gm) start_row rows,
                   discardLocal := copy_in dev (discardLocal ub) 0 (discardGm gm) start_row rows,
                   sampledLocal := for_range 0 rows
                     (\<lambda>r l. copy_in dev l (r * mnta) (sampledGm gm) ((start_row + r) * mnt) mnt) (sampledLocal ub)\<rparr>;
          (gm1, ub1) = for_range 0 rows (chunked_row dev kn start_row) (gm, ub0);
          gm2 = gm1\<lparr>nextTokensGm := copy_out dev (nextTokensGm gm1) start_row (nextLocal ub1) 0 rows,
                    draftTokensGm := for_range 0 rows
                      (\<lambda>r g. copy_out dev g ((start_row + r) * k_val kn) (draftLocal ub1) (r * k_align kn) (k_val kn))
                      (draftTokensGm gm1),
                    numValidGm := copy_out dev (numValidGm gm1) start_row (numValidLocal ub1) 0 rows\<rparr>
      in (gm2, ub1))"

section \<open>The kernel and its launch\<close>

definition ngram_block ::
  "ascendc \<Rightarrow> ngram_kernel \<Rightarrow> int \<Rightarrow> int \<Rightarrow> ngram_gm \<times> ngram_ub \<Rightarrow> ngram_gm \<times> ngram_ub" where
  "ngram_block dev kn start_row cur_rows st =
     (if is_large_row kn then ProcessChunkedRows dev kn start_row cur_rows st
      else (case st of (gm, ub) \<Rightarrow>
        let ub1 = ngram_Compute dev kn cur_rows (ngram_CopyIn dev kn gm start_row cur_rows ub)
        in (ngram_CopyOut dev kn ub1 start_row cur_rows gm, ub1)))"

text \<open>The loop of \<open>Process\<close>; \<^term>\<open>None\<close> when it does not end.\<close>

partial_function (option) ngram_Process_loop ::
  "ascendc \<Rightarrow> ngram_kernel \<Rightarrow> int \<Rightarrow> int \<Rightarrow> ngram_gm \<times> ngram_ub \<Rightarrow> (ngram_gm \<times> ngram_ub) option" where
  "ngram_Process_loop dev kn cur_offset remaining st =
     (if remaining > 0
      then (let cur_rows = (if remaining > u32 (block_rows kn) then u32 (block_rows kn) else remaining)
            in ngram_Process_loop dev kn (cur_offset + cur_rows) (remaining - cur_rows)
                 (ngram_block dev kn (row_offset kn + cur_offset) cur_rows st))
      else Some st)"

definition ngram_Process ::
  "ascendc \<Rightarrow> ngram_kernel \<Rightarrow> ngram_gm \<times> ngram_ub \<Rightarrow> (ngram_gm \<times> ngram_ub) option" where
  "ngram_Process dev kn st = ngram_Process_loop dev kn 0 (my_rows kn) st"

definition ngram_spec_decode ::
  "ascendc \<Rightarrow> ngram_info \<Rightarrow> int \<Rightarrow> ngram_gm \<times> ngram_ub \<Rightarrow> (ngram_gm \<times> ngram_ub) option" where
  "ngram_spec_decode dev t blockIdx st = ngram_Process dev (ngram_Init t blockIdx) st"

text \<open>
  A launch: the cores of the list \<open>order\<close>, each with some contents of its own UB. The cores run
  concurrently on the device; a launch in the model fixes the order in which they finish.
\<close>

definition ngram_launch ::
  "ascendc \<Rightarrow> ngram_info \<Rightarrow> int list \<Rightarrow> (int \<Rightarrow> ngram_ub) \<Rightarrow> ngram_gm \<Rightarrow> ngram_gm option" where
  "ngram_launch dev t order ubs gm =
     fold_opt (\<lambda>b g. map_option fst (ngram_spec_decode dev t b (g, ubs b))) order gm"

end
