(* ===== verification/NgramSpec.thy ===== *)
theory NgramSpec
  imports Ngram
begin

text \<open>
  The reference for one request of n-gram speculative decoding, and the lemma that the kernel's row
  routine \<open>ComputeOneRow\<close> computes it: the filtered tokens are appended, the suffix of the row is
  looked up, and the tokens behind the match become the draft.
\<close>

section \<open>Reference definitions\<close>

text \<open>The earliest position before the suffix of length \<open>n\<close> at which the suffix occurs.\<close>

definition ngram_at :: "tensor \<Rightarrow> int \<Rightarrow> int \<Rightarrow> int \<Rightarrow> bool" where
  "ngram_at t nt n p \<longleftrightarrow> (\<forall>s \<in> set [0..n - 1]. t (p + s) = t (nt - n + s))"

definition first_match :: "tensor \<Rightarrow> int \<Rightarrow> int \<Rightarrow> int option" where
  "first_match t nt n = find_range 0 (nt - n) (ngram_at t nt n)"

definition match_lengths :: "tensor \<Rightarrow> int \<Rightarrow> int \<Rightarrow> int \<Rightarrow> int list" where
  "match_lengths t nt lo hi = filter (\<lambda>n. first_match t nt n \<noteq> None) [lo..min hi nt]"

definition match_with :: "tensor \<Rightarrow> int \<Rightarrow> int list \<Rightarrow> int \<times> int" where
  "match_with t nt ns = (case ns of [] \<Rightarrow> (- 1, 0) | n # _ \<Rightarrow> (the (first_match t nt n), n))"

definition longest_match :: "tensor \<Rightarrow> int \<Rightarrow> int \<Rightarrow> int \<Rightarrow> int \<times> int" where
  "longest_match t nt lo hi = match_with t nt (rev (match_lengths t nt lo hi))"

definition shortest_match :: "tensor \<Rightarrow> int \<Rightarrow> int \<Rightarrow> int \<Rightarrow> int \<times> int" where
  "shortest_match t nt lo hi = match_with t nt (match_lengths t nt lo hi)"

definition keep_token :: "ngram_kernel \<Rightarrow> int \<Rightarrow> int \<Rightarrow> int" where
  "keep_token kn discard v = (if discard = 0 \<and> v \<noteq> - 1 \<and> v < vocab_size_val kn then v else - 1)"

definition valid_tokens :: "ngram_kernel \<Rightarrow> int \<Rightarrow> tensor \<Rightarrow> int" where
  "valid_tokens kn discard samp =
     int (length (filter (\<lambda>j. keep_token kn discard (samp j) \<noteq> - 1) [0..max_new_tokens kn - 1]))"

record ngram_row =
  nr_tokens :: tensor
  nr_next :: int
  nr_draft :: tensor
  nr_valid :: int

text \<open>What one row becomes, over a choice \<open>match\<close> of the n-gram.\<close>

definition row_spec ::
  "(tensor \<Rightarrow> int \<Rightarrow> int \<Rightarrow> int \<Rightarrow> int \<times> int) \<Rightarrow> ngram_kernel \<Rightarrow> tensor \<Rightarrow> int \<Rightarrow> tensor \<Rightarrow> int \<Rightarrow> ngram_row" where
  "row_spec match kn t seq_len samp discard =
     (let kept = (\<lambda>j. keep_token kn discard (samp j));
          vc = min (valid_tokens kn discard samp) (max 0 (max_seq_len kn - seq_len));
          nt = seq_len + vc;
          t' = (\<lambda>i. if seq_len \<le> i \<and> i < nt then kept (i - seq_len) else t i);
          (p, n) = (if vc > 0 \<and> nt \<ge> min_n_val kn
                    then match t' nt (min_n_val kn) (max_n_val kn) else (- 1, 0));
          draft = (\<lambda>j. if p \<ge> 0 \<and> p + n + j < nt then t' (p + n + j) else - 1)
      in \<lparr>nr_tokens = t', nr_next = (if vc > 0 then kept (vc - 1) else t (max 0 (seq_len - 1))),
          nr_draft = draft, nr_valid = count_run (nat (k_val kn)) draft 0\<rparr>)"

section \<open>The stages\<close>

lemma upto_int_snoc: "a \<le> b \<Longrightarrow> [a..b - 1] @ [b] = [a..b::int]"
  by (simp add: upto_rec2)

lemma filter_sampled_inv:
  assumes "0 \<le> max_new_tokens kn"
  shows "filter_sampled kn d base samp =
    ((\<lambda>i. if base \<le> i \<and> i < base + max_new_tokens kn then keep_token kn d (samp i) else samp i),
     valid_tokens kn d (\<lambda>j. samp (base + j)))"
proof -
  let ?n = "max_new_tokens kn"
  let ?P = "\<lambda>m (st :: tensor \<times> int). st = ((\<lambda>i. if base \<le> i \<and> i < base + m then keep_token kn d (samp i) else samp i),
      int (length (filter (\<lambda>j. keep_token kn d (samp (base + j)) \<noteq> - 1) [0..m - 1])))"
  have "?P ?n (filter_sampled kn d base samp)"
    unfolding filter_sampled_def
  proof (rule for_range_inv [OF assms])
    fix m st assume m: "0 \<le> m" and st: "?P m st"
    have up: "[0..m] = [0..m - 1] @ [m]" using m by (simp add: upto_int_snoc)
    have range: "(base \<le> i \<and> i < base + (m + 1)) \<longleftrightarrow> (i = base + m \<or> base \<le> i \<and> i < base + m)" for i
      using m by auto
    show "?P (m + 1) (case st of (sl, valid_count) \<Rightarrow>
          let val = sl (base + m) in
          if d \<noteq> 0 then (sl(base + m := - 1), valid_count)
          else if val \<noteq> - 1 \<and> val < vocab_size_val kn then (sl, valid_count + 1)
          else (sl(base + m := - 1), valid_count))"
      unfolding st range using m by (auto simp: up Let_def keep_token_def fun_eq_iff)
  qed (auto simp: fun_eq_iff)
  then show ?thesis by (simp add: valid_tokens_def)
qed

lemma valid_tokens_nonneg [simp]: "0 \<le> valid_tokens kn d samp"
  by (simp add: valid_tokens_def)

lemma clamp_valid_eq:
  "clamp_valid kn seq_len c = min c (max 0 (max_seq_len kn - seq_len))"
  by (auto simp: clamp_valid_def Let_def)

lemma count_run_shift: "count_run n (\<lambda>j. d (c + j)) i = count_run n d (c + i)"
  by (induction n arbitrary: i) (auto simp: add.assoc)

lemma count_run_cong:
  "(\<And>j. i \<le> j \<Longrightarrow> j < i + int n \<Longrightarrow> d j = e j) \<Longrightarrow> count_run n d i = count_run n e i"
proof (induction n arbitrary: i)
  case (Suc n)
  have "d i = e i" using Suc.prems by simp
  moreover have "count_run n d (i + 1) = count_run n e (i + 1)" by (rule Suc.IH) (use Suc.prems in auto)
  ultimately show ?case by simp
qed simp

lemma fill_draft_eq:
  "fill_draft kn tok rb db nt p n draft =
     (\<lambda>i. if db \<le> i \<and> i < db + k_val kn
          then (if p \<ge> 0 \<and> p + n + (i - db) < nt then tok (rb + (p + n) + (i - db)) else - 1)
          else draft i)"
  unfolding fill_draft_def Let_def for_range_store by (auto simp: fun_eq_iff algebra_simps)

section \<open>The searches\<close>

lemma match_lengths_rec:
  "lo \<le> min hi nt \<Longrightarrow> match_lengths t nt lo hi =
     (if first_match t nt lo \<noteq> None then [lo] else []) @ match_lengths t nt (lo + 1) hi"
  by (subst match_lengths_def, subst upto_rec1) (auto simp: match_lengths_def)

lemma match_lengths_end: "min hi nt < lo \<Longrightarrow> match_lengths t nt lo hi = []"
  by (simp add: match_lengths_def)

lemma first_match_whole: "nt \<le> n \<Longrightarrow> first_match t nt n = None"
  by (auto simp: first_match_def find_range_None_iff)

text \<open>What a pass over one length does to the best match, and the pass over all lengths.\<close>

definition best_after :: "tensor \<Rightarrow> int \<Rightarrow> int list \<Rightarrow> int \<times> int \<Rightarrow> int \<times> int" where
  "best_after t nt ns b = (case rev ns of [] \<Rightarrow> b | n # _ \<Rightarrow> (the (first_match t nt n), n))"

lemma best_after_longest: "best_after t nt (match_lengths t nt lo hi) (- 1, 0) = longest_match t nt lo hi"
  by (simp add: best_after_def longest_match_def match_with_def)

lemma best_after_Nil [simp]: "best_after t nt [] b = b"
  by (simp add: best_after_def)

lemma best_after_Cons [simp]:
  "best_after t nt (n # ns) b = best_after t nt ns (the (first_match t nt n), n)"
  by (auto simp: best_after_def split: list.splits)

lemma align64_fold: "(x + 63) div 64 * 64 = align_up x 64"
  by (simp add: align_up_def)

lemma search_multi_eq:
  "snd (search_multi kn tok rb nt n (sx, b)) =
     best_after (\<lambda>i. tok (rb + i)) nt (match_lengths (\<lambda>i. tok (rb + i)) nt n (max_n_val kn)) b"
proof (induction "nat (max_n_val kn + 1 - n)" arbitrary: n sx b rule: less_induct)
  case less
  let ?t = "\<lambda>i. tok (rb + i)"
  show ?case
  proof (cases "n \<le> max_n_val kn \<and> n \<le> nt")
    case True
    define sx' where "sx' = for_range 0 n (\<lambda>s sx. sx(s := tok (rb + nt - n + s))) sx"
    have sx': "sx' s = tok (rb + (nt - n + s))" if "0 \<le> s" "s < n" for s
      using that for_range_store [of 0 n 0 "\<lambda>s. tok (rb + nt - n + s)" sx]
      by (simp add: sx'_def algebra_simps)
    have "find_range 0 (nt - n - 1 + 1) (\<lambda>pos. \<forall>s \<in> set [0..n - 1]. tok (rb + pos + s) = sx' s)
        = first_match ?t nt n"
      unfolding first_match_def ngram_at_def by (auto intro!: find_range_cong simp: sx' add.assoc)
    then have "search_multi kn tok rb nt n (sx, b) = search_multi kn tok rb nt (n + 1)
        (case first_match ?t nt n of Some pos \<Rightarrow> (sx', pos, n) | None \<Rightarrow> (sx', b))"
      using True by (subst search_multi.simps, cases b) (simp only: Let_def prod.case sx'_def, simp)
    then show ?thesis
      using less [of "n + 1"] True by (cases "first_match ?t nt n") (auto simp: match_lengths_rec)
  next
    case False
    then show ?thesis by (subst search_multi.simps) (auto simp: match_lengths_end)
  qed
qed

lemma ngram_at_first: "1 \<le> n \<Longrightarrow> ngram_at t nt n p \<longleftrightarrow>
    t p = t (nt - n) \<and> (\<forall>s \<in> set [1..n - 1]. t (p + s) = t (nt - n + s))"
proof -
  assume "1 \<le> n"
  then have "[0..n - 1] = 0 # [1..n - 1]" by (simp add: upto_rec1)
  then show ?thesis by (simp add: ngram_at_def)
qed

lemma single_chunk_eq:
  assumes dev: "vec_compare (compare_eq dev)" and n: "1 \<le> n" "n < nt"
    and msa: "64 dvd max_seq_len_align kn" "nt \<le> max_seq_len_align kn" "max_seq_len_align kn \<le> 8192"
  shows "\<exists>mk'. single_chunk dev kn tok nt n 0 (mk, b) =
    (let b' = (case first_match tok nt n of Some p \<Rightarrow> (p, n) | None \<Rightarrow> b) in ((mk', b'), fst b' \<ge> 0))"
proof -
  let ?e = "nt - n" and ?c = "align_up (nt - n) 64"
  have c_le: "?c \<le> max_seq_len_align kn"
    using align_up_least [of 64 "max_seq_len_align kn" ?e] msa n by simp
  have c_ge: "?e \<le> ?c" using align_up_ge [of 64 ?e] by simp
  have c_pos: "?c \<noteq> 0" using c_ge n by linarith
  let ?m = "compare_eq dev mk tok 0 (tok (nt - n)) ?c"
  have bit: "mask_bit ?m p = (tok p = tok (nt - n))" if "0 \<le> p" "p < ?e" for p
    using vec_compare.cmp_bit [OF dev, of ?c p mk tok 0 "tok (nt - n)"] that c_ge align_up_dvd [of 64 ?e]
    by simp
  have "find_range 0 ?e (\<lambda>p. mask_bit ?m p \<and> (\<forall>s \<in> set [1..n - 1]. tok (p + s) = tok (nt - n + s)))
      = first_match tok nt n"
    unfolding first_match_def by (rule find_range_cong) (simp add: bit ngram_at_first n)
  then have "single_chunk dev kn tok nt n 0 (mk, b) =
      (let b' = (case first_match tok nt n of Some p \<Rightarrow> (p, n) | None \<Rightarrow> b) in ((?m, b'), fst b' \<ge> 0))"
    using c_le c_pos msa n unfolding single_chunk_def align64_fold
    by (cases b) (auto simp: Let_def split: option.splits)
  then show ?thesis by blast
qed

lemma search_single_eq:
  assumes dev: "vec_compare (compare_eq dev)" and n: "1 \<le> n"
    and msa: "64 dvd max_seq_len_align kn" "nt \<le> max_seq_len_align kn" "max_seq_len_align kn \<le> 8192"
  shows "snd (search_single dev kn tok nt n (mk, b)) =
     best_after tok nt (match_lengths tok nt n (max_n_val kn)) b"
  using n
proof (induction "nat (max_n_val kn + 1 - n)" arbitrary: n mk b rule: less_induct)
  case less
  show ?case
  proof (cases "n \<le> max_n_val kn \<and> n < nt")
    case True
    let ?b' = "case first_match tok nt n of Some p \<Rightarrow> (p, n) | None \<Rightarrow> b"
    obtain mk' where mk': "single_chunk dev kn tok nt n 0 (mk, b) = ((mk', ?b'), fst ?b' \<ge> 0)"
      using single_chunk_eq [OF dev \<open>1 \<le> n\<close> _ msa, of tok mk b] True by (auto simp: Let_def)
    have "for_step_break 8192 (nt - n) (single_chunk dev kn tok nt n) 0 (mk, b) = (mk', ?b')"
      using True less.prems msa
      by (subst for_step_break.simps, subst for_step_break.simps) (simp add: mk' Let_def)
    then have "search_single dev kn tok nt n (mk, b) = search_single dev kn tok nt (n + 1) (mk', ?b')"
      using True by (subst search_single.simps) simp
    then show ?thesis
      using less(1) [of "n + 1"] less.prems True
      by (cases "first_match tok nt n") (auto simp: match_lengths_rec)
  next
    case False
    have "match_lengths tok nt n (max_n_val kn) = []"
    proof (cases "n \<le> max_n_val kn \<and> n = nt")
      case True
      then have "match_lengths tok nt n (max_n_val kn) = match_lengths tok nt (n + 1) (max_n_val kn)"
        by (subst match_lengths_rec) (auto simp: first_match_whole)
      then show ?thesis using True by (simp add: match_lengths_end)
    qed (use False in \<open>auto simp: match_lengths_end\<close>)
    with False show ?thesis by (subst search_single.simps) auto
  qed
qed


section \<open>One row\<close>

definition ngram_wf :: "ngram_kernel \<Rightarrow> bool" where
  "ngram_wf kn \<longleftrightarrow> 0 < max_seq_len kn \<and> max_seq_len_align kn = align_up (max_seq_len kn) 8 \<and>
     0 < max_new_tokens kn \<and> max_new_tokens_align kn = align_up (max_new_tokens kn) 8 \<and>
     0 < k_val kn \<and> k_align kn = align_up (k_val kn) 8 \<and> 1 \<le> min_n_val kn"

definition vector_search_ok :: "ngram_kernel \<Rightarrow> bool" where
  "vector_search_ok kn \<longleftrightarrow> block_rows kn \<le> 1 \<longrightarrow> 64 dvd max_seq_len_align kn \<and> max_seq_len_align kn \<le> 8192"

lemma ngram_wf_le:
  "ngram_wf kn \<Longrightarrow> max_seq_len kn \<le> max_seq_len_align kn \<and> max_new_tokens kn \<le> max_new_tokens_align kn \<and>
     k_val kn \<le> k_align kn"
  by (simp add: ngram_wf_def align_up_ge)

lemma valid_tokens_le: "0 \<le> max_new_tokens kn \<Longrightarrow> valid_tokens kn d samp \<le> max_new_tokens kn"
proof -
  assume "0 \<le> max_new_tokens kn"
  moreover have "length (filter (\<lambda>j. keep_token kn d (samp j) \<noteq> - 1) [0..max_new_tokens kn - 1])
      \<le> length [0..max_new_tokens kn - 1]" by (rule length_filter_le)
  ultimately show ?thesis by (simp add: valid_tokens_def)
qed

definition ub_row :: "ngram_kernel \<Rightarrow> ngram_ub \<Rightarrow> int \<Rightarrow> ngram_row" where
  "ub_row kn ub r = row_spec longest_match kn (\<lambda>i. tokenLocal ub (r * max_seq_len_align kn + i))
     (numTokensLocal ub r) (\<lambda>j. sampledLocal ub (r * max_new_tokens_align kn + j)) (discardLocal ub r)"

lemma ComputeOneRow_eq:
  assumes dev: "vec_compare (compare_eq dev)" and wf: "ngram_wf kn" and vec: "vector_search_ok kn"
    and idx: "0 \<le> idx" "block_rows kn \<le> 1 \<longrightarrow> idx = 0"
    and len: "0 \<le> numTokensLocal ub idx" "numTokensLocal ub idx \<le> max_seq_len kn"
  shows "\<exists>sx mk. ComputeOneRow dev kn idx ub = ub\<lparr>
      tokenLocal := (\<lambda>i. if idx * max_seq_len_align kn \<le> i \<and> i < idx * max_seq_len_align kn + max_seq_len kn
                        then nr_tokens (ub_row kn ub idx) (i - idx * max_seq_len_align kn) else tokenLocal ub i),
      sampledLocal := fst (filter_sampled kn (discardLocal ub idx) (idx * max_new_tokens_align kn) (sampledLocal ub)),
      nextLocal := (nextLocal ub)(idx := nr_next (ub_row kn ub idx)),
      draftLocal := (\<lambda>i. if idx * k_align kn \<le> i \<and> i < idx * k_align kn + k_val kn
                        then nr_draft (ub_row kn ub idx) (i - idx * k_align kn) else draftLocal ub i),
      numValidLocal := (numValidLocal ub)(idx := nr_valid (ub_row kn ub idx)),
      suffixLocal := sx, maskLocal := mk\<rparr>"
proof -
  define rb where "rb = idx * max_seq_len_align kn"
  define sb where "sb = idx * max_new_tokens_align kn"
  define db where "db = idx * k_align kn"
  define d where "d = discardLocal ub idx"
  define sq where "sq = numTokensLocal ub idx"
  define samp where "samp = (\<lambda>j. sampledLocal ub (sb + j))"
  define vc where "vc = min (valid_tokens kn d samp) (max 0 (max_seq_len kn - sq))"
  define nt where "nt = sq + vc"
  define t where "t = (\<lambda>i. tokenLocal ub (rb + i))"
  define t' where "t' = (\<lambda>i. if sq \<le> i \<and> i < nt then keep_token kn d (samp (i - sq)) else t i)"
  define sl where "sl = fst (filter_sampled kn d sb (sampledLocal ub))"
  define tok where "tok = for_range 0 vc (\<lambda>j t. t(rb + sq + j := sl (sb + j))) (tokenLocal ub)"
  have mnt: "0 \<le> max_new_tokens kn" using wf by (simp add: ngram_wf_def)
  have vc_le: "vc \<le> max_new_tokens kn" "0 \<le> vc" "nt \<le> max_seq_len kn"
    using valid_tokens_le [OF mnt, of d samp] len by (auto simp: vc_def nt_def sq_def)
  have filt: "filter_sampled kn d sb (sampledLocal ub) = (sl, valid_tokens kn d samp)"
    unfolding sl_def samp_def filter_sampled_inv [OF mnt] by simp
  have sl: "sl (sb + j) = keep_token kn d (samp j)" if "0 \<le> j" "j < max_new_tokens kn" for j
    using that unfolding sl_def samp_def filter_sampled_inv [OF mnt] by simp
  have tok_eq: "tok = (\<lambda>i. if rb + sq \<le> i \<and> i < rb + nt then t' (i - rb) else tokenLocal ub i)"
  proof
    fix i
    have "sl (sb + (i - (rb + sq))) = keep_token kn d (samp (i - rb - sq))" if "rb + sq \<le> i" "i < rb + sq + vc"
      using sl [of "i - (rb + sq)"] that vc_le by (simp add: diff_diff_eq)
    then show "tok i = (if rb + sq \<le> i \<and> i < rb + nt then t' (i - rb) else tokenLocal ub i)"
      unfolding tok_def for_range_store t'_def nt_def by auto
  qed
  have tok_row: "tok (rb + i) = t' i" for i
    unfolding tok_eq t'_def t_def by auto
  define m where "m = (if vc > 0 \<and> nt \<ge> min_n_val kn then longest_match t' nt (min_n_val kn) (max_n_val kn) else (- 1, 0))"
  have nt_msa: "nt \<le> max_seq_len_align kn" using vc_le ngram_wf_le [OF wf] by simp
  have row: "ub_row kn ub idx = \<lparr>nr_tokens = t', nr_next = (if vc > 0 then keep_token kn d (samp (vc - 1)) else t (max 0 (sq - 1))),
      nr_draft = (\<lambda>j. if fst m \<ge> 0 \<and> fst m + snd m + j < nt then t' (fst m + snd m + j) else - 1),
      nr_valid = count_run (nat (k_val kn)) (\<lambda>j. if fst m \<ge> 0 \<and> fst m + snd m + j < nt then t' (fst m + snd m + j) else - 1) 0\<rparr>"
    unfolding ub_row_def row_spec_def Let_def rb_def [symmetric] sb_def [symmetric] d_def [symmetric]
      sq_def [symmetric] t_def [symmetric] samp_def [symmetric] vc_def [symmetric] nt_def [symmetric]
      t'_def [symmetric] m_def [symmetric] case_prod_unfold
    unfolding t'_def by simp
  define srch where "srch = (if vc > 0 \<and> nt \<ge> min_n_val kn
             then (if block_rows kn \<le> 1
                   then (suffixLocal ub, search_single dev kn tok nt (min_n_val kn) (maskLocal ub, - 1, 0))
                   else (case search_multi kn tok rb nt (min_n_val kn) (suffixLocal ub, - 1, 0) of
                         (sx, bp, bl) \<Rightarrow> (sx, maskLocal ub, bp, bl)))
             else (suffixLocal ub, maskLocal ub, - 1, 0))"
  have srch: "snd (snd srch) = m"
  proof (cases "vc > 0 \<and> nt \<ge> min_n_val kn")
    case True
    show ?thesis
    proof (cases "block_rows kn \<le> 1")
      case b: True
      then have "rb = 0" using idx by (simp add: rb_def)
      then have "tok = t'" using tok_row by (auto simp: fun_eq_iff)
      then show ?thesis
        using search_single_eq [OF dev, of "min_n_val kn" kn nt tok "maskLocal ub" "(- 1, 0)"] vec b wf nt_msa True
        by (simp add: srch_def m_def vector_search_ok_def ngram_wf_def best_after_longest)
    next
      case False
      then show ?thesis
        using search_multi_eq [of kn tok rb nt "min_n_val kn" "suffixLocal ub" "(- 1, 0)"] True
        by (auto simp: srch_def m_def tok_row best_after_longest split: prod.splits)
    qed
  qed (auto simp: srch_def m_def)
  define draft where "draft = fill_draft kn tok rb db nt (fst m) (snd m) (draftLocal ub)"
  have draft: "draft = (\<lambda>i. if db \<le> i \<and> i < db + k_val kn then nr_draft (ub_row kn ub idx) (i - db) else draftLocal ub i)"
    unfolding draft_def fill_draft_eq row by (auto simp: fun_eq_iff tok_row add.assoc)
  have "count_run (nat (k_val kn)) draft db = count_run (nat (k_val kn)) (\<lambda>j. draft (db + j)) 0"
    by (simp add: count_run_shift)
  also have "\<dots> = nr_valid (ub_row kn ub idx)"
    unfolding draft row ngram_row.simps by (rule count_run_cong) (auto split: if_splits)
  finally have valid: "count_run (nat (k_val kn)) draft db = nr_valid (ub_row kn ub idx)" .
  have nxt: "(if vc > 0 then sl (sb + vc - 1) else tokenLocal ub (rb + (if sq > 0 then sq - 1 else 0))) = nr_next (ub_row kn ub idx)"
    using sl [of "vc - 1"] vc_le unfolding row t_def by (auto simp: max_def algebra_simps)
  have tokrow: "tok = (\<lambda>i. if rb \<le> i \<and> i < rb + max_seq_len kn then nr_tokens (ub_row kn ub idx) (i - rb) else tokenLocal ub i)"
    unfolding row tok_eq using vc_le len by (auto simp: fun_eq_iff t'_def t_def sq_def)
  have "ComputeOneRow dev kn idx ub = ub\<lparr>tokenLocal := tok, sampledLocal := sl,
      nextLocal := (nextLocal ub)(idx := nr_next (ub_row kn ub idx)), draftLocal := draft,
      numValidLocal := (numValidLocal ub)(idx := nr_valid (ub_row kn ub idx)),
      suffixLocal := fst srch, maskLocal := fst (snd srch)\<rparr>"
    unfolding ComputeOneRow_def Let_def rb_def [symmetric] sb_def [symmetric] db_def [symmetric]
      d_def [symmetric] sq_def [symmetric] filt prod.case clamp_valid_eq vc_def [symmetric] nt_def [symmetric]
      tok_def [symmetric] srch_def [symmetric]
    using srch nxt valid by (simp add: case_prod_unfold draft_def)
  then show ?thesis unfolding draft tokrow sl_def d_def rb_def sb_def db_def by blast
qed

end
