(* ===== verification/NgramRows.thy ===== *)
theory NgramRows
  imports NgramSpec
begin

text \<open>
  From one row to the rows of a core: the reference depends on its row only, the kernel loads,
  computes and stores a block of rows, and the loop of a core covers its rows and ends.
\<close>

section \<open>The reference depends on the row only\<close>

lemma ngram_at_cong:
  assumes "\<And>i. 0 \<le> i \<Longrightarrow> i < nt \<Longrightarrow> t i = u i" and "n \<le> nt" "0 \<le> p" "p < nt - n"
  shows "ngram_at t nt n p = ngram_at u nt n p"
  unfolding ngram_at_def using assms by (intro ball_cong) auto

lemma first_match_cong:
  assumes "\<And>i. 0 \<le> i \<Longrightarrow> i < nt \<Longrightarrow> t i = u i" and "n \<le> nt"
  shows "first_match t nt n = first_match u nt n"
  unfolding first_match_def using ngram_at_cong [OF assms] by (intro find_range_cong) auto

lemma match_lengths_cong:
  assumes "\<And>i. 0 \<le> i \<Longrightarrow> i < nt \<Longrightarrow> t i = u i"
  shows "match_lengths t nt lo hi = match_lengths u nt lo hi"
  unfolding match_lengths_def using first_match_cong [OF assms] by (intro filter_cong) auto

lemma match_with_cong:
  assumes "\<And>i. 0 \<le> i \<Longrightarrow> i < nt \<Longrightarrow> t i = u i" and "set ns \<subseteq> {.. nt}"
  shows "match_with t nt ns = match_with u nt ns"
  using first_match_cong [OF assms(1), where n = "hd ns"] assms(2)
  by (cases ns) (auto simp: match_with_def)

lemma longest_match_cong:
  assumes "\<And>i. 0 \<le> i \<Longrightarrow> i < nt \<Longrightarrow> t i = u i"
  shows "longest_match t nt lo hi = longest_match u nt lo hi"
proof -
  have "match_lengths t nt lo hi = match_lengths u nt lo hi" by (rule match_lengths_cong) (rule assms)
  then show ?thesis
    unfolding longest_match_def
    using match_with_cong [of nt t u "rev (match_lengths u nt lo hi)"] assms by (auto simp: match_lengths_def)
qed

lemma longest_match_nonneg:
  assumes "1 \<le> lo" "longest_match t nt lo hi = (p, n)"
  shows "0 \<le> n"
proof (cases "rev (match_lengths t nt lo hi)")
  case (Cons m ms)
  then have "m \<in> set (match_lengths t nt lo hi)" by (metis list.set_intros(1) set_rev)
  then show ?thesis using assms Cons by (auto simp: longest_match_def match_with_def match_lengths_def)
qed (use assms in \<open>simp add: longest_match_def match_with_def\<close>)

definition row_agree :: "ngram_kernel \<Rightarrow> ngram_row \<Rightarrow> ngram_row \<Rightarrow> bool" where
  "row_agree kn a b \<longleftrightarrow> (\<forall>i. 0 \<le> i \<and> i < max_seq_len kn \<longrightarrow> nr_tokens a i = nr_tokens b i) \<and>
     nr_next a = nr_next b \<and> (\<forall>j. 0 \<le> j \<longrightarrow> nr_draft a j = nr_draft b j) \<and> nr_valid a = nr_valid b"

lemma valid_tokens_cong:
  "(\<And>j. 0 \<le> j \<Longrightarrow> j < max_new_tokens kn \<Longrightarrow> samp j = samp' j) \<Longrightarrow> valid_tokens kn d samp = valid_tokens kn d samp'"
  unfolding valid_tokens_def by (intro arg_cong [where f = "\<lambda>l. int (length l)"] filter_cong) auto

lemma row_spec_cong:
  assumes wf: "ngram_wf kn" and sq: "0 \<le> sq" "sq \<le> max_seq_len kn"
    and t: "\<And>i. 0 \<le> i \<Longrightarrow> i < max_seq_len kn \<Longrightarrow> t i = u i"
    and samp: "\<And>j. 0 \<le> j \<Longrightarrow> j < max_new_tokens kn \<Longrightarrow> samp j = samp' j"
  shows "row_agree kn (row_spec longest_match kn t sq samp d) (row_spec longest_match kn u sq samp' d)"
proof -
  define vc where "vc = min (valid_tokens kn d samp) (max 0 (max_seq_len kn - sq))"
  have vc': "min (valid_tokens kn d samp') (max 0 (max_seq_len kn - sq)) = vc"
    unfolding vc_def using valid_tokens_cong [OF samp] by simp
  have vc_le: "vc \<le> max_new_tokens kn" "0 \<le> vc" "sq + vc \<le> max_seq_len kn"
    using valid_tokens_le [of kn d samp] wf sq by (auto simp: vc_def ngram_wf_def valid_tokens_def)
  define nt where "nt = sq + vc"
  define t' where "t' = (\<lambda>i. if sq \<le> i \<and> i < nt then keep_token kn d (samp (i - sq)) else t i)"
  define u' where "u' = (\<lambda>i. if sq \<le> i \<and> i < nt then keep_token kn d (samp' (i - sq)) else u i)"
  have tu: "t' i = u' i" if "0 \<le> i" "i < max_seq_len kn" for i
    unfolding t'_def u'_def using that t samp vc_le nt_def by auto
  define m where "m = (if vc > 0 \<and> nt \<ge> min_n_val kn then longest_match t' nt (min_n_val kn) (max_n_val kn) else (- 1, 0))"
  have m': "(if vc > 0 \<and> nt \<ge> min_n_val kn then longest_match u' nt (min_n_val kn) (max_n_val kn) else (- 1, 0)) = m"
    unfolding m_def using longest_match_cong [of nt t' u'] tu vc_le nt_def by simp
  have mn: "0 \<le> snd m"
    using longest_match_nonneg [of "min_n_val kn" t' nt "max_n_val kn" "fst m" "snd m"] wf
    by (auto simp: m_def ngram_wf_def)
  have dr: "(if fst m \<ge> 0 \<and> fst m + snd m + j < nt then t' (fst m + snd m + j) else - 1) =
     (if fst m \<ge> 0 \<and> fst m + snd m + j < nt then u' (fst m + snd m + j) else - 1)" if "0 \<le> j" for j
    using tu [of "fst m + snd m + j"] that mn vc_le nt_def by simp
  have nx: "(if vc > 0 then keep_token kn d (samp (vc - 1)) else t (max 0 (sq - 1))) =
     (if vc > 0 then keep_token kn d (samp' (vc - 1)) else u (max 0 (sq - 1)))"
    using t [of "max 0 (sq - 1)"] samp [of "vc - 1"] vc_le sq wf by (auto simp: ngram_wf_def)
  show ?thesis
    unfolding row_agree_def row_spec_def Let_def vc' vc_def [symmetric] nt_def [symmetric]
      t'_def [symmetric] u'_def [symmetric] m_def [symmetric] m' case_prod_unfold ngram_row.simps
    using tu dr nx unfolding t'_def u'_def by (intro conjI count_run_cong allI impI) blast+
qed


section \<open>The rows of a block in the UB\<close>

lemma row_agree_trans: "row_agree kn a b \<Longrightarrow> row_agree kn b c \<Longrightarrow> row_agree kn a c"
  by (auto simp: row_agree_def)

definition ub_holds :: "ngram_kernel \<Rightarrow> ngram_ub \<Rightarrow> int \<Rightarrow> ngram_row \<Rightarrow> bool" where
  "ub_holds kn ub r row \<longleftrightarrow>
     (\<forall>i. 0 \<le> i \<and> i < max_seq_len kn \<longrightarrow> tokenLocal ub (r * max_seq_len_align kn + i) = nr_tokens row i) \<and>
     nextLocal ub r = nr_next row \<and>
     (\<forall>j. 0 \<le> j \<and> j < k_val kn \<longrightarrow> draftLocal ub (r * k_align kn + j) = nr_draft row j) \<and>
     numValidLocal ub r = nr_valid row"

definition ub_row_input :: "ngram_kernel \<Rightarrow> ngram_ub \<Rightarrow> ngram_ub \<Rightarrow> int \<Rightarrow> bool" where
  "ub_row_input kn ub ub' r \<longleftrightarrow>
     (\<forall>i. 0 \<le> i \<and> i < max_seq_len kn \<longrightarrow> tokenLocal ub' (r * max_seq_len_align kn + i) = tokenLocal ub (r * max_seq_len_align kn + i)) \<and>
     (\<forall>j. 0 \<le> j \<and> j < max_new_tokens kn \<longrightarrow> sampledLocal ub' (r * max_new_tokens_align kn + j) = sampledLocal ub (r * max_new_tokens_align kn + j))"

lemma ub_holds_agree: "ub_holds kn ub r a \<Longrightarrow> row_agree kn a b \<Longrightarrow> ub_holds kn ub r b"
  by (simp add: ub_holds_def row_agree_def)

lemma slot_outside:
  fixes r q i n s :: int
  assumes "r \<noteq> q" "0 \<le> i" "i < n" "n \<le> s"
  shows "\<not> (q * s \<le> r * s + i \<and> r * s + i < q * s + n)"
  using slot_iff [of i s q r] assms by auto

lemma ComputeOneRow_row:
  assumes "vec_compare (compare_eq dev)" "ngram_wf kn" "vector_search_ok kn"
    "0 \<le> q" "block_rows kn \<le> 1 \<longrightarrow> q = 0" "0 \<le> numTokensLocal ub q" "numTokensLocal ub q \<le> max_seq_len kn"
  defines "ub' \<equiv> ComputeOneRow dev kn q ub"
  shows "ub_holds kn ub' q (ub_row kn ub q)"
    and "r \<noteq> q \<Longrightarrow> ub_row_input kn ub ub' r"
    and "r \<noteq> q \<Longrightarrow> ub_holds kn ub r row \<Longrightarrow> ub_holds kn ub' r row"
    and "numTokensLocal ub' = numTokensLocal ub" "discardLocal ub' = discardLocal ub"
proof -
  note le = ngram_wf_le [OF assms(2)]
  have mnt: "0 \<le> max_new_tokens kn" using assms(2) by (simp add: ngram_wf_def)
  obtain sx mk where eq: "ub' = ub\<lparr>
      tokenLocal := (\<lambda>i. if q * max_seq_len_align kn \<le> i \<and> i < q * max_seq_len_align kn + max_seq_len kn
                        then nr_tokens (ub_row kn ub q) (i - q * max_seq_len_align kn) else tokenLocal ub i),
      sampledLocal := fst (filter_sampled kn (discardLocal ub q) (q * max_new_tokens_align kn) (sampledLocal ub)),
      nextLocal := (nextLocal ub)(q := nr_next (ub_row kn ub q)),
      draftLocal := (\<lambda>i. if q * k_align kn \<le> i \<and> i < q * k_align kn + k_val kn
                        then nr_draft (ub_row kn ub q) (i - q * k_align kn) else draftLocal ub i),
      numValidLocal := (numValidLocal ub)(q := nr_valid (ub_row kn ub q)),
      suffixLocal := sx, maskLocal := mk\<rparr>"
    using ComputeOneRow_eq [OF assms(1-7)] unfolding ub'_def by blast
  show "ub_holds kn ub' q (ub_row kn ub q)" by (simp add: eq ub_holds_def)
  show "numTokensLocal ub' = numTokensLocal ub" "discardLocal ub' = discardLocal ub" by (simp_all add: eq)
  assume rq: "r \<noteq> q"
  note out = slot_outside [OF rq]
  show "ub_row_input kn ub ub' r"
    unfolding ub_row_input_def
  proof (intro conjI allI impI)
    fix i assume "0 \<le> i \<and> i < max_seq_len kn"
    then show "tokenLocal ub' (r * max_seq_len_align kn + i) = tokenLocal ub (r * max_seq_len_align kn + i)"
      using out [of i "max_seq_len kn" "max_seq_len_align kn"] le unfolding eq by auto
  next
    fix j assume "0 \<le> j \<and> j < max_new_tokens kn"
    then show "sampledLocal ub' (r * max_new_tokens_align kn + j) = sampledLocal ub (r * max_new_tokens_align kn + j)"
      using out [of j "max_new_tokens kn" "max_new_tokens_align kn"] le
      unfolding eq by (auto simp: filter_sampled_inv [OF mnt])
  qed
  assume h: "ub_holds kn ub r row"
  show "ub_holds kn ub' r row"
    unfolding ub_holds_def
  proof (intro conjI allI impI)
    fix i assume "0 \<le> i \<and> i < max_seq_len kn"
    then show "tokenLocal ub' (r * max_seq_len_align kn + i) = nr_tokens row i"
      using out [of i "max_seq_len kn" "max_seq_len_align kn"] le h unfolding eq by (auto simp: ub_holds_def)
  next
    fix j assume "0 \<le> j \<and> j < k_val kn"
    then show "draftLocal ub' (r * k_align kn + j) = nr_draft row j"
      using out [of j "k_val kn" "k_align kn"] le h unfolding eq by (auto simp: ub_holds_def)
  qed (use h rq in \<open>simp_all add: eq ub_holds_def\<close>)
qed

lemma ub_row_cong:
  assumes "ngram_wf kn" "ub_row_input kn ub ub' r" "numTokensLocal ub' r = numTokensLocal ub r"
    "discardLocal ub' r = discardLocal ub r" "0 \<le> numTokensLocal ub r" "numTokensLocal ub r \<le> max_seq_len kn"
  shows "row_agree kn (ub_row kn ub' r) (ub_row kn ub r)"
  unfolding ub_row_def assms(3,4) using assms(2)
  by (intro row_spec_cong assms) (auto simp: ub_row_input_def)

lemma ngram_Compute_rows:
  assumes "vec_compare (compare_eq dev)" "ngram_wf kn" "vector_search_ok kn"
    and rows: "0 \<le> rows" "block_rows kn \<le> 1 \<longrightarrow> rows \<le> 1"
    and len: "\<And>r. 0 \<le> r \<Longrightarrow> r < rows \<Longrightarrow> 0 \<le> numTokensLocal ub r \<and> numTokensLocal ub r \<le> max_seq_len kn"
  shows "\<forall>r. 0 \<le> r \<and> r < rows \<longrightarrow> ub_holds kn (ngram_Compute dev kn rows ub) r (ub_row kn ub r)"
proof -
  let ?P = "\<lambda>m ub'. numTokensLocal ub' = numTokensLocal ub \<and> discardLocal ub' = discardLocal ub \<and>
     (\<forall>r. 0 \<le> r \<and> r < m \<longrightarrow> ub_holds kn ub' r (ub_row kn ub r)) \<and> (\<forall>r. m \<le> r \<longrightarrow> ub_row_input kn ub ub' r)"
  have "?P rows (for_range 0 rows (ComputeOneRow dev kn) ub)"
  proof (rule for_range_inv [OF rows(1)])
    show "?P 0 ub" by (auto simp: ub_row_input_def)
  next
    fix m ub' assume m: "0 \<le> m" "m < rows" and P: "?P m ub'"
    have len': "0 \<le> numTokensLocal ub' m" "numTokensLocal ub' m \<le> max_seq_len kn" using P len [OF m] by auto
    have m0: "block_rows kn \<le> 1 \<longrightarrow> m = 0" using m rows by auto
    note row = ComputeOneRow_row [OF assms(1-3) m(1) m0 len']
    have "row_agree kn (ub_row kn ub' m) (ub_row kn ub m)"
      by (rule ub_row_cong [OF assms(2)]) (use P len [OF m] in auto)
    then have "ub_holds kn (ComputeOneRow dev kn m ub') m (ub_row kn ub m)"
      using row(1) ub_holds_agree by blast
    then have "ub_holds kn (ComputeOneRow dev kn m ub') r (ub_row kn ub r)" if "0 \<le> r" "r < m + 1" for r
      using row(3) [of r] P that by (cases "r = m") auto
    moreover have "ub_row_input kn ub (ComputeOneRow dev kn m ub') r" if "m + 1 \<le> r" for r
      using row(2) [of r] P that by (auto simp: ub_row_input_def)
    ultimately show "?P (m + 1) (ComputeOneRow dev kn m ub')"
      using row(4,5) P by auto
  qed
  then show ?thesis by (simp add: ngram_Compute_def)
qed


section \<open>Copies between GM and UB\<close>

lemma copy_row_in_row:
  fixes gm loc :: tensor and gmRow ubRow :: int
  assumes "dma_in (copy_in dev)" "0 < max_seq_len kn"
  defines "l \<equiv> copy_row_in dev kn gm gmRow ubRow loc"
  shows "\<And>i. 0 \<le> i \<Longrightarrow> i < max_seq_len kn \<Longrightarrow> l (ubRow + i) = gm (gmRow + i)"
    and "\<And>i. i < ubRow \<or> ubRow + align_up (max_seq_len kn) 8 \<le> i \<Longrightarrow> l i = loc i"
proof -
  let ?msl = "max_seq_len kn"
  let ?f = "\<lambda>off l. let chunk = (if off + 8192 \<le> ?msl then 8192 else ?msl - off)
                 in copy_in dev l (ubRow + off) gm (gmRow + off) chunk"
  let ?P = "\<lambda>off l. (\<forall>i. 0 \<le> i \<and> i < off \<and> i < ?msl \<longrightarrow> l (ubRow + i) = gm (gmRow + i)) \<and>
     (\<forall>i. i < ubRow \<or> ubRow + align_up ?msl 8 \<le> i \<longrightarrow> l i = loc i)"
  have "\<exists>j. ?msl \<le> j \<and> 0 \<le> j \<and> 8192 dvd (j - 0) \<and> ?P j (for_step 8192 ?msl ?f 0 loc)"
  proof (rule for_step_inv [where P = ?P])
    fix off l assume off: "0 \<le> off" "off < ?msl" "8192 dvd (off - 0)" and P: "?P off l"
    define c where "c = (if off + 8192 \<le> ?msl then 8192 else ?msl - off)"
    have c: "0 < c" "off + c \<le> ?msl" "c \<le> 8192" "c = 8192 \<or> off + c = ?msl" using off by (auto simp: c_def)
    have "8 dvd off" using off(3) by (auto intro: dvd_trans [of 8 8192])
    then have "off + align_up c 8 \<le> align_up ?msl 8"
    proof -
      have "align_up c 8 \<le> align_up ?msl 8 - off"
        by (rule align_up_least) (use c \<open>8 dvd off\<close> align_up_dvd align_up_ge [of 8 ?msl] in auto)
      then show ?thesis by simp
    qed
    then have frame: "copy_in dev l (ubRow + off) gm (gmRow + off) c i = l i"
      if "i < ubRow + off \<or> ubRow + align_up ?msl 8 \<le> i" for i
      using that c(1) by (intro dma_in.ci_frame [OF assms(1)]) auto
    have read: "copy_in dev l (ubRow + off) gm (gmRow + off) c (ubRow + i) = gm (gmRow + i)"
      if "off \<le> i" "i < off + c" for i
      using dma_in.ci_read [OF assms(1) c(1), of "ubRow + off" "ubRow + i" l gm "gmRow + off"] that by simp
    have "copy_in dev l (ubRow + off) gm (gmRow + off) c (ubRow + i) = gm (gmRow + i)"
      if "0 \<le> i" "i < off + 8192" "i < ?msl" for i
      using read [of i] frame [of "ubRow + i"] P that c by (cases "off \<le> i") auto
    then show "?P (off + 8192) (?f off l)"
      using frame P off(1) unfolding c_def [symmetric] Let_def by auto
  qed auto
  then show "\<And>i. 0 \<le> i \<Longrightarrow> i < max_seq_len kn \<Longrightarrow> l (ubRow + i) = gm (gmRow + i)"
    and "\<And>i. i < ubRow \<or> ubRow + align_up (max_seq_len kn) 8 \<le> i \<Longrightarrow> l i = loc i"
    unfolding l_def copy_row_in_def Let_def by auto
qed

text \<open>Rows loaded one by one into slots of a stride that covers the padding.\<close>

lemma rows_in:
  assumes stride: "0 < n" "n \<le> s"
    and read: "\<And>r l i. 0 \<le> i \<Longrightarrow> i < n \<Longrightarrow> f r l (r * s + i) = g r i"
    and frame: "\<And>r l i. i < r * s \<Longrightarrow> f r l i = l i"
    and rows: "0 \<le> rows"
  shows "\<forall>r i. 0 \<le> r \<and> r < rows \<and> 0 \<le> i \<and> i < n \<longrightarrow> for_range 0 rows f loc (r * s + i) = g r (i::int)"
proof (rule for_range_inv [OF rows, where P = "\<lambda>m l. \<forall>r i. 0 \<le> r \<and> r < m \<and> 0 \<le> i \<and> i < n \<longrightarrow> l (r * s + i) = g r i"])
  fix m l assume m: "0 \<le> m" "m < rows" and P: "\<forall>r i. 0 \<le> r \<and> r < m \<and> 0 \<le> i \<and> i < n \<longrightarrow> l (r * s + i) = g r i"
  show "\<forall>r i. 0 \<le> r \<and> r < m + 1 \<and> 0 \<le> i \<and> i < n \<longrightarrow> f m l (r * s + i) = g r i"
  proof (intro allI impI)
    fix r i assume h: "0 \<le> r \<and> r < m + 1 \<and> 0 \<le> i \<and> i < n"
    show "f m l (r * s + i) = g r i"
    proof (cases "r = m")
      case False
      then have "r * s + i < m * s" using h stride by (intro slot_before) auto
      then show ?thesis using frame P h False by simp
    qed (use read h in simp)
  qed
qed auto

lemma copy_row_out_eq:
  assumes "dma_out_exact (copy_out dev)" "0 < max_seq_len kn"
  shows "copy_row_out dev kn loc gmRow ubRow gm =
    (\<lambda>i. if gmRow \<le> i \<and> i < gmRow + max_seq_len kn then loc (ubRow + (i - gmRow)) else gm i)"
proof -
  let ?msl = "max_seq_len kn"
  let ?f = "\<lambda>off g. let chunk = (if off + 8192 \<le> ?msl then 8192 else ?msl - off)
                 in copy_out dev g (gmRow + off) loc (ubRow + off) chunk"
  let ?P = "\<lambda>off g. g = (\<lambda>i. if gmRow \<le> i \<and> i < gmRow + off \<and> i < gmRow + ?msl then loc (ubRow + (i - gmRow)) else gm i)"
  have "\<exists>j. ?msl \<le> j \<and> 0 \<le> j \<and> 8192 dvd (j - 0) \<and> ?P j (for_step 8192 ?msl ?f 0 gm)"
  proof (rule for_step_inv [where P = ?P])
    fix off g assume off: "0 \<le> off" "off < ?msl" "8192 dvd (off - 0)" and P: "?P off g"
    define c where "c = (if off + 8192 \<le> ?msl then 8192 else ?msl - off)"
    have c: "0 < c" "off + c \<le> ?msl" "c \<le> 8192" "off + 8192 \<le> ?msl \<or> off + c = ?msl" "off + c = ?msl \<or> c = 8192"
      using off by (auto simp: c_def)
    show "?P (off + 8192) (?f off g)"
      unfolding c_def [symmetric] Let_def
    proof
      fix i
      show "copy_out dev g (gmRow + off) loc (ubRow + off) c i = (if gmRow \<le> i \<and> i < gmRow + (off + 8192) \<and> i < gmRow + ?msl
        then loc (ubRow + (i - gmRow)) else gm i)"
        unfolding dma_out_exact.co_exact [OF assms(1) c(1)] using P c off by auto
    qed
  qed auto
  then show ?thesis unfolding copy_row_out_def Let_def by (auto simp: fun_eq_iff)
qed

text \<open>Rows of length \<open>n\<close> stored one by one into consecutive rows of GM.\<close>

lemma rows_out:
  assumes n: "0 < n" and rows: "0 \<le> rows"
    and f: "\<And>r (g :: tensor). f r g = (\<lambda>i. if (s + r) * n \<le> i \<and> i < (s + r) * n + n then loc r (i - (s + r) * n) else g i)"
  shows "\<forall>q i. 0 \<le> i \<and> i < n \<longrightarrow> for_range 0 rows f gm (q * n + i) =
    (if s \<le> q \<and> q < s + rows then loc (q - s) i else gm (q * n + i))"
proof (rule for_range_inv [OF rows, where P = "\<lambda>m g. \<forall>q i. 0 \<le> i \<and> i < n \<longrightarrow> g (q * n + i) =
    (if s \<le> q \<and> q < s + m then loc (q - s) i else gm (q * n + i))"])
  fix m g assume m: "0 \<le> m" "m < rows"
    and P: "\<forall>q i. 0 \<le> i \<and> i < n \<longrightarrow> g (q * n + i) = (if s \<le> q \<and> q < s + m then loc (q - s) i else gm (q * n + i))"
  show "\<forall>q i. 0 \<le> i \<and> i < n \<longrightarrow> f m g (q * n + i) = (if s \<le> q \<and> q < s + (m + 1) then loc (q - s) i else gm (q * n + i))"
  proof (intro allI impI)
    fix q i assume h: "0 \<le> i \<and> i < n"
    have "f m g (q * n + i) = (if s + m = q then loc m (q * n + i - (s + m) * n) else g (q * n + i))"
      unfolding f using slot_iff [of i n "s + m" q] h by auto
    then show "f m g (q * n + i) = (if s \<le> q \<and> q < s + (m + 1) then loc (q - s) i else gm (q * n + i))"
      using P h m by (cases "q = s + m") auto
  qed
qed auto


section \<open>A block of rows\<close>

definition gm_row :: "ngram_kernel \<Rightarrow> ngram_gm \<Rightarrow> int \<Rightarrow> ngram_row" where
  "gm_row kn gm q = row_spec longest_match kn (\<lambda>i. tokenGm gm (q * max_seq_len kn + i))
     (numTokensGm gm q) (\<lambda>j. sampledGm gm (q * max_new_tokens kn + j)) (discardGm gm q)"

text \<open>The outputs of row \<open>q\<close> are those of a reference row.\<close>

definition gm_holds :: "ngram_kernel \<Rightarrow> ngram_gm \<Rightarrow> int \<Rightarrow> ngram_row \<Rightarrow> bool" where
  "gm_holds kn gm q row \<longleftrightarrow>
     (\<forall>i. 0 \<le> i \<and> i < max_seq_len kn \<longrightarrow> tokenGm gm (q * max_seq_len kn + i) = nr_tokens row i) \<and>
     nextTokensGm gm q = nr_next row \<and>
     (\<forall>j. 0 \<le> j \<and> j < k_val kn \<longrightarrow> draftTokensGm gm (q * k_val kn + j) = nr_draft row j) \<and>
     numValidGm gm q = nr_valid row"

text \<open>Row \<open>q\<close> of the four outputs is what it was, and so are the inputs.\<close>

definition gm_row_same :: "ngram_kernel \<Rightarrow> ngram_gm \<Rightarrow> ngram_gm \<Rightarrow> int \<Rightarrow> bool" where
  "gm_row_same kn gm gm' q \<longleftrightarrow>
     (\<forall>i. 0 \<le> i \<and> i < max_seq_len kn \<longrightarrow> tokenGm gm' (q * max_seq_len kn + i) = tokenGm gm (q * max_seq_len kn + i)) \<and>
     nextTokensGm gm' q = nextTokensGm gm q \<and>
     (\<forall>j. 0 \<le> j \<and> j < k_val kn \<longrightarrow> draftTokensGm gm' (q * k_val kn + j) = draftTokensGm gm (q * k_val kn + j)) \<and>
     numValidGm gm' q = numValidGm gm q"

definition gm_inputs_same :: "ngram_gm \<Rightarrow> ngram_gm \<Rightarrow> bool" where
  "gm_inputs_same gm gm' \<longleftrightarrow> numTokensGm gm' = numTokensGm gm \<and> sampledGm gm' = sampledGm gm \<and> discardGm gm' = discardGm gm"

definition gm_len_ok :: "ngram_kernel \<Rightarrow> ngram_gm \<Rightarrow> int \<Rightarrow> bool" where
  "gm_len_ok kn gm q \<longleftrightarrow> 0 \<le> numTokensGm gm q \<and> numTokensGm gm q \<le> max_seq_len kn"

lemma gm_row_cong:
  assumes "ngram_wf kn" "gm_row_same kn gm gm' q" "gm_inputs_same gm gm'" "gm_len_ok kn gm q"
  shows "row_agree kn (gm_row kn gm' q) (gm_row kn gm q)"
proof -
  have i: "numTokensGm gm' = numTokensGm gm" "sampledGm gm' = sampledGm gm" "discardGm gm' = discardGm gm"
    using assms(3) by (auto simp: gm_inputs_same_def)
  show ?thesis unfolding gm_row_def i
    by (rule row_spec_cong) (use assms in \<open>auto simp: gm_row_same_def gm_len_ok_def\<close>)
qed

lemma gm_holds_agree: "gm_holds kn gm q a \<Longrightarrow> row_agree kn a b \<Longrightarrow> gm_holds kn gm q b"
  by (simp add: gm_holds_def row_agree_def)

lemma gm_holds_same: "gm_holds kn gm q a \<Longrightarrow> gm_row_same kn gm gm' q \<Longrightarrow> gm_holds kn gm' q a"
  by (simp add: gm_holds_def gm_row_same_def)

lemma ngram_CopyIn_rows:
  fixes gm :: ngram_gm and ub :: ngram_ub and start :: int
  assumes "dma_in (copy_in dev)" "ngram_wf kn" "0 < rows"
  defines "ub' \<equiv> ngram_CopyIn dev kn gm start rows ub"
  assumes r: "0 \<le> r" "r < rows"
  shows "numTokensLocal ub' r = numTokensGm gm (start + r)"
    and "gm_len_ok kn gm (start + r) \<Longrightarrow> row_agree kn (ub_row kn ub' r) (gm_row kn gm (start + r))"
proof -
  have pos: "0 < max_seq_len kn" "0 < max_new_tokens kn" using assms(2) by (auto simp: ngram_wf_def)
  note le = ngram_wf_le [OF assms(2)]
  have al: "max_new_tokens_align kn = align_up (max_new_tokens kn) 8" "max_seq_len_align kn = align_up (max_seq_len kn) 8"
    using assms(2) by (auto simp: ngram_wf_def)
  show num: "numTokensLocal ub' r = numTokensGm gm (start + r)"
    using dma_in.ci_read [OF assms(1) \<open>0 < rows\<close>, of 0 r] r by (simp add: ub'_def ngram_CopyIn_def Let_def)
  have dis: "discardLocal ub' r = discardGm gm (start + r)"
    using dma_in.ci_read [OF assms(1) \<open>0 < rows\<close>, of 0 r] r by (simp add: ub'_def ngram_CopyIn_def Let_def)
  have tok: "tokenLocal ub' (r * max_seq_len_align kn + i) = tokenGm gm ((start + r) * max_seq_len kn + i)"
    if "0 \<le> i" "i < max_seq_len kn" for i
    using rows_in [of "max_seq_len kn" "max_seq_len_align kn"
        "\<lambda>r. copy_row_in dev kn (tokenGm gm) ((start + r) * max_seq_len kn) (r * max_seq_len_align kn)"
        "\<lambda>r i. tokenGm gm ((start + r) * max_seq_len kn + i)" rows "tokenLocal ub"]
      copy_row_in_row [OF assms(1) pos(1)] pos le r that \<open>0 < rows\<close>
    by (simp add: ub'_def ngram_CopyIn_def Let_def)
  have smp: "sampledLocal ub' (r * max_new_tokens_align kn + j) = sampledGm gm ((start + r) * max_new_tokens kn + j)"
    if "0 \<le> j" "j < max_new_tokens kn" for j
    using rows_in [of "max_new_tokens kn" "max_new_tokens_align kn"
        "\<lambda>r l. copy_in dev l (r * max_new_tokens_align kn) (sampledGm gm) ((start + r) * max_new_tokens kn) (max_new_tokens kn)"
        "\<lambda>r j. sampledGm gm ((start + r) * max_new_tokens kn + j)" rows "sampledLocal ub"]
      dma_in.ci_read [OF assms(1) pos(2)] dma_in.ci_frame [OF assms(1) pos(2)] pos le r that \<open>0 < rows\<close>
    by (simp add: ub'_def ngram_CopyIn_def Let_def)
  assume "gm_len_ok kn gm (start + r)"
  then show "row_agree kn (ub_row kn ub' r) (gm_row kn gm (start + r))"
    unfolding ub_row_def gm_row_def num dis using tok smp
    by (intro row_spec_cong assms(2)) (auto simp: gm_len_ok_def)
qed

lemma ngram_CopyOut_rows:
  fixes gm :: ngram_gm and ub :: ngram_ub and start :: int
  assumes "dma_out_exact (copy_out dev)" "ngram_wf kn" "0 < rows"
  defines "gm' \<equiv> ngram_CopyOut dev kn ub start rows gm"
  shows "start \<le> q \<Longrightarrow> q < start + rows \<Longrightarrow> ub_holds kn ub (q - start) row \<Longrightarrow> gm_holds kn gm' q row"
    and "\<not> (start \<le> q \<and> q < start + rows) \<Longrightarrow> gm_row_same kn gm gm' q"
    and "gm_inputs_same gm gm'"
proof -
  have pos: "0 < max_seq_len kn" "0 < k_val kn" using assms(2) by (auto simp: ngram_wf_def)
  note ex = dma_out_exact.co_exact [OF assms(1)]
  have out: "tokenGm gm' = for_range 0 rows (\<lambda>r. copy_row_out dev kn (tokenLocal ub) ((start + r) * max_seq_len kn)
      (r * max_seq_len_align kn)) (tokenGm gm)"
    "draftTokensGm gm' = for_range 0 rows (\<lambda>r g. copy_out dev g ((start + r) * k_val kn) (draftLocal ub)
      (r * k_align kn) (k_val kn)) (draftTokensGm gm)"
    by (simp_all add: gm'_def ngram_CopyOut_def Let_def)
  have tok: "\<forall>q i. 0 \<le> i \<and> i < max_seq_len kn \<longrightarrow> tokenGm gm' (q * max_seq_len kn + i) =
     (if start \<le> q \<and> q < start + rows then tokenLocal ub ((q - start) * max_seq_len_align kn + i)
      else tokenGm gm (q * max_seq_len kn + i))"
    unfolding out(1)
    by (rule rows_out [OF pos(1), where loc = "\<lambda>r i. tokenLocal ub (r * max_seq_len_align kn + i)"])
       (use assms(3) in \<open>auto simp: copy_row_out_eq [OF assms(1) pos(1)] fun_eq_iff\<close>)
  have dr: "\<forall>q i. 0 \<le> i \<and> i < k_val kn \<longrightarrow> draftTokensGm gm' (q * k_val kn + i) =
     (if start \<le> q \<and> q < start + rows then draftLocal ub ((q - start) * k_align kn + i)
      else draftTokensGm gm (q * k_val kn + i))"
    unfolding out(2)
    by (rule rows_out [OF pos(2), where loc = "\<lambda>r i. draftLocal ub (r * k_align kn + i)"])
       (use assms(3) in \<open>auto simp: ex [OF pos(2)] fun_eq_iff\<close>)
  have nx: "nextTokensGm gm' q = (if start \<le> q \<and> q < start + rows then nextLocal ub (q - start) else nextTokensGm gm q)"
    "numValidGm gm' q = (if start \<le> q \<and> q < start + rows then numValidLocal ub (q - start) else numValidGm gm q)" for q
    using ex [OF assms(3)] by (simp_all add: gm'_def ngram_CopyOut_def Let_def)
  show "gm_inputs_same gm gm'" by (simp add: gm_inputs_same_def gm'_def ngram_CopyOut_def Let_def)
  show "gm_holds kn gm' q row" if "start \<le> q" "q < start + rows" "ub_holds kn ub (q - start) row"
    using that tok dr nx by (simp add: gm_holds_def ub_holds_def)
  show "gm_row_same kn gm gm' q" if "\<not> (start \<le> q \<and> q < start + rows)"
    using that tok dr nx by (auto simp: gm_row_same_def)
qed

text \<open>
  The rows of the set \<open>R\<close> of \<open>gm'\<close> are the reference rows of \<open>gm\<close>, the others and the inputs are those of
  \<open>gm\<close>.
\<close>

definition rows_decoded :: "ngram_kernel \<Rightarrow> ngram_gm \<Rightarrow> ngram_gm \<Rightarrow> int set \<Rightarrow> bool" where
  "rows_decoded kn gm gm' R \<longleftrightarrow> gm_inputs_same gm gm' \<and> (\<forall>q \<in> R. gm_holds kn gm' q (gm_row kn gm q)) \<and>
     (\<forall>q. q \<notin> R \<longrightarrow> gm_row_same kn gm gm' q)"

lemma ngram_block_rows:
  assumes dev: "npu_exact dev" and wf: "ngram_wf kn" "vector_search_ok kn" "\<not> is_large_row kn"
    and rows: "0 < rows" "block_rows kn \<le> 1 \<longrightarrow> rows \<le> 1"
    and len: "\<And>q. start \<le> q \<Longrightarrow> q < start + rows \<Longrightarrow> gm_len_ok kn gm q"
  shows "\<exists>gm' ub'. ngram_block dev kn start rows (gm, ub) = (gm', ub') \<and>
     rows_decoded kn gm gm' {start ..< start + rows}"
proof -
  have d: "dma_in (copy_in dev)" "dma_out_exact (copy_out dev)" "vec_compare (compare_eq dev)"
    using dev by (auto simp: npu_exact_def)
  define ub1 where "ub1 = ngram_CopyIn dev kn gm start rows ub"
  define ub2 where "ub2 = ngram_Compute dev kn rows ub1"
  note cin = ngram_CopyIn_rows [OF d(1) wf(1) rows(1), where start = start and ub = ub and gm = gm, folded ub1_def]
  have "\<forall>r. 0 \<le> r \<and> r < rows \<longrightarrow> ub_holds kn ub2 r (ub_row kn ub1 r)"
    unfolding ub2_def
    by (rule ngram_Compute_rows [OF d(3) wf(1,2)])
       (use rows cin(1) len in \<open>auto simp: gm_len_ok_def ub1_def\<close>)
  then have "ub_holds kn ub2 (q - start) (ub_row kn ub1 (q - start))" if "start \<le> q" "q < start + rows" for q
    using that by simp
  moreover have "row_agree kn (ub_row kn ub1 (q - start)) (gm_row kn gm q)" if "start \<le> q" "q < start + rows" for q
    using cin(2) [of "q - start"] len [OF that] that by (simp add: ub1_def)
  ultimately have "ub_holds kn ub2 (q - start) (gm_row kn gm q)" if "start \<le> q" "q < start + rows" for q
    using that ub_holds_agree by blast
  moreover have "ngram_block dev kn start rows (gm, ub) = (ngram_CopyOut dev kn ub2 start rows gm, ub2)"
    using wf(3) by (simp add: ngram_block_def ub1_def ub2_def Let_def)
  ultimately show ?thesis
    using ngram_CopyOut_rows [OF d(2) wf(1) rows(1), where start = start and ub = ub2 and gm = gm]
    by (auto simp: rows_decoded_def)
qed


section \<open>The loop of a core\<close>

lemma rows_decoded_empty: "rows_decoded kn gm gm {}"
  by (simp add: rows_decoded_def gm_inputs_same_def gm_row_same_def)

lemma rows_decoded_trans:
  assumes "ngram_wf kn" and ab: "rows_decoded kn a b R" and bc: "rows_decoded kn b c S" and "R \<inter> S = {}"
    and len: "\<And>q. q \<in> S \<Longrightarrow> gm_len_ok kn a q"
  shows "rows_decoded kn a c (R \<union> S)"
  unfolding rows_decoded_def
proof (intro conjI ballI allI impI)
  show "gm_inputs_same a c" using ab bc by (simp add: rows_decoded_def gm_inputs_same_def)
next
  fix q assume "q \<in> R \<union> S"
  then consider "q \<in> R" "q \<notin> S" | "q \<in> S" "q \<notin> R" using assms(4) by blast
  then show "gm_holds kn c q (gm_row kn a q)"
  proof cases
    case 1
    then show ?thesis using ab bc gm_holds_same by (auto simp: rows_decoded_def)
  next
    case 2
    then have "row_agree kn (gm_row kn b q) (gm_row kn a q)"
      using ab len assms(1) by (intro gm_row_cong) (auto simp: rows_decoded_def)
    moreover have "gm_holds kn c q (gm_row kn b q)" using bc 2 by (simp add: rows_decoded_def)
    ultimately show ?thesis using gm_holds_agree by blast
  qed
next
  fix q assume "q \<notin> R \<union> S"
  then show "gm_row_same kn a c q" using ab bc by (auto simp: rows_decoded_def gm_row_same_def)
qed

lemma gm_len_ok_inputs: "gm_inputs_same gm gm' \<Longrightarrow> gm_len_ok kn gm' q = gm_len_ok kn gm q"
  by (simp add: gm_inputs_same_def gm_len_ok_def)

lemma ngram_Process_loop_rows:
  assumes dev: "npu_exact dev" and wf: "ngram_wf kn" "vector_search_ok kn" "\<not> is_large_row kn"
    and br: "1 \<le> block_rows kn" "block_rows kn < U32_LIM"
  shows "0 \<le> rem \<Longrightarrow> (\<And>q. row_offset kn + off \<le> q \<Longrightarrow> q < row_offset kn + off + rem \<Longrightarrow> gm_len_ok kn gm q) \<Longrightarrow>
    \<exists>gm' ub'. ngram_Process_loop dev kn off rem (gm, ub) = Some (gm', ub') \<and>
      rows_decoded kn gm gm' {row_offset kn + off ..< row_offset kn + off + rem}"
proof (induction "nat rem" arbitrary: rem off gm ub rule: less_induct)
  case less
  show ?case
  proof (cases "rem = 0")
    case True
    then show ?thesis by (subst ngram_Process_loop.simps) (simp add: rows_decoded_empty)
  next
    case False
    define c where "c = (if rem > u32 (block_rows kn) then u32 (block_rows kn) else rem)"
    have c: "0 < c" "c \<le> rem" "block_rows kn \<le> 1 \<longrightarrow> c \<le> 1"
      using False less.prems(1) br by (auto simp: c_def u32_id)
    let ?s = "row_offset kn + off"
    have len: "gm_len_ok kn gm q" if "?s \<le> q" "q < ?s + c" for q using less.prems(2) that c by auto
    obtain gm1 ub1 where b: "ngram_block dev kn ?s c (gm, ub) = (gm1, ub1)"
      and d1: "rows_decoded kn gm gm1 {?s ..< ?s + c}"
      using ngram_block_rows [OF dev wf c(1,3), of ?s gm ub] len by blast
    have i: "gm_inputs_same gm gm1" using d1 by (simp add: rows_decoded_def)
    obtain gm' ub' where r: "ngram_Process_loop dev kn (off + c) (rem - c) (gm1, ub1) = Some (gm', ub')"
      and d2: "rows_decoded kn gm1 gm' {row_offset kn + (off + c) ..< row_offset kn + (off + c) + (rem - c)}"
      using less.hyps [of "rem - c" "off + c" gm1 ub1] c less.prems gm_len_ok_inputs [OF i] by force
    have "rows_decoded kn gm gm' ({?s ..< ?s + c} \<union> {row_offset kn + (off + c) ..< row_offset kn + (off + c) + (rem - c)})"
      by (rule rows_decoded_trans [OF wf(1) d1 d2]) (use less.prems(2) c in auto)
    moreover have "{?s ..< ?s + c} \<union> {row_offset kn + (off + c) ..< row_offset kn + (off + c) + (rem - c)} = {?s ..< ?s + rem}"
      using c by auto
    ultimately have "rows_decoded kn gm gm' {?s ..< ?s + rem}" by simp
    moreover have "ngram_Process_loop dev kn off rem (gm, ub) = Some (gm', ub')"
      using False less.prems(1) b r by (subst ngram_Process_loop.simps) (simp add: Let_def c_def [symmetric])
    ultimately show ?thesis by blast
  qed
qed


end
