(* ===== verification/NgramLaunch.thy ===== *)
theory NgramLaunch
  imports NgramRows
begin

text \<open>
  The host tiling of n-gram speculative decoding gives every row to exactly one core, and a launch
  decodes every row as the reference does, in whatever order the cores finish.
\<close>

section \<open>The tiling\<close>

text \<open>The rows a core takes, and the inputs of the tiling function the theorems cover.\<close>

definition core_rows :: "ngram_info \<Rightarrow> int \<Rightarrow> int set" where
  "core_rows t b = {row_offset (ngram_Init t b) ..< row_offset (ngram_Init t b) + my_rows (ngram_Init t b)}"

abbreviation I32_LIM :: int where
  "I32_LIM \<equiv> 2147483648"

definition ngram_inputs :: "ngram_context \<Rightarrow> int \<Rightarrow> int \<Rightarrow> int \<Rightarrow> int \<Rightarrow> int \<Rightarrow> int \<Rightarrow> int \<Rightarrow> bool" where
  "ngram_inputs c B S M V lo hi k \<longleftrightarrow>
     nc_tilingData c \<and> nc_attrs c = Some (Some V, Some lo, Some hi, Some k) \<and>
     nc_tokenIdsShape c = Some [B, S] \<and> nc_sampledShape c = Some [B, M] \<and>
     0 < nc_aivNum c \<and> nc_aivNum c < U32_LIM \<and>
     0 < B \<and> B < I32_LIM \<and> 0 < S \<and> S < I32_LIM - 8 \<and> 0 < M \<and> M < I32_LIM - 8 \<and> 0 < k \<and> k < I32_LIM - 8 \<and>
     0 \<le> V \<and> V < I32_LIM \<and> 1 \<le> lo \<and> lo < I32_LIM \<and> 0 \<le> hi \<and> hi < I32_LIM"

lemma ngram_tiling_result:
  assumes "ngram_inputs c B S M V lo hi k"
  obtains br where "1 \<le> br" "br \<le> B"
    "NgramSpecDecodeTilingFunc c = Some (GRAPH_SUCCESS (
       \<lparr>ni_batchSize = B, ni_maxSeqLen = S, ni_maxNewTokens = M, ni_vocabSize = V, ni_minN = lo, ni_maxN = hi,
        ni_k = k, ni_formerNum = min B (nc_aivNum c) - 1, ni_rowsPerCore = B div min B (nc_aivNum c),
        ni_tailRows = B - (min B (nc_aivNum c) - 1) * (B div min B (nc_aivNum c)), ni_blockRows = br\<rparr>,
       min B (nc_aivNum c)))"
proof -
  define dim where "dim = min B (nc_aivNum c)"
  define rpc where "rpc = B div dim"
  define upr where "upr = (tdiv (S + 8 - 1) 8 * 8 + tdiv (M + 8 - 1) 8 * 8 + tdiv (k + 8 - 1) 8 * 8) * 4"
  define ua where "ua = nc_ubSize c - (4 * 32 + hi * 4 + tdiv (tdiv (S + 8 - 1) 8 * 8 + 7) 8)"
  have dim: "1 \<le> dim" "dim \<le> B" using assms by (auto simp: ngram_inputs_def dim_def)
  have bound: "S \<le> tdiv (S + 8 - 1) 8 * 8" "0 \<le> tdiv (M + 8 - 1) 8 * 8" "0 \<le> tdiv (k + 8 - 1) 8 * 8"
    using assms align_up_ge [of 8 S] by (auto simp: ngram_inputs_def tdiv_pos align_up_def)
  then have upr: "0 < upr" using assms by (auto simp: ngram_inputs_def upr_def)
  obtain mbr where mbr: "(if ua > 0 then cdiv ua upr else Some 1) = Some mbr"
    using upr by (cases "if ua > 0 then cdiv ua upr else Some 1") (auto split: if_splits)
  have "dim * rpc + B mod dim = B" unfolding rpc_def by simp
  moreover have "0 \<le> B mod dim" using dim by simp
  moreover have "1 \<le> rpc" "rpc \<le> B" "cdiv B dim = Some rpc"
    using dim pos_imp_zdiv_pos_iff [of dim B] zdiv_mono2 [of B 1 dim]
    by (auto simp: rpc_def cdiv_pos int_one_le_iff_zero_less)
  ultimately have rpc: "1 \<le> rpc" "rpc \<le> B" "cdiv B dim = Some rpc" "dim * rpc \<le> B" by linarith+
  have tail: "0 \<le> B - (dim - 1) * rpc" "B - (dim - 1) * rpc \<le> B"
    using rpc dim by (auto simp: algebra_simps)
  have tail_u32: "u32 (B - (dim - 1) * rpc) = B - (dim - 1) * rpc"
    using tail assms by (intro u32_id) (auto simp: ngram_inputs_def)
  define br where "br = min rpc (max mbr 1)"
  have br: "1 \<le> br" "br \<le> B" using rpc by (auto simp: br_def)
  have lim: "B < U32_LIM" "S < U32_LIM" "M < U32_LIM" "V < U32_LIM" "lo < U32_LIM" "hi < U32_LIM" "k < U32_LIM"
    "0 < B" "0 < S" "0 < M" "0 \<le> V" "1 \<le> lo" "0 \<le> hi" "0 < k" "dim < U32_LIM"
    using assms dim by (auto simp: ngram_inputs_def)
  have "ngram_tile V lo hi k B S M (nc_aivNum c) (nc_ubSize c) = Some (
       \<lparr>ni_batchSize = B, ni_maxSeqLen = S, ni_maxNewTokens = M, ni_vocabSize = V, ni_minN = lo, ni_maxN = hi,
        ni_k = k, ni_formerNum = dim - 1, ni_rowsPerCore = rpc,
        ni_tailRows = B - (dim - 1) * rpc, ni_blockRows = br\<rparr>, dim)"
    unfolding ngram_tile_def Let_def dim_def [symmetric] upr_def [symmetric] ua_def [symmetric] mbr
    using dim rpc lim br by (simp add: u32_id tail_u32 br_def [symmetric])
  then have "NgramSpecDecodeTilingFunc c = Some (GRAPH_SUCCESS (
       \<lparr>ni_batchSize = B, ni_maxSeqLen = S, ni_maxNewTokens = M, ni_vocabSize = V, ni_minN = lo, ni_maxN = hi,
        ni_k = k, ni_formerNum = dim - 1, ni_rowsPerCore = rpc,
        ni_tailRows = B - (dim - 1) * rpc, ni_blockRows = br\<rparr>, dim))"
    using assms by (simp add: NgramSpecDecodeTilingFunc_def ngram_inputs_def vget_def)
  from that [OF br this [unfolded dim_def rpc_def]] show ?thesis .
qed


lemma ngram_Init_rows:
  assumes "ngram_inputs c B S M V lo hi k" "NgramSpecDecodeTilingFunc c = Some (GRAPH_SUCCESS (t, dim))"
    and b: "0 \<le> b" "b < dim"
  shows "row_offset (ngram_Init t b) = b * (B div dim)"
    and "my_rows (ngram_Init t b) = (if b < dim - 1 then B div dim else B - (dim - 1) * (B div dim))"
    and "dim = min B (nc_aivNum c)" "ni_formerNum t = dim - 1" "ni_rowsPerCore t = B div dim"
      "ni_tailRows t = B - (dim - 1) * (B div dim)"
proof -
  from ngram_tiling_result [OF assms(1)] obtain br where
    "NgramSpecDecodeTilingFunc c = Some (GRAPH_SUCCESS (
       \<lparr>ni_batchSize = B, ni_maxSeqLen = S, ni_maxNewTokens = M, ni_vocabSize = V, ni_minN = lo, ni_maxN = hi,
        ni_k = k, ni_formerNum = min B (nc_aivNum c) - 1, ni_rowsPerCore = B div min B (nc_aivNum c),
        ni_tailRows = B - (min B (nc_aivNum c) - 1) * (B div min B (nc_aivNum c)), ni_blockRows = br\<rparr>,
       min B (nc_aivNum c)))" by blast
  then show d: "dim = min B (nc_aivNum c)"
    and t': "ni_formerNum t = dim - 1" "ni_rowsPerCore t = B div dim" "ni_tailRows t = B - (dim - 1) * (B div dim)"
    using assms(2) by auto
  have dim: "1 \<le> dim" "dim \<le> B" "B < I32_LIM" using assms(1) by (auto simp: ngram_inputs_def d)
  define rpc where "rpc = B div dim"
  have "dim * rpc + B mod dim = B" unfolding rpc_def by simp
  moreover have "0 \<le> B mod dim" using dim by simp
  moreover have "0 \<le> rpc" "rpc \<le> B"
    using dim zdiv_mono2 [of B 1 dim] by (auto simp: rpc_def pos_imp_zdiv_nonneg_iff)
  ultimately have rpc: "0 \<le> rpc" "rpc \<le> B" "dim * rpc \<le> B" by linarith+
  have br: "0 \<le> b * rpc" "b * rpc \<le> B" "0 \<le> B - (dim - 1) * rpc" "B - (dim - 1) * rpc \<le> B"
    using rpc b dim mult_right_mono [of b dim rpc] mult_right_mono [of 1 dim rpc] by (auto simp: algebra_simps)
  have i32: "i32 (B - (dim - 1) * rpc) = B - (dim - 1) * rpc" "u32 (B - (dim - 1) * rpc) = B - (dim - 1) * rpc"
    "u32 (b * rpc) = b * rpc" "i32 rpc = rpc" "u32 rpc = rpc" "i32 (dim - 1) = dim - 1" "u32 (dim - 1) = dim - 1"
    by ((rule i32_id | rule u32_id); use br rpc dim in linarith)+
  note t = t' [folded rpc_def]
  show "row_offset (ngram_Init t b) = b * (B div dim)"
    "my_rows (ngram_Init t b) = (if b < dim - 1 then B div dim else B - (dim - 1) * (B div dim))"
    using b i32 unfolding ngram_Init_def Let_def t rpc_def [symmetric]
    by (cases "b = dim - 1"; simp add: mult.commute)+
qed


text \<open>Every row belongs to exactly one core.\<close>

lemma core_rows_partition:
  assumes "ngram_inputs c B S M V lo hi k" "NgramSpecDecodeTilingFunc c = Some (GRAPH_SUCCESS (t, dim))"
  shows "(\<Union>b\<in>{0..<dim}. core_rows t b) = {0..<B}"
    and "0 \<le> a \<Longrightarrow> a < b \<Longrightarrow> b < dim \<Longrightarrow> core_rows t a \<inter> core_rows t b = {}"
proof -
  note init = ngram_Init_rows [OF assms]
  have d: "1 \<le> dim" "dim \<le> B"
  proof -
    have "dim = min B (nc_aivNum c)"
      using ngram_tiling_result [OF assms(1)] assms(2) by (metis Pair_inject graph_status.inject option.inject)
    then show "1 \<le> dim" "dim \<le> B" using assms(1) by (auto simp: ngram_inputs_def)
  qed
  define rpc where "rpc = B div dim"
  have eq: "dim * rpc + B mod dim = B" unfolding rpc_def by simp
  have "0 \<le> B mod dim" "0 \<le> rpc" using d by (auto simp: rpc_def pos_imp_zdiv_nonneg_iff)
  then have rpc: "0 \<le> rpc" "dim * rpc \<le> B" using eq by linarith+
  have rpc1: "1 \<le> rpc" using d pos_imp_zdiv_pos_iff [of dim B] by (simp add: rpc_def)
  have cr: "core_rows t b = {b * rpc ..< (if b < dim - 1 then (b + 1) * rpc else B)}" if "0 \<le> b" "b < dim" for b
  proof -
    have "b = dim - 1" if "\<not> b < dim - 1" using that \<open>b < dim\<close> by simp
    then show ?thesis unfolding core_rows_def init(1,2) [OF that] rpc_def [symmetric]
      by (auto simp: algebra_simps)
  qed
  show "core_rows t a \<inter> core_rows t b = {}" if "0 \<le> a" "a < b" "b < dim"
  proof -
    have "(a + 1) * rpc \<le> b * rpc" using that rpc by (intro mult_right_mono) auto
    then show ?thesis using cr [of a] cr [of b] that by auto
  qed
  show "(\<Union>b\<in>{0..<dim}. core_rows t b) = {0..<B}"
  proof (intro equalityI subsetI)
    fix q assume "q \<in> (\<Union>b\<in>{0..<dim}. core_rows t b)"
    then obtain b where b: "0 \<le> b" "b < dim" "q \<in> core_rows t b" by auto
    have "0 \<le> b * rpc" using b rpc by simp
    moreover have "(b + 1) * rpc \<le> dim * rpc" using b rpc by (intro mult_right_mono) auto
    ultimately show "q \<in> {0..<B}" using b(3) cr [OF b(1,2)] rpc by (auto split: if_splits)
  next
    fix q assume q: "q \<in> {0..<B}"
    define b where "b = min (q div rpc) (dim - 1)"
    have b: "0 \<le> b" "b < dim" using q d rpc1 by (auto simp: b_def pos_imp_zdiv_nonneg_iff)
    have qq: "rpc * (q div rpc) + q mod rpc = q" by simp
    have "0 \<le> q mod rpc" "q mod rpc < rpc" using rpc1 by auto
    then have m: "rpc * (q div rpc) \<le> q" "q < rpc * (q div rpc) + rpc" using qq by linarith+
    have "q \<in> core_rows t b"
    proof (cases "q div rpc < dim - 1")
      case True
      then have "b = q div rpc" by (simp add: b_def)
      then show ?thesis using cr [OF b] True m by (simp add: algebra_simps)
    next
      case False
      then have b': "b = dim - 1" by (simp add: b_def)
      have "(dim - 1) * rpc \<le> q div rpc * rpc" using False rpc by (intro mult_right_mono) auto
      then have "b * rpc \<le> q" using m(1) b' by (metis mult.commute order_trans)
      then show ?thesis using cr [OF b] b' q by simp
    qed
    then show "q \<in> (\<Union>b\<in>{0..<dim}. core_rows t b)" using b by auto
  qed
qed


section \<open>The launch\<close>

lemma rows_decoded_kernel:
  "rows_decoded (kn\<lparr>my_rows := x, row_offset := y\<rparr>) = rows_decoded kn"
proof -
  let ?k = "kn\<lparr>my_rows := x, row_offset := y\<rparr>"
  have f: "max_seq_len ?k = max_seq_len kn" "max_new_tokens ?k = max_new_tokens kn" "k_val ?k = k_val kn"
    "min_n_val ?k = min_n_val kn" "max_n_val ?k = max_n_val kn" by simp_all
  have keep: "keep_token ?k = keep_token kn" by (simp add: keep_token_def fun_eq_iff)
  have valid: "valid_tokens ?k = valid_tokens kn" by (simp add: valid_tokens_def keep fun_eq_iff)
  show ?thesis unfolding rows_decoded_def gm_holds_def gm_row_def gm_row_same_def row_spec_def f keep valid ..
qed

lemma ngram_Init_core:
  "ngram_Init t b = (ngram_Init t 0)\<lparr>my_rows := my_rows (ngram_Init t b), row_offset := row_offset (ngram_Init t b)\<rparr>"
  by (simp add: ngram_Init_def Let_def)

lemma rows_decoded_Init: "rows_decoded (ngram_Init t b) = rows_decoded (ngram_Init t 0)"
  by (subst ngram_Init_core) (rule rows_decoded_kernel)

lemma ngram_Init_core_simps:
  "vector_search_ok (ngram_Init t b) = vector_search_ok (ngram_Init t 0)"
  "is_large_row (ngram_Init t b) = is_large_row (ngram_Init t 0)"
  "gm_len_ok (ngram_Init t b) = gm_len_ok (ngram_Init t 0)"
  "ngram_wf (ngram_Init t b) = ngram_wf (ngram_Init t 0)"
  "block_rows (ngram_Init t b) = block_rows (ngram_Init t 0)"
  by (simp_all add: ngram_Init_def Let_def vector_search_ok_def gm_len_ok_def ngram_wf_def fun_eq_iff)

lemma ngram_Init_wf:
  assumes "ngram_inputs c B S M V lo hi k" "NgramSpecDecodeTilingFunc c = Some (GRAPH_SUCCESS (t, dim))"
  shows "ngram_wf (ngram_Init t b)" "1 \<le> block_rows (ngram_Init t b)" "block_rows (ngram_Init t b) < U32_LIM"
    "max_seq_len (ngram_Init t b) = S"
proof -
  from ngram_tiling_result [OF assms(1)] obtain br where br: "1 \<le> br" "br \<le> B" and
    "NgramSpecDecodeTilingFunc c = Some (GRAPH_SUCCESS (
       \<lparr>ni_batchSize = B, ni_maxSeqLen = S, ni_maxNewTokens = M, ni_vocabSize = V, ni_minN = lo, ni_maxN = hi,
        ni_k = k, ni_formerNum = min B (nc_aivNum c) - 1, ni_rowsPerCore = B div min B (nc_aivNum c),
        ni_tailRows = B - (min B (nc_aivNum c) - 1) * (B div min B (nc_aivNum c)), ni_blockRows = br\<rparr>,
       min B (nc_aivNum c)))" by blast
  then have t: "ni_maxSeqLen t = S" "ni_maxNewTokens t = M" "ni_minN t = lo" "ni_k t = k" "ni_blockRows t = br"
    using assms(2) by auto
  have pos: "0 < S" "S < I32_LIM" "0 < M" "M < I32_LIM" "1 \<le> lo" "lo < I32_LIM" "0 < k" "k < I32_LIM" "B < I32_LIM"
    using assms(1) by (auto simp: ngram_inputs_def)
  have i: "i32 S = S" "i32 M = M" "i32 lo = lo" "i32 k = k" "i32 br = br"
    by (rule i32_id; use pos br in linarith)+
  have al: "tdiv (7 + x) 8 * 8 = align_up x 8" if "0 < x" for x
    using that by (simp add: tdiv_pos align_up_def add.commute)
  show "ngram_wf (ngram_Init t b)" "1 \<le> block_rows (ngram_Init t b)" "block_rows (ngram_Init t b) < U32_LIM"
    "max_seq_len (ngram_Init t b) = S"
    using pos br by (simp_all add: ngram_Init_def Let_def ngram_wf_def t i al)
qed

lemma ngram_launch_rows:
  assumes dev: "npu_exact dev"
    and inp: "ngram_inputs c B S M V lo hi k" "NgramSpecDecodeTilingFunc c = Some (GRAPH_SUCCESS (t, dim))"
    and kn: "vector_search_ok (ngram_Init t 0)" "\<not> is_large_row (ngram_Init t 0)"
    and len: "\<And>q. 0 \<le> q \<Longrightarrow> q < B \<Longrightarrow> gm_len_ok (ngram_Init t 0) gm q"
    and order: "distinct order" "set order \<subseteq> {0..<dim}"
  shows "\<exists>gm'. ngram_launch dev t order ubs gm = Some gm' \<and>
     rows_decoded (ngram_Init t 0) gm gm' (\<Union>b\<in>set order. core_rows t b)"
  unfolding ngram_launch_def
proof (rule fold_opt_inv [where P = "\<lambda>bs g. rows_decoded (ngram_Init t 0) gm g (\<Union>b\<in>set bs. core_rows t b)"])
  show "rows_decoded (ngram_Init t 0) gm gm (\<Union>b\<in>set []. core_rows t b)" by (simp add: rows_decoded_empty)
next
  fix pre b rest g
  assume split: "order = pre @ b # rest" and P: "rows_decoded (ngram_Init t 0) gm g (\<Union>b\<in>set pre. core_rows t b)"
  let ?kn = "ngram_Init t b"
  have b: "0 \<le> b" "b < dim" "b \<notin> set pre" and pre: "set pre \<subseteq> {0..<dim}" using order split by auto
  have sub: "core_rows t b \<subseteq> {0..<B}" using core_rows_partition(1) [OF inp] b by auto
  have i: "gm_inputs_same gm g" using P by (simp add: rows_decoded_def)
  have my: "0 \<le> my_rows ?kn" by (simp add: ngram_Init_def Let_def)
  note wf = ngram_Init_wf [OF inp, of b]
  have vs: "vector_search_ok ?kn" and lr: "\<not> is_large_row ?kn" using kn unfolding ngram_Init_core_simps [of t b] by auto
  have len': "gm_len_ok ?kn g q" if "row_offset ?kn + 0 \<le> q" "q < row_offset ?kn + 0 + my_rows ?kn" for q
  proof -
    have "q \<in> core_rows t b" using that by (simp add: core_rows_def)
    then have "gm_len_ok (ngram_Init t 0) gm q" using sub len by auto
    then show ?thesis unfolding gm_len_ok_inputs [OF i] by (simp only: ngram_Init_core_simps [of t b])
  qed
  obtain g' ub' where run: "ngram_Process_loop dev ?kn 0 (my_rows ?kn) (g, ubs b) = Some (g', ub')"
    and d: "rows_decoded ?kn g g' {row_offset ?kn + 0 ..< row_offset ?kn + 0 + my_rows ?kn}"
    using ngram_Process_loop_rows [OF dev wf(1) vs lr wf(2,3) my len'] by blast
  have "rows_decoded (ngram_Init t 0) gm g' ((\<Union>b\<in>set pre. core_rows t b) \<union> core_rows t b)"
  proof (rule rows_decoded_trans [OF ngram_Init_wf(1) [OF inp] P])
    show "rows_decoded (ngram_Init t 0) g g' (core_rows t b)" using d unfolding rows_decoded_Init [of t b] core_rows_def by simp
    have "core_rows t a \<inter> core_rows t b = {}" if "a \<in> set pre" for a
    proof -
      have "0 \<le> a" "a < dim" "a \<noteq> b" using that pre b by auto
      then consider "a < b" | "b < a" by linarith
      then show ?thesis
      proof cases
        case 1
        then show ?thesis by (rule core_rows_partition(2) [OF inp \<open>0 \<le> a\<close> _ b(2)])
      next
        case 2
        then have "core_rows t b \<inter> core_rows t a = {}" by (rule core_rows_partition(2) [OF inp b(1) _ \<open>a < dim\<close>])
        then show ?thesis by blast
      qed
    qed
    then show "(\<Union>b\<in>set pre. core_rows t b) \<inter> core_rows t b = {}" by auto
  qed (use sub len in auto)
  then show "\<exists>g'. map_option fst (ngram_spec_decode dev t b (g, ubs b)) = Some g' \<and>
      rows_decoded (ngram_Init t 0) gm g' (\<Union>b\<in>set (pre @ [b]). core_rows t b)"
    using run by (simp add: ngram_spec_decode_def ngram_Process_def Un_commute)
qed

end
