(* ===== verification/NgramProperties.thy ===== *)
theory NgramProperties
  imports NgramLaunch
begin

text \<open>The properties of n-gram speculative decoding.\<close>

section \<open>The operator\<close>


definition ngram_example_context :: ngram_context where
  "ngram_example_context = \<lparr>nc_tilingData = True, nc_attrs = Some (Some 100, Some 1, Some 3, Some 4),
     nc_tokenIdsShape = Some [4, 16], nc_sampledShape = Some [4, 2], nc_aivNum = 2, nc_ubSize = 196608\<rparr>"



definition ngram_example_tiling :: ngram_info where
  "ngram_example_tiling = \<lparr>ni_batchSize = 4, ni_maxSeqLen = 16, ni_maxNewTokens = 2, ni_vocabSize = 100, ni_minN = 1, ni_maxN = 3, ni_k = 4,
     ni_formerNum = 1, ni_rowsPerCore = 2, ni_tailRows = 2, ni_blockRows = 2\<rparr>"

lemma ngram_example_tiling: "NgramSpecDecodeTilingFunc ngram_example_context = Some (GRAPH_SUCCESS (ngram_example_tiling, 2))"
  by code_simp

lemma ngram_example_inputs: "ngram_inputs ngram_example_context 4 16 2 100 1 3 4"
  by (simp add: ngram_inputs_def ngram_example_context_def)



text \<open>
  The tiling divides the batch: every row is processed by exactly one of the cores it asks for.
\<close>

theorem ngram_core_rows:
  assumes "ngram_inputs c B S M V lo hi k" "NgramSpecDecodeTilingFunc c = Some (GRAPH_SUCCESS (t, dim))"
  shows "(\<Union>b \<in> {0..<dim}. core_rows t b) = {0..<B} \<and> (\<forall>a b. 0 \<le> a \<and> a < b \<and> b < dim \<longrightarrow> core_rows t a \<inter> core_rows t b = {})"
  using core_rows_partition [OF assms] by blast

theorem ngram_core_rows_witness:
  "core_rows ngram_example_tiling 0 \<union> core_rows ngram_example_tiling 1 = {0..<4} \<and>
   core_rows ngram_example_tiling 0 \<inter> core_rows ngram_example_tiling 1 = {}"
proof -
  have "{0..<2} = {0, 1::int}" by auto
  then show ?thesis using ngram_core_rows [OF ngram_example_inputs ngram_example_tiling] by auto
qed

section \<open>The search\<close>










section \<open>Rows the vector search gets wrong\<close>




end
