(* ===== verification/SasParams.thy ===== *)
theory SasParams
  imports Prelude
begin

text \<open>
  The scheduling operator for sparse attention with shared KV
  (\<^verbatim>\<open>csrc/attention/sparse_attn_sharedkv_metadata/op_kernel_aicpu\<close>), first part: the members of the
  kernel class, the attributes and their checks, and the parameters derived from them. Attribute access is
  the AICPU framework's; the model takes for every attribute whether it is set and to which value.
\<close>

section \<open>Types\<close>

datatype block_type = WIN_NORMAL_BLOCK | WIN_TAIL_BLOCK | CMP_NORMAL_BLOCK | CMP_TAIL_BLOCK

datatype sparse_mode = DEFAULT_MASK | ALL_MASK | LEFT_UP_CAUSAL | RIGHT_DOWN_CAUSAL | BAND | OTHER_MASK

datatype valid_soc_version = ASCEND910 | ASCEND950

type_synonym block_cost = "block_type \<Rightarrow> block_type \<Rightarrow> int"

definition Clip :: "int \<Rightarrow> int \<Rightarrow> int \<Rightarrow> int" where
  "Clip value minValue maxValue =
     (if value < minValue then minValue else if value > maxValue then maxValue else value)"

definition IsWithinTolerance :: "int \<Rightarrow> int \<Rightarrow> int \<Rightarrow> bool" where
  "IsWithinTolerance limit tolerance value \<longleftrightarrow> limit + tolerance \<ge> value"

abbreviation (input) FA_TOLERANCE_RATIO :: int where
  "FA_TOLERANCE_RATIO \<equiv> 2"

text \<open>A tensor of the AICPU framework: its data pointer and its shape pointer, which may be null.\<close>

record cpu_tensor =
  tn_data :: "(int \<Rightarrow> int) option"
  tn_shape :: "int list option"

record sas_kernel =
  sk_actSeqLenQ :: "cpu_tensor option"
  sk_actSeqLenOriKv :: "cpu_tensor option"
  sk_actSeqLenCmpKv :: "cpu_tensor option"
  sk_seqUsedQ :: "cpu_tensor option"
  sk_seqUsedKv :: "cpu_tensor option"
  sk_metaData :: "cpu_tensor option"
  sk_batchSize :: int
  sk_querySeqSize :: int
  sk_queryHeadNum :: int
  sk_kvSeqSize :: int
  sk_kvHeadNum :: int
  sk_headDim :: int
  sk_oriTopK :: int
  sk_cmpTopK :: int
  sk_cmpRatio :: int
  sk_oriMaskMode :: int
  sk_cmpMaskMode :: int
  sk_winLeft :: int
  sk_winRight :: int
  sk_layoutQuery :: string
  sk_layoutKv :: string
  sk_hasOriKv :: bool
  sk_hasCmpKv :: bool
  sk_aicCoreNum :: int
  sk_aivCoreNum :: int
  sk_socVersion :: string
  sk_preToken :: int
  sk_nextToken :: int
  sk_groupSize :: int
  sk_mBaseSize :: int
  sk_s2BaseSize :: int
  sk_isS1G :: bool
  sk_isCFA :: bool
  sk_isSCFA :: bool
  sk_supportFd :: bool
  sk_attentionMode :: int
  sk_typeCost :: block_cost

text \<open>The kernel object before \<open>Prepare\<close>; \<open>typeCost\<close> has no initialiser in the class.\<close>

definition sas_kernel_init :: "block_cost \<Rightarrow> sas_kernel" where
  "sas_kernel_init tc =
     \<lparr>sk_actSeqLenQ = None, sk_actSeqLenOriKv = None, sk_actSeqLenCmpKv = None, sk_seqUsedQ = None,
      sk_seqUsedKv = None, sk_metaData = None,
      sk_batchSize = 0, sk_querySeqSize = 0, sk_queryHeadNum = 0, sk_kvSeqSize = 0, sk_kvHeadNum = 0,
      sk_headDim = 0, sk_oriTopK = 0, sk_cmpTopK = 0, sk_cmpRatio = - 1, sk_oriMaskMode = 4, sk_cmpMaskMode = 3,
      sk_winLeft = 127, sk_winRight = 0, sk_layoutQuery = ''BSND'', sk_layoutKv = ''PA_ND'',
      sk_hasOriKv = True, sk_hasCmpKv = True, sk_aicCoreNum = 24, sk_aivCoreNum = 48,
      sk_socVersion = ''ascend910B'', sk_preToken = 0, sk_nextToken = 0, sk_groupSize = 0, sk_mBaseSize = 0,
      sk_s2BaseSize = 0, sk_isS1G = True, sk_isCFA = False, sk_isSCFA = False, sk_supportFd = False,
      sk_attentionMode = 1, sk_typeCost = tc\<rparr>"

text \<open>The kernel context: the inputs, the output, and the attributes that are set.\<close>

record sas_context =
  cx_actSeqLenQ :: "cpu_tensor option"
  cx_actSeqLenOriKv :: "cpu_tensor option"
  cx_actSeqLenCmpKv :: "cpu_tensor option"
  cx_seqUsedQ :: "cpu_tensor option"
  cx_seqUsedKv :: "cpu_tensor option"
  cx_metaData :: "cpu_tensor option"
  cx_num_heads_q :: "int option"
  cx_num_heads_kv :: "int option"
  cx_head_dim :: "int option"
  cx_soc_version :: "string option"
  cx_aic_core_num :: "int option"
  cx_aiv_core_num :: "int option"
  cx_batch_size :: "int option"
  cx_max_seqlen_q :: "int option"
  cx_max_seqlen_kv :: "int option"
  cx_ori_topk :: "int option"
  cx_cmp_topk :: "int option"
  cx_cmp_ratio :: "int option"
  cx_ori_mask_mode :: "int option"
  cx_cmp_mask_mode :: "int option"
  cx_ori_win_left :: "int option"
  cx_ori_win_right :: "int option"
  cx_layout_q :: "string option"
  cx_layout_kv :: "string option"
  cx_has_ori_kv :: "bool option"
  cx_has_cmp_kv :: "bool option"

definition attr_or :: "'a option \<Rightarrow> 'a \<Rightarrow> 'a" where
  "attr_or a d = (case a of Some v \<Rightarrow> v | None \<Rightarrow> d)"

section \<open>Parameter checks\<close>

definition sas_CheckSingleParam :: "sas_kernel \<Rightarrow> bool" where
  "sas_CheckSingleParam kn \<longleftrightarrow>
     (case sk_metaData kn of None \<Rightarrow> False
      | Some m \<Rightarrow> tn_shape m \<noteq> None \<and> \<not> Option.is_none (tn_data m)) \<and>
     \<not> (sk_aicCoreNum kn = 0 \<or> sk_aivCoreNum kn = 0) \<and>
     \<not> sk_batchSize kn < 0 \<and>
     \<not> sk_querySeqSize kn < 0 \<and>
     \<not> (sk_layoutKv kn = ''BSND'' \<and> sk_queryHeadNum kn \<noteq> 64 \<and> sk_queryHeadNum kn \<noteq> 32) \<and>
     \<not> sk_kvHeadNum kn \<noteq> 1 \<and>
     \<not> (sk_oriMaskMode kn \<noteq> 0 \<and> sk_oriMaskMode kn \<noteq> 3 \<and> sk_oriMaskMode kn \<noteq> 4) \<and>
     \<not> sk_winLeft kn \<noteq> 127 \<and>
     \<not> (sk_layoutQuery kn \<noteq> ''TND'' \<and> sk_layoutQuery kn \<noteq> ''BSND'') \<and>
     \<not> (sk_layoutKv kn \<noteq> ''PA_ND'' \<and> sk_layoutKv kn \<noteq> ''TND'' \<and> sk_layoutKv kn \<noteq> ''BSND'') \<and>
     \<not> (sk_layoutQuery kn = ''TND'' \<and> sk_layoutKv kn = ''BSND'')"

definition tensor_invalid :: "cpu_tensor option \<Rightarrow> bool" where
  "tensor_invalid t = (case t of None \<Rightarrow> True | Some x \<Rightarrow> Option.is_none (tn_data x))"

definition sas_CheckExistence :: "sas_kernel \<Rightarrow> bool" where
  "sas_CheckExistence kn \<longleftrightarrow>
     \<not> (sk_layoutQuery kn = ''TND'' \<and> tensor_invalid (sk_actSeqLenQ kn)) \<and>
     \<not> (sk_layoutKv kn = ''PA_ND'' \<and> tensor_invalid (sk_seqUsedKv kn))"

text \<open>The first dimension of a tensor that has data and a shape.\<close>

definition tensor_dim0 :: "cpu_tensor option \<Rightarrow> int option" where
  "tensor_dim0 t =
     (case t of None \<Rightarrow> None
      | Some x \<Rightarrow> (if Option.is_none (tn_data x) then None else case tn_shape x of Some (d # _) \<Rightarrow> Some d | _ \<Rightarrow> None))"

definition sas_GetQueryBatchSize :: "sas_kernel \<Rightarrow> int" where
  "sas_GetQueryBatchSize kn =
     (case tensor_dim0 (sk_seqUsedQ kn) of Some d \<Rightarrow> d
      | None \<Rightarrow>
        (if sk_layoutQuery kn = ''TND''
         then (case tensor_dim0 (sk_actSeqLenQ kn) of Some d \<Rightarrow> d - 1 | None \<Rightarrow> sk_batchSize kn)
         else sk_batchSize kn))"

definition sas_GetKvBatchSize :: "sas_kernel \<Rightarrow> int" where
  "sas_GetKvBatchSize kn =
     (case tensor_dim0 (sk_seqUsedKv kn) of Some d \<Rightarrow> d
      | None \<Rightarrow>
        (if sk_layoutKv kn = ''TND''
         then (case tensor_dim0 (sk_actSeqLenOriKv kn) of Some d \<Rightarrow> d - 1 | None \<Rightarrow> sk_batchSize kn)
         else sk_batchSize kn))"

definition sas_CheckConsistency :: "sas_kernel \<Rightarrow> bool" where
  "sas_CheckConsistency kn = True"

definition sas_CheckFeature :: "sas_kernel \<Rightarrow> bool" where
  "sas_CheckFeature kn \<longleftrightarrow>
     (if sk_hasCmpKv kn
      then \<not> (sk_cmpTopK kn \<noteq> 0 \<and> sk_cmpTopK kn \<noteq> 512 \<and> sk_cmpTopK kn \<noteq> 1024) \<and>
           \<not> (sk_cmpRatio kn \<noteq> 4 \<and> sk_cmpRatio kn \<noteq> 128)
      else True)"

definition sas_ParamsCheck :: "sas_kernel \<Rightarrow> bool" where
  "sas_ParamsCheck kn \<longleftrightarrow>
     sas_CheckSingleParam kn \<and> sas_CheckExistence kn \<and> sas_CheckConsistency kn \<and> sas_CheckFeature kn"

section \<open>Derived parameters\<close>

text \<open>Substring search, as \<open>std::string::find\<close> decides it.\<close>

definition str_contains :: "string \<Rightarrow> string \<Rightarrow> bool" where
  "str_contains s sub \<longleftrightarrow> (\<exists>i \<in> set [0..<Suc (length s)]. take (length sub) (drop i s) = sub)"

definition sas_ProcessSocVersion :: "sas_kernel \<Rightarrow> valid_soc_version" where
  "sas_ProcessSocVersion kn = (if str_contains (sk_socVersion kn) ''Ascend950'' then ASCEND950 else ASCEND910)"

definition to_sparse_mode :: "int \<Rightarrow> sparse_mode" where
  "to_sparse_mode m =
     (let m = m mod 256 in
      if m = 0 then DEFAULT_MASK else if m = 1 then ALL_MASK else if m = 2 then LEFT_UP_CAUSAL
      else if m = 3 then RIGHT_DOWN_CAUSAL else if m = 4 then BAND else OTHER_MASK)"

text \<open>\<^term>\<open>None\<close> when the division of the head numbers is undefined.\<close>

definition sas_ParamsInit :: "sas_kernel \<Rightarrow> sas_kernel option" where
  "sas_ParamsInit kn =
     do {
       let kn = kn\<lparr>sk_batchSize := sas_GetQueryBatchSize kn\<rparr>;
       let mode = to_sparse_mode (sk_oriMaskMode kn);
       let kn = (if mode = DEFAULT_MASK
                 then kn\<lparr>sk_preToken := INT64_MAX, sk_nextToken := INT64_MAX, sk_attentionMode := 0\<rparr>
                 else if mode = RIGHT_DOWN_CAUSAL
                 then kn\<lparr>sk_preToken := INT64_MAX, sk_nextToken := 0, sk_attentionMode := 1\<rparr>
                 else kn\<lparr>sk_preToken := (if sk_winLeft kn > - 1 then sk_winLeft kn else INT64_MAX),
                         sk_nextToken := 0, sk_attentionMode := 1\<rparr>);
       let kn = kn\<lparr>sk_isS1G := (sk_layoutQuery kn = ''BSND'' \<or> sk_layoutQuery kn = ''BSH'' \<or> sk_layoutQuery kn = ''TND'')\<rparr>;
       g \<leftarrow> cdiv (sk_queryHeadNum kn) (sk_kvHeadNum kn);
       let kn = kn\<lparr>sk_groupSize := u32 g\<rparr>;
       let kn = (if sk_hasCmpKv kn
                 then (if sk_cmpTopK kn > 0 then kn\<lparr>sk_isSCFA := True\<rparr> else kn\<lparr>sk_isCFA := True\<rparr>)
                 else kn);
       Some (case sas_ProcessSocVersion kn of
               ASCEND910 \<Rightarrow> kn\<lparr>sk_mBaseSize := sk_groupSize kn, sk_s2BaseSize := 512\<rparr>
             | ASCEND950 \<Rightarrow> kn\<lparr>sk_mBaseSize := 64, sk_s2BaseSize := 128\<rparr>) }"

text \<open>
  The members after reading the context, and \<open>Prepare\<close>: \<^term>\<open>None\<close> is undefined behaviour,
  \<open>Some None\<close> is the result \<open>false\<close>.
\<close>

definition sas_read_context :: "sas_context \<Rightarrow> sas_kernel \<Rightarrow> sas_kernel" where
  "sas_read_context c kn =
     kn\<lparr>sk_actSeqLenQ := cx_actSeqLenQ c, sk_actSeqLenOriKv := cx_actSeqLenOriKv c,
        sk_actSeqLenCmpKv := cx_actSeqLenCmpKv c, sk_seqUsedQ := cx_seqUsedQ c, sk_seqUsedKv := cx_seqUsedKv c,
        sk_metaData := cx_metaData c,
        sk_queryHeadNum := attr_or (cx_num_heads_q c) (sk_queryHeadNum kn),
        sk_kvHeadNum := attr_or (cx_num_heads_kv c) (sk_kvHeadNum kn),
        sk_headDim := attr_or (cx_head_dim c) (sk_headDim kn),
        sk_socVersion := attr_or (cx_soc_version c) (sk_socVersion kn),
        sk_aicCoreNum := attr_or (cx_aic_core_num c) (sk_aicCoreNum kn),
        sk_aivCoreNum := attr_or (cx_aiv_core_num c) (sk_aivCoreNum kn),
        sk_batchSize := attr_or (cx_batch_size c) (sk_batchSize kn),
        sk_querySeqSize := attr_or (cx_max_seqlen_q c) (sk_querySeqSize kn),
        sk_kvSeqSize := attr_or (cx_max_seqlen_kv c) (sk_kvSeqSize kn),
        sk_oriTopK := attr_or (cx_ori_topk c) (sk_oriTopK kn),
        sk_cmpTopK := attr_or (cx_cmp_topk c) (sk_cmpTopK kn),
        sk_cmpRatio := attr_or (cx_cmp_ratio c) (sk_cmpRatio kn),
        sk_oriMaskMode := attr_or (cx_ori_mask_mode c) (sk_oriMaskMode kn),
        sk_cmpMaskMode := attr_or (cx_cmp_mask_mode c) (sk_cmpMaskMode kn),
        sk_winLeft := attr_or (cx_ori_win_left c) (sk_winLeft kn),
        sk_winRight := attr_or (cx_ori_win_right c) (sk_winRight kn),
        sk_layoutQuery := attr_or (cx_layout_q c) (sk_layoutQuery kn),
        sk_layoutKv := attr_or (cx_layout_kv c) (sk_layoutKv kn),
        sk_hasOriKv := attr_or (cx_has_ori_kv c) (sk_hasOriKv kn),
        sk_hasCmpKv := attr_or (cx_has_cmp_kv c) (sk_hasCmpKv kn)\<rparr>"

definition sas_Prepare :: "sas_context \<Rightarrow> sas_kernel \<Rightarrow> sas_kernel option option" where
  "sas_Prepare c kn0 =
     (if cx_num_heads_q c \<noteq> None \<and> cx_num_heads_kv c \<noteq> None \<and> cx_head_dim c \<noteq> None
      then (let kn = sas_read_context c kn0 in
            if sas_ParamsCheck kn then map_option Some (sas_ParamsInit kn) else Some None)
      else Some None)"

section \<open>Sequence lengths\<close>

definition tensor_ptr :: "cpu_tensor option \<Rightarrow> (int \<Rightarrow> int) option" where
  "tensor_ptr t = (case t of None \<Rightarrow> None | Some x \<Rightarrow> tn_data x)"

definition sas_GetS1SeqSize :: "sas_kernel \<Rightarrow> int \<Rightarrow> int" where
  "sas_GetS1SeqSize kn bIdx =
     (case tensor_ptr (sk_seqUsedQ kn) of Some p \<Rightarrow> u32 (p bIdx)
      | None \<Rightarrow>
        (if sk_layoutQuery kn = ''TND''
         then (case tensor_ptr (sk_actSeqLenQ kn) of Some p \<Rightarrow> u32 (p (u32 (bIdx + 1)) - p bIdx)
               | None \<Rightarrow> u32 (sk_querySeqSize kn))
         else u32 (sk_querySeqSize kn)))"

definition sas_GetS2SeqSize :: "sas_kernel \<Rightarrow> int \<Rightarrow> int" where
  "sas_GetS2SeqSize kn bIdx =
     (case tensor_ptr (sk_seqUsedKv kn) of Some p \<Rightarrow> u32 (p bIdx)
      | None \<Rightarrow>
        (if sk_layoutKv kn = ''TND''
         then (case tensor_ptr (sk_actSeqLenOriKv kn) of Some p \<Rightarrow> u32 (p (u32 (bIdx + 1)) - p bIdx)
               | None \<Rightarrow> u32 (sk_kvSeqSize kn))
         else u32 (sk_kvSeqSize kn)))"

end
