(* ===== verification/SasCost.thy ===== *)
theory SasCost
  imports SasParams
begin

text \<open>
  The scheduling operator for sparse attention with shared KV, second part: the split of the batches into
  basic blocks and their costs. Vectors indexed by batch are functions of the batch index. Costs are
  unbounded integers.

  The class member \<open>typeCost\<close> is written by \<open>CalcCostTable\<close> before every use, except for the
  compressed part when there is none, whose entries nobody writes; the model therefore computes the table
  of a row from the member's initial value.
\<close>

section \<open>Split information\<close>

record sas_split_info =
  si_s1GBaseNum :: "int \<Rightarrow> int"
  si_s2BaseNum :: "int \<Rightarrow> int"
  si_s1GTailSize :: "int \<Rightarrow> int"
  si_s2TailSize :: "int \<Rightarrow> int"
  si_isKvSeqAllZero :: bool

record sas_cost_info =
  ci_bN2CostOfEachBatch :: "int \<Rightarrow> int"
  ci_bN2BlockOfEachBatch :: "int \<Rightarrow> int"
  ci_bN2LastBlockCostOfEachBatch :: "int \<Rightarrow> int"
  ci_totalBlockNum :: int
  ci_totalCost :: int
  ci_maxS1GCost :: int

definition sas_split_info_init :: sas_split_info where
  "sas_split_info_init = \<lparr>si_s1GBaseNum = (\<lambda>_. 0), si_s2BaseNum = (\<lambda>_. 0), si_s1GTailSize = (\<lambda>_. 0),
     si_s2TailSize = (\<lambda>_. 0), si_isKvSeqAllZero = True\<rparr>"

definition sas_cost_info_init :: sas_cost_info where
  "sas_cost_info_init = \<lparr>ci_bN2CostOfEachBatch = (\<lambda>_. 0), ci_bN2BlockOfEachBatch = (\<lambda>_. 0),
     ci_bN2LastBlockCostOfEachBatch = (\<lambda>_. 0), ci_totalBlockNum = 0, ci_totalCost = 0, ci_maxS1GCost = 0\<rparr>"

text \<open>\<^term>\<open>None\<close> is a division by zero.\<close>

definition sas_CalcSplitInfo :: "sas_kernel \<Rightarrow> sas_split_info \<Rightarrow> sas_split_info option" where
  "sas_CalcSplitInfo kn si0 =
     for_opt 0 (u32 (sk_batchSize kn))
       (\<lambda>bIdx si. do {
          let s1Size = sas_GetS1SeqSize kn bIdx;
          let s2Size = sas_GetS2SeqSize kn bIdx;
          s1GBase \<leftarrow> cdiv (u32 (u32 (s1Size * sk_groupSize kn) + u32 (sk_mBaseSize kn - 1))) (sk_mBaseSize kn);
          s1GTail \<leftarrow> cmod (u32 (s1Size * sk_groupSize kn)) (sk_mBaseSize kn);
          s2Base \<leftarrow> cdiv (u32 (s2Size + sk_s2BaseSize kn - 1)) (sk_s2BaseSize kn);
          s2Tail \<leftarrow> cmod s2Size (sk_s2BaseSize kn);
          let si = si\<lparr>si_s1GBaseNum := (si_s1GBaseNum si)(bIdx := s1GBase),
                      si_s1GTailSize := (si_s1GTailSize si)(bIdx := s1GTail),
                      si_s2BaseNum := (si_s2BaseNum si)(bIdx := s2Base),
                      si_s2TailSize := (si_s2TailSize si)(bIdx := s2Tail)\<rparr>;
          Some (if s1GBase \<noteq> 0 \<and> s2Base \<noteq> 0 then si\<lparr>si_isKvSeqAllZero := False\<rparr> else si) })
       si0"

section \<open>Caches\<close>

record sas_batch_cache =
  bc_bIdx :: int
  bc_s1Size :: int
  bc_s2Size :: int
  bc_preTokenLeftUp :: int
  bc_nextTokenLeftUp :: int

record sas_s1g_cache =
  sc_bIdx :: int
  sc_s1GIdx :: int
  sc_s2Start :: int
  sc_s2End :: int
  sc_winS2Start :: int
  sc_winS2End :: int
  sc_cmpS2Start :: int
  sc_cmpS2End :: int
  sc_s1GCost :: int
  sc_s1GLastBlockCost :: int
  sc_s1GBlock :: int
  sc_winS1GBlock :: int
  sc_winS1GCost :: int
  sc_winS1GLastBlockCost :: int
  sc_winS1GNormalBlockCost :: int
  sc_cmpS1GBlock :: int
  sc_cmpS1GCost :: int
  sc_cmpS1GLastBlockCost :: int
  sc_cmpS1GNormalBlockCost :: int
  sc_cmpS2TailSize :: int
  sc_winS2TailSize :: int

definition sas_batch_cache_init :: sas_batch_cache where
  "sas_batch_cache_init = \<lparr>bc_bIdx = 0, bc_s1Size = 0, bc_s2Size = 0, bc_preTokenLeftUp = 0, bc_nextTokenLeftUp = 0\<rparr>"

definition sas_s1g_cache_init :: sas_s1g_cache where
  "sas_s1g_cache_init = \<lparr>sc_bIdx = 0, sc_s1GIdx = 0, sc_s2Start = 0, sc_s2End = 0, sc_winS2Start = 0, sc_winS2End = 0,
     sc_cmpS2Start = 0, sc_cmpS2End = 0, sc_s1GCost = 0, sc_s1GLastBlockCost = 0, sc_s1GBlock = 0, sc_winS1GBlock = 0,
     sc_winS1GCost = 0, sc_winS1GLastBlockCost = 0, sc_winS1GNormalBlockCost = 0, sc_cmpS1GBlock = 0, sc_cmpS1GCost = 0,
     sc_cmpS1GLastBlockCost = 0, sc_cmpS1GNormalBlockCost = 0, sc_cmpS2TailSize = 0, sc_winS2TailSize = 0\<rparr>"

definition sas_CalcPreTokenLeftUp :: "sas_kernel \<Rightarrow> int \<Rightarrow> int \<Rightarrow> int" where
  "sas_CalcPreTokenLeftUp kn s1Size s2Size =
     (if to_sparse_mode (sk_oriMaskMode kn) = BAND then s1Size - s2Size + sk_preToken kn else sk_preToken kn)"

definition sas_CalcNextTokenLeftUp :: "sas_kernel \<Rightarrow> int \<Rightarrow> int \<Rightarrow> int" where
  "sas_CalcNextTokenLeftUp kn s1Size s2Size =
     (case to_sparse_mode (sk_oriMaskMode kn) of
        DEFAULT_MASK \<Rightarrow> sk_nextToken kn
      | ALL_MASK \<Rightarrow> sk_nextToken kn
      | LEFT_UP_CAUSAL \<Rightarrow> sk_nextToken kn
      | RIGHT_DOWN_CAUSAL \<Rightarrow> s2Size - s1Size
      | BAND \<Rightarrow> s2Size - s1Size + sk_nextToken kn
      | OTHER_MASK \<Rightarrow> sk_nextToken kn)"

definition WinCalcCost :: "int \<Rightarrow> int \<Rightarrow> int" where
  "WinCalcCost basicM basicS2 =
     (let winAlignBasicM = u32 (basicM + 16 - 1) div 16; winAlignBasicS2 = u32 (basicS2 + 64 - 1) div 64
      in u32 (6 * winAlignBasicM + 10 * winAlignBasicS2))"

definition CmpCalcCost :: "int \<Rightarrow> int \<Rightarrow> int" where
  "CmpCalcCost basicM basicS2 =
     (let cmpAlignBasicM = u32 (basicM + 16 - 1) div 16; cmpAlignBasicS2 = u32 (basicS2 + 64 - 1) div 64
      in u32 (6 * cmpAlignBasicM + 10 * cmpAlignBasicS2))"

definition set_cost :: "block_type \<Rightarrow> block_type \<Rightarrow> int \<Rightarrow> block_cost \<Rightarrow> block_cost" where
  "set_cost r c v tc = tc(r := (tc r)(c := v))"

definition sas_CalcCostTable :: "sas_kernel \<Rightarrow> int \<Rightarrow> int \<Rightarrow> int \<Rightarrow> int \<Rightarrow> int \<Rightarrow> block_cost \<Rightarrow> block_cost" where
  "sas_CalcCostTable kn s1NormalSize s2NormalSize s1GTailSize winS2TailSize cmpS2TailSize tc =
     (let tc = set_cost WIN_NORMAL_BLOCK WIN_NORMAL_BLOCK (WinCalcCost s1NormalSize s2NormalSize) tc;
          tc = set_cost WIN_TAIL_BLOCK WIN_NORMAL_BLOCK
                 (if s1GTailSize = 0 then 0 else WinCalcCost s1GTailSize s2NormalSize) tc;
          tc = set_cost WIN_NORMAL_BLOCK WIN_TAIL_BLOCK
                 (if winS2TailSize = 0 then 0 else WinCalcCost s1NormalSize winS2TailSize) tc;
          tc = set_cost WIN_TAIL_BLOCK WIN_TAIL_BLOCK
                 (if s1GTailSize = 0 \<or> winS2TailSize = 0 then 0 else WinCalcCost s1GTailSize winS2TailSize) tc
      in if sk_hasCmpKv kn
         then (let tc = set_cost CMP_NORMAL_BLOCK CMP_NORMAL_BLOCK (CmpCalcCost s1NormalSize s2NormalSize) tc;
                   tc = set_cost CMP_TAIL_BLOCK CMP_NORMAL_BLOCK
                          (if s1GTailSize = 0 then 0 else CmpCalcCost s1GTailSize s2NormalSize) tc;
                   tc = set_cost CMP_NORMAL_BLOCK CMP_TAIL_BLOCK
                          (if cmpS2TailSize = 0 then 0 else CmpCalcCost s1NormalSize cmpS2TailSize) tc
               in set_cost CMP_TAIL_BLOCK CMP_TAIL_BLOCK
                    (if s1GTailSize = 0 \<or> cmpS2TailSize = 0 then 0 else CmpCalcCost s1GTailSize cmpS2TailSize) tc)
         else tc)"

definition sas_CalcS2TokenRange :: "sas_kernel \<Rightarrow> int \<Rightarrow> sas_batch_cache \<Rightarrow> int \<times> int" where
  "sas_CalcS2TokenRange kn s1GIdx bc =
     (if bc_s1Size bc = 0 \<or> bc_s2Size bc = 0 then (0, 0)
      else if sk_attentionMode kn = 0 then (0, bc_s2Size bc - 1)
      else (let s1GFirstToken = s1GIdx * sk_mBaseSize kn;
                s1GLastToken = min (s1GFirstToken + sk_mBaseSize kn) (bc_s1Size bc * sk_groupSize kn) - 1;
                (s1FirstToken, s1LastToken) =
                  (if sk_isS1G kn
                   then (tdiv s1GFirstToken (sk_groupSize kn), tdiv s1GLastToken (sk_groupSize kn))
                   else if tdiv s1GFirstToken (bc_s1Size bc) = tdiv s1GLastToken (bc_s1Size bc)
                   then (tmod s1GFirstToken (bc_s1Size bc), tmod s1GLastToken (bc_s1Size bc))
                   else (0, bc_s1Size bc))
            in (s1FirstToken - bc_preTokenLeftUp bc, s1LastToken + bc_nextTokenLeftUp bc)))"

definition sas_CalcBatchCache :: "sas_kernel \<Rightarrow> int \<Rightarrow> sas_batch_cache \<Rightarrow> sas_batch_cache" where
  "sas_CalcBatchCache kn bIdx bc =
     (let s1Size = sas_GetS1SeqSize kn bIdx; s2Size = sas_GetS2SeqSize kn bIdx
      in bc\<lparr>bc_bIdx := bIdx, bc_s1Size := s1Size, bc_s2Size := s2Size,
            bc_preTokenLeftUp := sas_CalcPreTokenLeftUp kn s1Size s2Size,
            bc_nextTokenLeftUp := sas_CalcNextTokenLeftUp kn s1Size s2Size\<rparr>)"

definition sas_CalcWinS1GCache :: "block_cost \<Rightarrow> sas_split_info \<Rightarrow> sas_s1g_cache \<Rightarrow> sas_s1g_cache" where
  "sas_CalcWinS1GCache tc si sc =
     (if sc_winS2Start sc \<ge> sc_winS2End sc
      then sc\<lparr>sc_winS1GBlock := 0, sc_winS1GCost := 0, sc_winS1GLastBlockCost := 0, sc_winS1GNormalBlockCost := 0\<rparr>
      else (let winS1GBlock = u32 (sc_winS2End sc - sc_winS2Start sc);
                curWinTailS2Num = (if sc_winS2TailSize sc \<noteq> 0 then 1 else 0);
                curWinNormalS2Num = u32 (winS1GBlock - curWinTailS2Num);
                row = (if sc_s1GIdx sc = u32 (si_s1GBaseNum si (sc_bIdx sc) - 1) \<and> si_s1GTailSize si (sc_bIdx sc) \<noteq> 0
                       then WIN_TAIL_BLOCK else WIN_NORMAL_BLOCK)
            in sc\<lparr>sc_winS1GBlock := winS1GBlock,
                  sc_winS1GCost := tc row WIN_NORMAL_BLOCK * curWinNormalS2Num + tc row WIN_TAIL_BLOCK * curWinTailS2Num,
                  sc_winS1GLastBlockCost := (if curWinTailS2Num > 0 then tc row WIN_TAIL_BLOCK else tc row WIN_NORMAL_BLOCK),
                  sc_winS1GNormalBlockCost := tc row WIN_NORMAL_BLOCK\<rparr>))"

definition sas_CalcCmpS1GCache :: "block_cost \<Rightarrow> sas_split_info \<Rightarrow> sas_s1g_cache \<Rightarrow> sas_s1g_cache" where
  "sas_CalcCmpS1GCache tc si sc =
     (if sc_cmpS2Start sc \<ge> sc_cmpS2End sc
      then sc\<lparr>sc_cmpS1GBlock := 0, sc_cmpS1GCost := 0, sc_cmpS1GLastBlockCost := 0, sc_cmpS1GNormalBlockCost := 0\<rparr>
      else (let cmpS1GBlock = u32 (sc_cmpS2End sc - sc_cmpS2Start sc);
                curCmpTailS2Num = (if sc_cmpS2TailSize sc \<noteq> 0 then 1 else 0);
                curCmpNormalS2Num = u32 (cmpS1GBlock - curCmpTailS2Num);
                row = (if sc_s1GIdx sc = u32 (si_s1GBaseNum si (sc_bIdx sc) - 1) \<and> si_s1GTailSize si (sc_bIdx sc) \<noteq> 0
                       then CMP_TAIL_BLOCK else CMP_NORMAL_BLOCK)
            in sc\<lparr>sc_cmpS1GBlock := cmpS1GBlock,
                  sc_cmpS1GCost := tc row CMP_NORMAL_BLOCK * curCmpNormalS2Num + tc row CMP_TAIL_BLOCK * curCmpTailS2Num,
                  sc_cmpS1GLastBlockCost := (if curCmpTailS2Num > 0 then tc row CMP_TAIL_BLOCK else tc row CMP_NORMAL_BLOCK),
                  sc_cmpS1GNormalBlockCost := tc row CMP_NORMAL_BLOCK\<rparr>))"

definition sas_CalcBlockRangeAndTailSize ::
  "sas_kernel \<Rightarrow> int \<times> int \<Rightarrow> sas_batch_cache \<Rightarrow> sas_s1g_cache \<Rightarrow> sas_s1g_cache" where
  "sas_CalcBlockRangeAndTailSize kn oriS2TokenRange bc sc =
     (let (first, last) = oriS2TokenRange;
          (last, sc) =
            (if first \<ge> bc_s2Size bc \<or> last < 0 \<or> last < first
             then (0, sc\<lparr>sc_winS2Start := 0, sc_winS2End := 0, sc_winS2TailSize := 0\<rparr>)
             else (let first = Clip first 0 (u32 (bc_s2Size bc - 1)); last = Clip last 0 (u32 (bc_s2Size bc - 1))
                   in (last, sc\<lparr>sc_winS2Start := 0, sc_winS2End := u32 (tdiv (last - first) (sk_s2BaseSize kn) + 1),
                                sc_winS2TailSize := tmod (last - first + 1) (sk_s2BaseSize kn)\<rparr>)));
          cmpS2Start = sc_winS2End sc;
          cmpS2LastTokenSize = (if sk_hasCmpKv kn then u32 (tdiv (last + 1) (sk_cmpRatio kn)) else 0);
          actCmpS2LastTokenSize = (if sk_isCFA kn then cmpS2LastTokenSize
                                   else if sk_isSCFA kn then min cmpS2LastTokenSize (u32 (sk_cmpTopK kn)) else 0)
      in sc\<lparr>sc_cmpS2Start := cmpS2Start,
            sc_cmpS2End := (if actCmpS2LastTokenSize = 0 then cmpS2Start
                            else u32 (cmpS2Start + (actCmpS2LastTokenSize - 1) div sk_s2BaseSize kn + 1)),
            sc_cmpS2TailSize := actCmpS2LastTokenSize mod sk_s2BaseSize kn\<rparr>)"

definition sas_GatherWinAndCmpCache :: "sas_s1g_cache \<Rightarrow> sas_s1g_cache" where
  "sas_GatherWinAndCmpCache sc =
     (let sc = sc\<lparr>sc_s2Start := (if sc_winS1GBlock sc > 0 then sc_winS2Start sc else sc_cmpS2Start sc)\<rparr>;
          sc = (if sc_cmpS1GBlock sc > 0
                then sc\<lparr>sc_s1GLastBlockCost := sc_cmpS1GLastBlockCost sc, sc_s2End := sc_cmpS2End sc\<rparr>
                else sc\<lparr>sc_s1GLastBlockCost := sc_winS1GLastBlockCost sc, sc_s2End := sc_winS2End sc\<rparr>)
      in sc\<lparr>sc_s1GBlock := u32 (sc_winS1GBlock sc + sc_cmpS1GBlock sc), sc_s1GCost := sc_winS1GCost sc + sc_cmpS1GCost sc\<rparr>)"

definition sas_CalcS1GCache ::
  "sas_kernel \<Rightarrow> sas_split_info \<Rightarrow> int \<Rightarrow> sas_batch_cache \<Rightarrow> sas_s1g_cache \<Rightarrow> sas_s1g_cache" where
  "sas_CalcS1GCache kn si s1GIdx bc sc =
     (if si_s1GBaseNum si (bc_bIdx bc) = 0
      then sc\<lparr>sc_s1GCost := 0, sc_s1GLastBlockCost := 0, sc_winS1GNormalBlockCost := 0, sc_winS1GLastBlockCost := 0,
              sc_cmpS1GNormalBlockCost := 0, sc_cmpS1GLastBlockCost := 0, sc_s1GBlock := 0, sc_s2Start := 0,
              sc_cmpS2Start := 0, sc_s2End := 0\<rparr>
      else (let sc = sc\<lparr>sc_bIdx := bc_bIdx bc, sc_s1GIdx := s1GIdx\<rparr>;
                oriS2TokenRange = sas_CalcS2TokenRange kn s1GIdx bc;
                sc = sas_CalcBlockRangeAndTailSize kn oriS2TokenRange bc sc;
                tc = sas_CalcCostTable kn (sk_mBaseSize kn) (sk_s2BaseSize kn) (si_s1GTailSize si (sc_bIdx sc))
                       (u32 (sc_winS2TailSize sc)) (u32 (sc_cmpS2TailSize sc)) (sk_typeCost kn)
            in sas_GatherWinAndCmpCache (sas_CalcCmpS1GCache tc si (sas_CalcWinS1GCache tc si sc))))"

section \<open>Costs of the batches\<close>

text \<open>The body of the loop of \<open>CalcBatchCost\<close> over the rows of a batch.\<close>

definition batch_cost_row ::
  "sas_kernel \<Rightarrow> sas_split_info \<Rightarrow> int \<Rightarrow> sas_batch_cache \<Rightarrow> int \<Rightarrow> sas_s1g_cache \<times> sas_cost_info \<Rightarrow> sas_s1g_cache \<times> sas_cost_info" where
  "batch_cost_row kn si bIdx bCache s1GIdx st =
     (case st of (sc, ci) \<Rightarrow>
      let sc = sas_CalcS1GCache kn si s1GIdx bCache sc;
          ci = ci\<lparr>ci_bN2CostOfEachBatch := (ci_bN2CostOfEachBatch ci)(bIdx := ci_bN2CostOfEachBatch ci bIdx + sc_s1GCost sc),
                  ci_bN2BlockOfEachBatch := (ci_bN2BlockOfEachBatch ci)
                    (bIdx := u32 (ci_bN2BlockOfEachBatch ci bIdx + sc_s1GBlock sc))\<rparr>;
          ci = (if sc_s1GCost sc > ci_maxS1GCost ci then ci\<lparr>ci_maxS1GCost := sc_s1GCost sc\<rparr> else ci);
          ci = (if sc_s1GBlock sc > 0
                then ci\<lparr>ci_bN2LastBlockCostOfEachBatch := (ci_bN2LastBlockCostOfEachBatch ci)(bIdx := sc_s1GLastBlockCost sc)\<rparr>
                else ci)
      in (sc, ci))"

definition sas_CalcBatchCost :: "sas_kernel \<Rightarrow> sas_split_info \<Rightarrow> int \<Rightarrow> sas_cost_info \<Rightarrow> sas_cost_info" where
  "sas_CalcBatchCost kn si bIdx ci =
     (let ci = ci\<lparr>ci_bN2CostOfEachBatch := (ci_bN2CostOfEachBatch ci)(bIdx := 0),
                  ci_bN2BlockOfEachBatch := (ci_bN2BlockOfEachBatch ci)(bIdx := 0),
                  ci_bN2LastBlockCostOfEachBatch := (ci_bN2LastBlockCostOfEachBatch ci)(bIdx := 0)\<rparr>
      in if sas_GetS1SeqSize kn bIdx = 0 \<or> sas_GetS2SeqSize kn bIdx = 0 then ci
         else snd (for_range 0 (si_s1GBaseNum si bIdx)
                (batch_cost_row kn si bIdx (sas_CalcBatchCache kn bIdx sas_batch_cache_init)) (sas_s1g_cache_init, ci)))"

definition sas_CalcCostInfo :: "sas_kernel \<Rightarrow> sas_split_info \<Rightarrow> sas_cost_info \<Rightarrow> sas_cost_info" where
  "sas_CalcCostInfo kn si ci =
     (if si_isKvSeqAllZero si then ci\<lparr>ci_totalCost := 0, ci_totalBlockNum := 0\<rparr>
      else for_range 0 (u32 (sk_batchSize kn))
             (\<lambda>bIdx ci.
                let ci = sas_CalcBatchCost kn si bIdx ci
                in ci\<lparr>ci_totalCost := ci_totalCost ci + ci_bN2CostOfEachBatch ci bIdx * sk_kvHeadNum kn,
                      ci_totalBlockNum := u32 (ci_totalBlockNum ci + ci_bN2BlockOfEachBatch ci bIdx * sk_kvHeadNum kn)\<rparr>)
             ci)"

end
