(* ===== verification/SasAssign.thy ===== *)
theory SasAssign
  imports SasCost
begin

text \<open>
  The scheduling operator for sparse attention with shared KV, third part: the assignment of rows of basic
  blocks to the cube cores, the records for the reduction (FD), and the metadata the operator writes.
  \<^term>\<open>None\<close> is a loop that does not end, an index outside a vector, or a division by zero.
\<close>

section \<open>Results and contexts\<close>

record fd_result =
  fd_usedVecNum :: int
  fd_BN2Idx :: "int list"
  fd_MIdx :: "int list"
  fd_WorkspaceIdx :: "int list"
  fd_S2SplitNum :: "int list"
  fd_MSize :: "int list"
  fd_Idx :: "int list"
  fd_MStart :: "int list"
  fd_MNum :: "int list"

record split_result =
  sr_usedCoreNum :: int
  sr_bN2End :: "int list"
  sr_gS1End :: "int list"
  sr_s2End :: "int list"
  sr_firstFdDataWorkspaceIdx :: "int list"
  sr_maxCost :: int
  sr_numOfFdHead :: int
  sr_maxS2SplitNum :: int
  sr_fdRes :: fd_result

definition fd_result_init :: "int \<Rightarrow> int \<Rightarrow> fd_result" where
  "fd_result_init aicNum aivNum =
     \<lparr>fd_usedVecNum = 0, fd_BN2Idx = replicate (nat aicNum) 0, fd_MIdx = replicate (nat aicNum) 0,
      fd_WorkspaceIdx = replicate (nat aicNum) 0, fd_S2SplitNum = replicate (nat aicNum) 0,
      fd_MSize = replicate (nat aicNum) 0, fd_Idx = replicate (nat aivNum) 0, fd_MStart = replicate (nat aivNum) 0,
      fd_MNum = replicate (nat aivNum) 0\<rparr>"

definition split_result_init :: "int \<Rightarrow> int \<Rightarrow> split_result" where
  "split_result_init aicNum aivNum =
     \<lparr>sr_usedCoreNum = 0, sr_bN2End = replicate (nat aicNum) 0, sr_gS1End = replicate (nat aicNum) 0,
      sr_s2End = replicate (nat aicNum) 0, sr_firstFdDataWorkspaceIdx = replicate (nat aicNum) 0, sr_maxCost = 0,
      sr_numOfFdHead = 0, sr_maxS2SplitNum = 0, sr_fdRes = fd_result_init aicNum aivNum\<rparr>"

record core_cache =
  cc_costLimit :: int
  cc_cost :: int
  cc_block :: int

record sas_assign_context =
  ac_curBIdx :: int
  ac_curBN2Idx :: int
  ac_curS1GIdx :: int
  ac_curS2Idx :: int
  ac_curCoreIdx :: int
  ac_unassignedCost :: int
  ac_curKvSplitPart :: int
  ac_curFdDataNum :: int
  ac_bN2Cost :: int
  ac_bN2Block :: int
  ac_isFinished :: bool
  ac_batchCache :: sas_batch_cache
  ac_s1GCache :: sas_s1g_cache
  ac_coreCache :: core_cache

definition core_cache_init :: core_cache where
  "core_cache_init = \<lparr>cc_costLimit = 0, cc_cost = 0, cc_block = 0\<rparr>"

definition sas_assign_context_init :: sas_assign_context where
  "sas_assign_context_init =
     \<lparr>ac_curBIdx = 0, ac_curBN2Idx = 0, ac_curS1GIdx = 0, ac_curS2Idx = 0, ac_curCoreIdx = 0, ac_unassignedCost = 0,
      ac_curKvSplitPart = 1, ac_curFdDataNum = 1, ac_bN2Cost = 0, ac_bN2Block = 0, ac_isFinished = False,
      ac_batchCache = sas_batch_cache_init, ac_s1GCache = sas_s1g_cache_init, ac_coreCache = core_cache_init\<rparr>"

section \<open>Assigning to one core\<close>

text \<open>Assignment of cost and blocks to the current core.\<close>

definition take_load :: "int \<Rightarrow> int \<Rightarrow> sas_assign_context \<Rightarrow> sas_assign_context" where
  "take_load cost block ac =
     ac\<lparr>ac_coreCache := (ac_coreCache ac)\<lparr>cc_cost := cc_cost (ac_coreCache ac) + cost,
                                          cc_block := u32 (cc_block (ac_coreCache ac) + block)\<rparr>\<rparr>"

text \<open>The body of the loop of \<open>AssignByBatch\<close> behind the end test: the first row of the next batch.\<close>

definition next_batch :: "sas_kernel \<Rightarrow> sas_split_info \<Rightarrow> sas_cost_info \<Rightarrow> sas_assign_context \<Rightarrow> sas_assign_context" where
  "next_batch kn si ci ac =
     (let ac = (if tdiv (ac_curBN2Idx ac) (sk_kvHeadNum kn) \<noteq> ac_curBIdx ac
                then (let b = tdiv (ac_curBN2Idx ac) (sk_kvHeadNum kn)
                      in ac\<lparr>ac_curBIdx := b, ac_batchCache := sas_CalcBatchCache kn b (ac_batchCache ac)\<rparr>)
                else ac);
          ac = ac\<lparr>ac_bN2Cost := ci_bN2CostOfEachBatch ci (ac_curBIdx ac),
                  ac_bN2Block := ci_bN2BlockOfEachBatch ci (ac_curBIdx ac), ac_curS1GIdx := 0\<rparr>;
          sc = sas_CalcS1GCache kn si (ac_curS1GIdx ac) (ac_batchCache ac) (ac_s1GCache ac)
      in ac\<lparr>ac_s1GCache := sc, ac_curS2Idx := sc_s2Start sc\<rparr>)"

partial_function (option) AssignByBatch_loop ::
  "sas_kernel \<Rightarrow> sas_split_info \<Rightarrow> sas_cost_info \<Rightarrow> sas_assign_context \<Rightarrow> sas_assign_context option" where
  "AssignByBatch_loop kn si ci ac =
     (if ac_bN2Cost ac = 0 \<or>
         IsWithinTolerance (cc_costLimit (ac_coreCache ac))
           (tdiv (ci_bN2LastBlockCostOfEachBatch ci (ac_curBIdx ac)) FA_TOLERANCE_RATIO)
           (cc_cost (ac_coreCache ac) + ac_bN2Cost ac)
      then (let ac = take_load (ac_bN2Cost ac) (ac_bN2Block ac) ac;
                ac = ac\<lparr>ac_curBN2Idx := u32 (ac_curBN2Idx ac + 1)\<rparr>
            in if ac_curBN2Idx ac = u32 (sk_batchSize kn * sk_kvHeadNum kn)
               then Some (ac\<lparr>ac_curS1GIdx := 0, ac_curS2Idx := 0, ac_isFinished := True\<rparr>)
               else AssignByBatch_loop kn si ci (next_batch kn si ci ac))
      else Some ac)"

definition AssignByBatch ::
  "sas_kernel \<Rightarrow> sas_split_info \<Rightarrow> sas_cost_info \<Rightarrow> sas_assign_context \<Rightarrow> sas_assign_context option" where
  "AssignByBatch kn si ci ac = (if ac_isFinished ac then Some ac else AssignByBatch_loop kn si ci ac)"

text \<open>The inner loop of \<open>AssignByRow\<close>: the next row that has blocks.\<close>

partial_function (option) next_row ::
  "sas_kernel \<Rightarrow> sas_split_info \<Rightarrow> sas_assign_context \<Rightarrow> sas_assign_context option" where
  "next_row kn si ac =
     (let ac = ac\<lparr>ac_curS1GIdx := u32 (ac_curS1GIdx ac + 1)\<rparr>;
          ac = ac\<lparr>ac_s1GCache := sas_CalcS1GCache kn si (ac_curS1GIdx ac) (ac_batchCache ac) (ac_s1GCache ac)\<rparr>
      in if sc_s1GBlock (ac_s1GCache ac) = 0 then next_row kn si ac else Some ac)"

definition take_row :: "sas_assign_context \<Rightarrow> sas_assign_context" where
  "take_row ac =
     (let cost = sc_s1GCost (ac_s1GCache ac); block = sc_s1GBlock (ac_s1GCache ac); ac = take_load cost block ac
      in ac\<lparr>ac_bN2Cost := (if ac_bN2Cost ac > cost then ac_bN2Cost ac - cost else 0),
            ac_bN2Block := (if ac_bN2Block ac > block then ac_bN2Block ac - block else 0)\<rparr>)"

partial_function (option) AssignByRow_loop ::
  "sas_kernel \<Rightarrow> sas_split_info \<Rightarrow> sas_assign_context \<Rightarrow> sas_assign_context option" where
  "AssignByRow_loop kn si ac =
     (if IsWithinTolerance (cc_costLimit (ac_coreCache ac))
           (tdiv (sc_s1GLastBlockCost (ac_s1GCache ac)) FA_TOLERANCE_RATIO)
           (cc_cost (ac_coreCache ac) + sc_s1GCost (ac_s1GCache ac))
      then do {
        ac \<leftarrow> next_row kn si (take_row ac);
        AssignByRow_loop kn si (ac\<lparr>ac_curS2Idx := sc_s2Start (ac_s1GCache ac)\<rparr>) }
      else Some ac)"

definition AssignByRow ::
  "sas_kernel \<Rightarrow> sas_split_info \<Rightarrow> sas_assign_context \<Rightarrow> sas_assign_context option" where
  "AssignByRow kn si ac = (if ac_isFinished ac then Some ac else AssignByRow_loop kn si ac)"

definition CalcCurBlockCost :: "sas_assign_context \<Rightarrow> int" where
  "CalcCurBlockCost ac =
     (let sc = ac_s1GCache ac in
      if ac_curS2Idx ac < sc_cmpS2Start sc
      then (if ac_curS2Idx ac = u32 (sc_cmpS2Start sc - 1) then sc_winS1GLastBlockCost sc else sc_winS1GNormalBlockCost sc)
      else (if ac_curS2Idx ac = u32 (sc_s2End sc - 1) then sc_cmpS1GLastBlockCost sc else sc_cmpS1GNormalBlockCost sc))"

text \<open>One block, as \<open>AssignByBlock\<close> and \<open>ForceAssign\<close> assign it.\<close>

definition take_block :: "int \<Rightarrow> sas_assign_context \<Rightarrow> sas_assign_context" where
  "take_block curCost ac =
     (let ac = take_load curCost 1 ac
      in ac\<lparr>ac_curS2Idx := u32 (ac_curS2Idx ac + 1), ac_bN2Cost := ac_bN2Cost ac - curCost,
            ac_bN2Block := u32 (ac_bN2Block ac - 1),
            ac_s1GCache := (ac_s1GCache ac)\<lparr>sc_s1GCost := sc_s1GCost (ac_s1GCache ac) - curCost,
                                            sc_s1GBlock := u32 (sc_s1GBlock (ac_s1GCache ac) - 1)\<rparr>\<rparr>)"

partial_function (option) AssignByBlock_loop :: "int \<Rightarrow> sas_assign_context \<Rightarrow> sas_assign_context option" where
  "AssignByBlock_loop curCost ac =
     (if IsWithinTolerance (cc_costLimit (ac_coreCache ac)) (tdiv curCost FA_TOLERANCE_RATIO)
           (cc_cost (ac_coreCache ac) + curCost)
      then (let ac = take_block curCost ac in AssignByBlock_loop (CalcCurBlockCost ac) ac)
      else Some ac)"

definition AssignByBlock :: "sas_kernel \<Rightarrow> sas_assign_context \<Rightarrow> sas_assign_context option" where
  "AssignByBlock kn ac =
     (if ac_isFinished ac \<or> \<not> sk_supportFd kn then Some ac else AssignByBlock_loop (CalcCurBlockCost ac) ac)"

definition UpdateCursor ::
  "sas_kernel \<Rightarrow> sas_split_info \<Rightarrow> sas_cost_info \<Rightarrow> sas_assign_context \<Rightarrow> sas_assign_context" where
  "UpdateCursor kn si ci ac =
     (let (ac, updateS1G) =
            (if ac_curS2Idx ac \<ge> sc_s2End (ac_s1GCache ac)
             then (ac\<lparr>ac_curS2Idx := 0, ac_curS1GIdx := u32 (ac_curS1GIdx ac + 1)\<rparr>, True) else (ac, False));
          ac = (if ac_curS1GIdx ac \<ge> si_s1GBaseNum si (ac_curBIdx ac)
                then ac\<lparr>ac_curS1GIdx := 0, ac_curBN2Idx := u32 (ac_curBN2Idx ac + 1)\<rparr> else ac)
      in if ac_curBN2Idx ac = u32 (sk_batchSize kn * sk_kvHeadNum kn)
         then ac\<lparr>ac_curS1GIdx := 0, ac_curS2Idx := 0, ac_isFinished := True\<rparr>
         else (let (ac, updateBatch, updateS1G) =
                     (if tdiv (ac_curBN2Idx ac) (sk_kvHeadNum kn) \<noteq> ac_curBIdx ac
                      then (ac\<lparr>ac_curBIdx := tdiv (ac_curBN2Idx ac) (sk_kvHeadNum kn), ac_curS1GIdx := 0\<rparr>, True, True)
                      else (ac, False, updateS1G));
                   ac = (if updateBatch
                         then ac\<lparr>ac_batchCache := sas_CalcBatchCache kn (ac_curBIdx ac) (ac_batchCache ac),
                                 ac_bN2Cost := ci_bN2CostOfEachBatch ci (ac_curBIdx ac),
                                 ac_bN2Block := ci_bN2BlockOfEachBatch ci (ac_curBIdx ac)\<rparr>
                         else ac)
               in if updateS1G
                  then (let sc = sas_CalcS1GCache kn si (ac_curS1GIdx ac) (ac_batchCache ac) (ac_s1GCache ac)
                        in ac\<lparr>ac_s1GCache := sc,
                              ac_curS2Idx := (if sk_supportFd kn then sc_winS2Start sc else 0)\<rparr>)
                  else ac))"

definition ForceAssign ::
  "sas_kernel \<Rightarrow> sas_split_info \<Rightarrow> sas_cost_info \<Rightarrow> sas_assign_context \<Rightarrow> sas_assign_context" where
  "ForceAssign kn si ci ac =
     (if ac_isFinished ac then ac else UpdateCursor kn si ci (take_block (CalcCurBlockCost ac) ac))"

section \<open>Reduction records\<close>

definition IsNeedRecordFDInfo :: "sas_assign_context \<Rightarrow> split_result \<Rightarrow> bool option" where
  "IsNeedRecordFDInfo ac res =
     (if ac_curCoreIdx ac = 0 then Some False
      else if ac_curKvSplitPart ac \<le> 1 then Some False
      else do {
        b \<leftarrow> vget (sr_bN2End res) (ac_curCoreIdx ac - 1);
        g \<leftarrow> vget (sr_gS1End res) (ac_curCoreIdx ac - 1);
        Some (\<not> (ac_curBN2Idx ac = b \<and> ac_curS1GIdx ac = g)) })"

definition RecordFDInfo ::
  "sas_kernel \<Rightarrow> sas_split_info \<Rightarrow> sas_assign_context \<Rightarrow> split_result \<Rightarrow> split_result option" where
  "RecordFDInfo kn si ac res =
     do {
       bEnd \<leftarrow> vget (sr_bN2End res) (ac_curCoreIdx ac - 1);
       splitBIdx \<leftarrow> cdiv bEnd (sk_kvHeadNum kn);
       splitS1GIdx \<leftarrow> vget (sr_gS1End res) (ac_curCoreIdx ac - 1);
       let s1Size = sas_GetS1SeqSize kn splitBIdx;
       let curFdS1gSize = (if splitS1GIdx = u32 (si_s1GBaseNum si splitBIdx - 1)
                           then u32 (s1Size * sk_groupSize kn - splitS1GIdx * sk_mBaseSize kn) else sk_mBaseSize kn);
       let n = sr_numOfFdHead res;
       let fd = sr_fdRes res;
       v1 \<leftarrow> vset (fd_BN2Idx fd) n bEnd;
       v2 \<leftarrow> vset (fd_MIdx fd) n splitS1GIdx;
       v3 \<leftarrow> vset (fd_WorkspaceIdx fd) n (u32 (ac_curFdDataNum ac - ac_curKvSplitPart ac));
       v4 \<leftarrow> vset (fd_S2SplitNum fd) n (ac_curKvSplitPart ac);
       v5 \<leftarrow> vset (fd_MSize fd) n curFdS1gSize;
       Some (res\<lparr>sr_maxS2SplitNum := max (sr_maxS2SplitNum res) (ac_curKvSplitPart ac),
                 sr_fdRes := fd\<lparr>fd_BN2Idx := v1, fd_MIdx := v2, fd_WorkspaceIdx := v3, fd_S2SplitNum := v4, fd_MSize := v5\<rparr>,
                 sr_numOfFdHead := n + 1\<rparr>) }"

section \<open>The plan\<close>

definition AssignBlocksToCore ::
  "sas_kernel \<Rightarrow> sas_split_info \<Rightarrow> sas_cost_info \<Rightarrow> sas_assign_context \<times> split_result \<Rightarrow>
    (sas_assign_context \<times> split_result) option" where
  "AssignBlocksToCore kn si ci st =
     (case st of (ac, res) \<Rightarrow> do {
       avgCost \<leftarrow> cdiv (ac_unassignedCost ac) (u32 (sk_aicCoreNum kn - ac_curCoreIdx ac));
       let limit = (if \<not> sk_supportFd kn then max avgCost (ci_maxS1GCost ci) else avgCost);
       let ac = ac\<lparr>ac_coreCache := core_cache_init\<lparr>cc_costLimit := limit\<rparr>\<rparr>;
       ac \<leftarrow> AssignByBatch kn si ci ac;
       ac \<leftarrow> AssignByRow kn si ac;
       ac \<leftarrow> AssignByBlock kn ac;
       let ac = (if cc_block (ac_coreCache ac) = 0 \<and> sk_supportFd kn then ForceAssign kn si ci ac else ac);
       bEnds \<leftarrow> vset (sr_bN2End res) (ac_curCoreIdx ac) (ac_curBN2Idx ac);
       gEnds \<leftarrow> vset (sr_gS1End res) (ac_curCoreIdx ac) (ac_curS1GIdx ac);
       sEnds \<leftarrow> vset (sr_s2End res) (ac_curCoreIdx ac) (ac_curS2Idx ac);
       let res = res\<lparr>sr_bN2End := bEnds, sr_gS1End := gEnds, sr_s2End := sEnds,
                     sr_maxCost := max (sr_maxCost res) (cc_cost (ac_coreCache ac))\<rparr>;
       let ac = ac\<lparr>ac_unassignedCost := ac_unassignedCost ac - cc_cost (ac_coreCache ac)\<rparr>;
       need \<leftarrow> IsNeedRecordFDInfo ac res;
       (ac, res) \<leftarrow> (if need then do { res \<leftarrow> RecordFDInfo kn si ac res; Some (ac\<lparr>ac_curKvSplitPart := 1\<rparr>, res) }
                     else Some (ac, res));
       Some (if ac_curS2Idx ac > sc_s2Start (ac_s1GCache ac) \<and> ac_curS2Idx ac \<le> sc_s2End (ac_s1GCache ac)
             then ac\<lparr>ac_curKvSplitPart := u32 (ac_curKvSplitPart ac + 1)\<rparr> else ac, res) })"

text \<open>
  The loop over the cores. The result carries whether the loop was left by \<open>return\<close> (the plan became
  dearer than the limit), where \<open>usedCoreNum\<close> stays zero.
\<close>

fun CalcSplitPlan_loop ::
  "sas_kernel \<Rightarrow> sas_split_info \<Rightarrow> sas_cost_info \<Rightarrow> int \<Rightarrow> nat \<Rightarrow> int \<Rightarrow> sas_assign_context \<times> split_result \<Rightarrow>
    (bool \<times> sas_assign_context \<times> split_result) option" where
  "CalcSplitPlan_loop kn si ci costLimit 0 i (ac, res) = Some (False, ac, res)"
| "CalcSplitPlan_loop kn si ci costLimit (Suc n) i (ac, res) =
     (if sr_maxCost res > costLimit then Some (True, ac, res)
      else if ac_isFinished ac \<or> ac_unassignedCost ac \<le> 0 then Some (False, ac, res)
      else do {
        (ac, res) \<leftarrow> AssignBlocksToCore kn si ci (ac\<lparr>ac_curCoreIdx := i\<rparr>, res);
        CalcSplitPlan_loop kn si ci costLimit n (i + 1) (ac, res) })"

definition CalcSplitPlan ::
  "sas_kernel \<Rightarrow> int \<Rightarrow> sas_split_info \<Rightarrow> sas_cost_info \<Rightarrow> split_result \<Rightarrow> split_result option" where
  "CalcSplitPlan kn costLimit si ci res =
     (if sk_aicCoreNum kn = 0 then Some res
      else (let res = res\<lparr>sr_maxCost := 0, sr_usedCoreNum := 0\<rparr>;
                bc = sas_CalcBatchCache kn 0 sas_batch_cache_init;
                sc = sas_CalcS1GCache kn si 0 bc sas_s1g_cache_init;
                ac = sas_assign_context_init\<lparr>ac_unassignedCost := ci_totalCost ci, ac_bN2Cost := ci_bN2CostOfEachBatch ci 0,
                       ac_bN2Block := ci_bN2BlockOfEachBatch ci 0, ac_batchCache := bc, ac_s1GCache := sc,
                       ac_curS2Idx := sc_s2Start sc\<rparr>
            in do {
              (returned, ac, res) \<leftarrow> CalcSplitPlan_loop kn si ci costLimit (nat (sk_aicCoreNum kn)) 0 (ac, res);
              Some (if returned then res else res\<lparr>sr_usedCoreNum := u32 (ac_curCoreIdx ac + 1)\<rparr>) }))"

definition SplitFD :: "sas_kernel \<Rightarrow> split_result \<Rightarrow> split_result option" where
  "SplitFD kn res =
     do {
       let fd = sr_fdRes res;
       totalFDLoad \<leftarrow> for_opt 0 (sr_numOfFdHead res)
         (\<lambda>i t. do { s \<leftarrow> vget (fd_S2SplitNum fd) i; m \<leftarrow> vget (fd_MSize fd) i; Some (u64 (t + u32 (s * m))) }) 0;
       averageLoad \<leftarrow> cdiv totalFDLoad (sk_aivCoreNum kn);
       (fd', curCoreIndex) \<leftarrow> for_opt 0 (sr_numOfFdHead res)
         (\<lambda>i (fd, cur). do {
            s \<leftarrow> vget (fd_S2SplitNum fd) i;
            m \<leftarrow> vget (fd_MSize fd) i;
            curFDVectorNum \<leftarrow> map_option u32 (cdiv (u32 (s * m)) averageLoad);
            curAveMSize \<leftarrow> cdiv m curFDVectorNum;
            for_opt 0 curFDVectorNum
              (\<lambda>vid (fd, cur). do {
                 a \<leftarrow> vset (fd_Idx fd) cur i;
                 b \<leftarrow> vset (fd_MStart fd) cur (u32 (vid * curAveMSize));
                 c \<leftarrow> vset (fd_MNum fd) cur
                        (if vid < curFDVectorNum - 1 then curAveMSize else u32 (m - vid * curAveMSize));
                 Some (fd\<lparr>fd_Idx := a, fd_MStart := b, fd_MNum := c\<rparr>, cur + 1) })
              (fd, cur) })
         (fd, 0);
       Some (res\<lparr>sr_fdRes := fd'\<lparr>fd_usedVecNum := curCoreIndex\<rparr>\<rparr>) }"

definition BalanceSchedule :: "sas_kernel \<Rightarrow> split_result \<Rightarrow> split_result option" where
  "BalanceSchedule kn res =
     do {
       si \<leftarrow> sas_CalcSplitInfo kn sas_split_info_init;
       if si_isKvSeqAllZero si
       then do {
         b \<leftarrow> vset (sr_bN2End res) 0 (u32 (sk_batchSize kn * sk_kvHeadNum kn));
         g \<leftarrow> vset (sr_gS1End res) 0 0;
         s \<leftarrow> vset (sr_s2End res) 0 0;
         Some (res\<lparr>sr_usedCoreNum := 1, sr_bN2End := b, sr_gS1End := g, sr_s2End := s\<rparr>) }
       else do {
         let ci = sas_CalcCostInfo kn si sas_cost_info_init;
         let res = res\<lparr>sr_maxCost := INT64_MAX, sr_usedCoreNum := 1\<rparr>;
         res \<leftarrow> CalcSplitPlan kn (sr_maxCost res) si ci res;
         res \<leftarrow> (if sr_numOfFdHead res > 0 then SplitFD kn res else Some res);
         Some (res\<lparr>sr_usedCoreNum := max (sr_usedCoreNum res) 1\<rparr>) } }"

section \<open>Metadata\<close>

record sas_metadata =
  faMetadata :: "int list list"
  fdMetadata :: "int list list"

abbreviation (input) FA_CORE_ENABLE_INDEX :: int where "FA_CORE_ENABLE_INDEX \<equiv> 0"
abbreviation (input) FA_BN2_START_INDEX :: int where "FA_BN2_START_INDEX \<equiv> 1"
abbreviation (input) FA_M_START_INDEX :: int where "FA_M_START_INDEX \<equiv> 2"
abbreviation (input) FA_S2_START_INDEX :: int where "FA_S2_START_INDEX \<equiv> 3"
abbreviation (input) FA_BN2_END_INDEX :: int where "FA_BN2_END_INDEX \<equiv> 4"
abbreviation (input) FA_M_END_INDEX :: int where "FA_M_END_INDEX \<equiv> 5"
abbreviation (input) FA_S2_END_INDEX :: int where "FA_S2_END_INDEX \<equiv> 6"
abbreviation (input) FA_FIRST_FD_DATA_WORKSPACE_IDX_INDEX :: int where "FA_FIRST_FD_DATA_WORKSPACE_IDX_INDEX \<equiv> 7"

definition meta_set :: "int \<Rightarrow> int \<Rightarrow> int \<Rightarrow> int list list \<Rightarrow> int list list option" where
  "meta_set i j v m = do { row \<leftarrow> vget m i; row \<leftarrow> vset row j v; vset m i row }"

definition gen_fa_row :: "split_result \<Rightarrow> int \<Rightarrow> int list list \<Rightarrow> int list list option" where
  "gen_fa_row res i m =
     (if i \<ge> sr_usedCoreNum res then meta_set i FA_CORE_ENABLE_INDEX 0 m
      else do {
        m \<leftarrow> meta_set i FA_CORE_ENABLE_INDEX 1 m;
        b \<leftarrow> (if i = 0 then Some 0 else vget (sr_bN2End res) (i - 1));
        m \<leftarrow> meta_set i FA_BN2_START_INDEX b m;
        g \<leftarrow> (if i = 0 then Some 0 else vget (sr_gS1End res) (i - 1));
        m \<leftarrow> meta_set i FA_M_START_INDEX g m;
        s \<leftarrow> (if i = 0 then Some 0 else vget (sr_s2End res) (i - 1));
        m \<leftarrow> meta_set i FA_S2_START_INDEX s m;
        b' \<leftarrow> vget (sr_bN2End res) i;
        m \<leftarrow> meta_set i FA_BN2_END_INDEX b' m;
        g' \<leftarrow> vget (sr_gS1End res) i;
        m \<leftarrow> meta_set i FA_M_END_INDEX g' m;
        s' \<leftarrow> vget (sr_s2End res) i;
        m \<leftarrow> meta_set i FA_S2_END_INDEX s' m;
        w \<leftarrow> vget (sr_firstFdDataWorkspaceIdx res) i;
        meta_set i FA_FIRST_FD_DATA_WORKSPACE_IDX_INDEX w m })"

definition gen_fd_row :: "fd_result \<Rightarrow> int \<Rightarrow> int list list \<Rightarrow> int list list option" where
  "gen_fd_row fd i m =
     (if i \<ge> fd_usedVecNum fd then meta_set i 0 0 m
      else do {
        m \<leftarrow> meta_set i 0 1 m;
        curFdIdx \<leftarrow> vget (fd_Idx fd) i;
        v \<leftarrow> vget (fd_BN2Idx fd) curFdIdx;
        m \<leftarrow> meta_set i 1 v m;
        v \<leftarrow> vget (fd_MIdx fd) curFdIdx;
        m \<leftarrow> meta_set i 2 v m;
        v \<leftarrow> vget (fd_WorkspaceIdx fd) curFdIdx;
        m \<leftarrow> meta_set i 3 v m;
        v \<leftarrow> vget (fd_S2SplitNum fd) curFdIdx;
        m \<leftarrow> meta_set i 4 v m;
        v \<leftarrow> vget (fd_MStart fd) i;
        m \<leftarrow> meta_set i 5 v m;
        v \<leftarrow> vget (fd_MNum fd) i;
        meta_set i 6 v m })"

definition GenMetaData :: "sas_kernel \<Rightarrow> split_result \<Rightarrow> sas_metadata \<Rightarrow> sas_metadata option" where
  "GenMetaData kn res md =
     do {
       fa \<leftarrow> for_opt 0 (sk_aicCoreNum kn) (gen_fa_row res) (faMetadata md);
       fd \<leftarrow> for_opt 0 (sk_aivCoreNum kn) (gen_fd_row (sr_fdRes res)) (fdMetadata md);
       Some \<lparr>faMetadata = fa, fdMetadata = fd\<rparr> }"

datatype kernel_status = KERNEL_STATUS_OK | KERNEL_STATUS_PARAM_INVALID

definition sas_Compute ::
  "block_cost \<Rightarrow> sas_context \<Rightarrow> sas_metadata \<Rightarrow> (kernel_status \<times> sas_metadata) option" where
  "sas_Compute tc c md =
     (case sas_Prepare c (sas_kernel_init tc) of
        None \<Rightarrow> None
      | Some None \<Rightarrow> Some (KERNEL_STATUS_PARAM_INVALID, md)
      | Some (Some kn) \<Rightarrow> do {
          res \<leftarrow> BalanceSchedule kn (split_result_init (sk_aicCoreNum kn) (sk_aivCoreNum kn));
          md \<leftarrow> GenMetaData kn res md;
          Some (KERNEL_STATUS_OK, md) })"

end
