(* ===== verification/SasRows.thy ===== *)
theory SasRows
  imports SasAssign
begin

text \<open>
  Rows of basic blocks: what the cache of a row holds does not depend on the cache it overwrites, a row costs
  nothing exactly when it has no blocks, and the split of the batches.
\<close>

section \<open>Rows\<close>

lemma sas_CalcBatchCache_any: "sas_CalcBatchCache kn b bc = sas_CalcBatchCache kn b sas_batch_cache_init"
  by (cases bc) (simp add: sas_CalcBatchCache_def sas_batch_cache_init_def Let_def)

lemma bc_bIdx_CalcBatchCache [simp]: "bc_bIdx (sas_CalcBatchCache kn b bc) = b"
  by (simp add: sas_CalcBatchCache_def Let_def)

definition row_of :: "sas_kernel \<Rightarrow> sas_split_info \<Rightarrow> int \<Rightarrow> int \<Rightarrow> sas_s1g_cache" where
  "row_of kn si b i = sas_CalcS1GCache kn si i (sas_CalcBatchCache kn b sas_batch_cache_init) sas_s1g_cache_init"

text \<open>The fields of a row's cache the assignment reads.\<close>

definition same_row :: "sas_s1g_cache \<Rightarrow> sas_s1g_cache \<Rightarrow> bool" where
  "same_row a b \<longleftrightarrow> sc_s1GCost a = sc_s1GCost b \<and> sc_s1GBlock a = sc_s1GBlock b \<and>
     sc_s1GLastBlockCost a = sc_s1GLastBlockCost b \<and> sc_s2Start a = sc_s2Start b \<and> sc_s2End a = sc_s2End b"

text \<open>The caches agree on the fields each stage of \<open>CalcS1GCache\<close> has written.\<close>

lemma range_stage:
  fixes kn :: sas_kernel and r :: "int \<times> int" and bc :: sas_batch_cache
  assumes "sc_bIdx a = sc_bIdx b" "sc_s1GIdx a = sc_s1GIdx b"
  defines "a' \<equiv> sas_CalcBlockRangeAndTailSize kn r bc a" and "b' \<equiv> sas_CalcBlockRangeAndTailSize kn r bc b"
  shows "sc_bIdx a' = sc_bIdx b'" "sc_s1GIdx a' = sc_s1GIdx b'" "sc_winS2Start a' = sc_winS2Start b'"
    "sc_winS2End a' = sc_winS2End b'" "sc_winS2TailSize a' = sc_winS2TailSize b'" "sc_cmpS2Start a' = sc_cmpS2Start b'"
    "sc_cmpS2End a' = sc_cmpS2End b'" "sc_cmpS2TailSize a' = sc_cmpS2TailSize b'"
  using assms(1,2)
  by (auto simp: a'_def b'_def sas_CalcBlockRangeAndTailSize_def Let_def split: prod.splits)

text \<open>
  Block number, cost, cost of the last block and cost of a normal block of one part of a row, from the costs
  of a normal and of a tail block.
\<close>

definition part_vals :: "int \<Rightarrow> int \<Rightarrow> int \<Rightarrow> int \<Rightarrow> int \<Rightarrow> int \<times> int \<times> int \<times> int" where
  "part_vals normal tail s e tailSize =
     (if s \<ge> e then (0, 0, 0, 0)
      else (let block = u32 (e - s); k = (if tailSize \<noteq> 0 then 1 else 0)
            in (block, normal * u32 (block - k) + tail * k, (if k > 0 then tail else normal), normal)))"

definition tail_row :: "sas_split_info \<Rightarrow> int \<Rightarrow> int \<Rightarrow> bool" where
  "tail_row si b i \<longleftrightarrow> i = u32 (si_s1GBaseNum si b - 1) \<and> si_s1GTailSize si b \<noteq> 0"

definition win_part :: "block_cost \<Rightarrow> sas_split_info \<Rightarrow> sas_s1g_cache \<Rightarrow> int \<times> int \<times> int \<times> int" where
  "win_part tc si sc = (let row = (if tail_row si (sc_bIdx sc) (sc_s1GIdx sc) then WIN_TAIL_BLOCK else WIN_NORMAL_BLOCK)
     in part_vals (tc row WIN_NORMAL_BLOCK) (tc row WIN_TAIL_BLOCK) (sc_winS2Start sc) (sc_winS2End sc) (sc_winS2TailSize sc))"

definition cmp_part :: "block_cost \<Rightarrow> sas_split_info \<Rightarrow> sas_s1g_cache \<Rightarrow> int \<times> int \<times> int \<times> int" where
  "cmp_part tc si sc = (let row = (if tail_row si (sc_bIdx sc) (sc_s1GIdx sc) then CMP_TAIL_BLOCK else CMP_NORMAL_BLOCK)
     in part_vals (tc row CMP_NORMAL_BLOCK) (tc row CMP_TAIL_BLOCK) (sc_cmpS2Start sc) (sc_cmpS2End sc) (sc_cmpS2TailSize sc))"

lemma win_stage:
  "sas_CalcWinS1GCache tc si sc = (case win_part tc si sc of (b, c, l, n) \<Rightarrow>
     sc\<lparr>sc_winS1GBlock := b, sc_winS1GCost := c, sc_winS1GLastBlockCost := l, sc_winS1GNormalBlockCost := n\<rparr>)"
  by (simp add: sas_CalcWinS1GCache_def win_part_def part_vals_def tail_row_def Let_def)

lemma cmp_stage:
  "sas_CalcCmpS1GCache tc si sc = (case cmp_part tc si sc of (b, c, l, n) \<Rightarrow>
     sc\<lparr>sc_cmpS1GBlock := b, sc_cmpS1GCost := c, sc_cmpS1GLastBlockCost := l, sc_cmpS1GNormalBlockCost := n\<rparr>)"
  by (simp add: sas_CalcCmpS1GCache_def cmp_part_def part_vals_def tail_row_def Let_def)

definition cost_stage :: "block_cost \<Rightarrow> sas_split_info \<Rightarrow> sas_s1g_cache \<Rightarrow> sas_s1g_cache" where
  "cost_stage tc si sc = sas_GatherWinAndCmpCache (sas_CalcCmpS1GCache tc si (sas_CalcWinS1GCache tc si sc))"

lemma cost_stage_vals:
  assumes w: "win_part tc si sc = (wb, wc, wl, wn)" and c: "cmp_part tc si sc = (cb, cc, cl, cn)"
  shows "sc_s1GBlock (cost_stage tc si sc) = u32 (wb + cb)" "sc_s1GCost (cost_stage tc si sc) = wc + cc"
    "sc_s1GLastBlockCost (cost_stage tc si sc) = (if cb > 0 then cl else wl)"
    "sc_s2Start (cost_stage tc si sc) = (if wb > 0 then sc_winS2Start sc else sc_cmpS2Start sc)"
    "sc_s2End (cost_stage tc si sc) = (if cb > 0 then sc_cmpS2End sc else sc_winS2End sc)"
proof -
  let ?s = "sc\<lparr>sc_winS1GBlock := wb, sc_winS1GCost := wc, sc_winS1GLastBlockCost := wl, sc_winS1GNormalBlockCost := wn\<rparr>"
  have c': "cmp_part tc si ?s = (cb, cc, cl, cn)" using c by (simp add: cmp_part_def)
  have eq: "cost_stage tc si sc = sas_GatherWinAndCmpCache
     (?s\<lparr>sc_cmpS1GBlock := cb, sc_cmpS1GCost := cc, sc_cmpS1GLastBlockCost := cl, sc_cmpS1GNormalBlockCost := cn\<rparr>)"
    unfolding cost_stage_def win_stage w prod.case cmp_stage c' ..
  show "sc_s1GBlock (cost_stage tc si sc) = u32 (wb + cb)" "sc_s1GCost (cost_stage tc si sc) = wc + cc"
    "sc_s1GLastBlockCost (cost_stage tc si sc) = (if cb > 0 then cl else wl)"
    "sc_s2Start (cost_stage tc si sc) = (if wb > 0 then sc_winS2Start sc else sc_cmpS2Start sc)"
    "sc_s2End (cost_stage tc si sc) = (if cb > 0 then sc_cmpS2End sc else sc_winS2End sc)"
    unfolding eq by (simp_all add: sas_GatherWinAndCmpCache_def Let_def)
qed

lemma cost_stage_cong:
  assumes "sc_bIdx a = sc_bIdx b" "sc_s1GIdx a = sc_s1GIdx b" "sc_winS2Start a = sc_winS2Start b"
    "sc_winS2End a = sc_winS2End b" "sc_winS2TailSize a = sc_winS2TailSize b" "sc_cmpS2Start a = sc_cmpS2Start b"
    "sc_cmpS2End a = sc_cmpS2End b" "sc_cmpS2TailSize a = sc_cmpS2TailSize b"
  shows "same_row (cost_stage tc si a) (cost_stage tc si b)"
proof -
  obtain wb wc wl wn where w: "win_part tc si a = (wb, wc, wl, wn)" by (cases "win_part tc si a") auto
  obtain cb cc cl cn where c: "cmp_part tc si a = (cb, cc, cl, cn)" by (cases "cmp_part tc si a") auto
  have "win_part tc si b = (wb, wc, wl, wn)" "cmp_part tc si b = (cb, cc, cl, cn)"
    using w c assms by (simp_all add: win_part_def cmp_part_def)
  note v = cost_stage_vals [OF w c] cost_stage_vals [OF this]
  show ?thesis unfolding same_row_def v by (simp add: assms)
qed

definition row_table :: "sas_kernel \<Rightarrow> sas_split_info \<Rightarrow> sas_s1g_cache \<Rightarrow> block_cost" where
  "row_table kn si sc = sas_CalcCostTable kn (sk_mBaseSize kn) (sk_s2BaseSize kn) (si_s1GTailSize si (sc_bIdx sc))
     (u32 (sc_winS2TailSize sc)) (u32 (sc_cmpS2TailSize sc)) (sk_typeCost kn)"

definition range_cache :: "sas_kernel \<Rightarrow> int \<Rightarrow> sas_batch_cache \<Rightarrow> sas_s1g_cache \<Rightarrow> sas_s1g_cache" where
  "range_cache kn i bc sc = sas_CalcBlockRangeAndTailSize kn (sas_CalcS2TokenRange kn i bc) bc (sc\<lparr>sc_bIdx := bc_bIdx bc, sc_s1GIdx := i\<rparr>)"

lemma sas_CalcS1GCache_stages:
  "si_s1GBaseNum si (bc_bIdx bc) \<noteq> 0 \<Longrightarrow>
     sas_CalcS1GCache kn si i bc sc = cost_stage (row_table kn si (range_cache kn i bc sc)) si (range_cache kn i bc sc)"
  by (simp add: sas_CalcS1GCache_def Let_def cost_stage_def row_table_def range_cache_def)

lemma sas_CalcS1GCache_any:
  assumes "si_s1GBaseNum si (bc_bIdx bc) \<noteq> 0"
  shows "same_row (sas_CalcS1GCache kn si i bc sc) (sas_CalcS1GCache kn si i bc sc')"
proof -
  note st = range_stage [of "sc\<lparr>sc_bIdx := bc_bIdx bc, sc_s1GIdx := i\<rparr>" "sc'\<lparr>sc_bIdx := bc_bIdx bc, sc_s1GIdx := i\<rparr>"
      kn "sas_CalcS2TokenRange kn i bc" bc, folded range_cache_def, simplified]
  have t: "row_table kn si (range_cache kn i bc sc) = row_table kn si (range_cache kn i bc sc')"
    unfolding row_table_def st ..
  show ?thesis unfolding sas_CalcS1GCache_stages [OF assms] t by (rule cost_stage_cong) (rule st)+
qed

lemma same_row_refl [simp]: "same_row a a"
  by (simp add: same_row_def)

lemma same_row_CalcS1GCache:
  "same_row (sas_CalcS1GCache kn si i (sas_CalcBatchCache kn b bc) sc) (row_of kn si b i)"
proof (cases "si_s1GBaseNum si b = 0")
  case True
  then show ?thesis by (simp add: same_row_def row_of_def sas_CalcS1GCache_def)
next
  case False
  then show ?thesis
    unfolding row_of_def sas_CalcBatchCache_any [of kn b bc] by (intro sas_CalcS1GCache_any) simp
qed


section \<open>Costs of a row\<close>

text \<open>A kernel as \<open>Prepare\<close> leaves it, with sizes below the limits of the block arithmetic.\<close>

definition sas_ok :: "sas_kernel \<Rightarrow> bool" where
  "sas_ok kn \<longleftrightarrow> sk_kvHeadNum kn = 1 \<and> \<not> sk_supportFd kn \<and> 0 < sk_groupSize kn \<and> sk_groupSize kn < 2147483648 \<and>
     0 < sk_mBaseSize kn \<and> sk_mBaseSize kn < 2147483648 \<and> 128 \<le> sk_s2BaseSize kn \<and> sk_s2BaseSize kn < 65536 \<and>
     sk_isS1G kn \<and> (sk_hasCmpKv kn \<longrightarrow> 1 < sk_cmpRatio kn) \<and> (\<not> sk_hasCmpKv kn \<longrightarrow> \<not> sk_isCFA kn \<and> \<not> sk_isSCFA kn) \<and>
     0 \<le> sk_batchSize kn \<and> sk_batchSize kn < 2147483648 \<and>
     0 < sk_aicCoreNum kn \<and> sk_aicCoreNum kn < 65536"

definition seq_ok :: "sas_kernel \<Rightarrow> int \<Rightarrow> bool" where
  "seq_ok kn b \<longleftrightarrow> sas_GetS1SeqSize kn b * sk_groupSize kn + sk_mBaseSize kn < 2147483648 \<and> sas_GetS2SeqSize kn b < 2147483648"

lemma seq_nonneg [simp]: "0 \<le> sas_GetS1SeqSize kn b" "0 \<le> sas_GetS2SeqSize kn b"
  by (simp_all add: sas_GetS1SeqSize_def sas_GetS2SeqSize_def split: option.splits)

lemma WinCalcCost_pos: "0 < m \<Longrightarrow> m < 4294967280 \<Longrightarrow> 0 \<le> k \<Longrightarrow> k < 4294967200 \<Longrightarrow> 0 < WinCalcCost m k"
proof -
  assume h: "0 < m" "m < 4294967280" "0 \<le> k" "k < 4294967200"
  have "1 \<le> (m + 15) div 16" "(m + 15) div 16 < 268435456" "0 \<le> (k + 63) div 64" "(k + 63) div 64 < 67108864" using h by auto
  then show ?thesis using h by (simp add: WinCalcCost_def Let_def u32_id)
qed

lemma CmpCalcCost_pos: "0 < m \<Longrightarrow> m < 4294967280 \<Longrightarrow> 0 \<le> k \<Longrightarrow> k < 4294967200 \<Longrightarrow> 0 < CmpCalcCost m k"
  using WinCalcCost_pos by (simp add: CmpCalcCost_def WinCalcCost_def)

lemma part_vals_ok:
  assumes "0 < normal" "tailSize \<noteq> 0 \<longrightarrow> 0 < tail" "0 \<le> s" "e < 1073741824" "part_vals normal tail s e tailSize = (b, c, l, n)"
  shows "b = max 0 (e - s)" "0 \<le> c" "c = 0 \<longleftrightarrow> b = 0" "0 \<le> l" "l \<le> c"
proof -
  have "b = max 0 (e - s) \<and> 0 \<le> c \<and> (c = 0 \<longleftrightarrow> b = 0) \<and> 0 \<le> l \<and> l \<le> c"
  proof (cases "s \<ge> e")
    case True
    then show ?thesis using assms by (auto simp: part_vals_def)
  next
    case False
    define k :: int where "k = (if tailSize \<noteq> 0 then 1 else 0)"
    have u: "u32 (e - s) = e - s" "u32 (e - s - k) = e - s - k" using False assms by (auto intro!: u32_id simp: k_def)
    have v: "b = e - s" "c = normal * (e - s - k) + tail * k" "l = (if k > 0 then tail else normal)"
      using assms(5) False by (auto simp: part_vals_def Let_def u k_def [symmetric])
    show ?thesis
    proof (cases "tailSize \<noteq> 0")
      case True
      then have k: "k = 1" and t: "0 < tail" using assms by (auto simp: k_def)
      have "0 \<le> normal * (e - s - 1)" using False assms by simp
      then show ?thesis using False v k t by auto
    next
      case f: False
      then have k: "k = 0" by (simp add: k_def)
      have "normal * 1 \<le> normal * (e - s)" using False assms by (intro mult_left_mono) auto
      then show ?thesis using False v k assms by auto
    qed
  qed
  then show "b = max 0 (e - s)" "0 \<le> c" "c = 0 \<longleftrightarrow> b = 0" "0 \<le> l" "l \<le> c" by auto
qed

lemma row_table_win:
  fixes i :: int
  assumes "sas_ok kn" "0 \<le> si_s1GTailSize si (sc_bIdx sc)" "si_s1GTailSize si (sc_bIdx sc) < 2147483648"
    "0 \<le> sc_winS2TailSize sc" "sc_winS2TailSize sc < 65536"
  defines "row \<equiv> if tail_row si (sc_bIdx sc) i then WIN_TAIL_BLOCK else WIN_NORMAL_BLOCK"
  shows "0 < row_table kn si sc row WIN_NORMAL_BLOCK" "sc_winS2TailSize sc \<noteq> 0 \<Longrightarrow> 0 < row_table kn si sc row WIN_TAIL_BLOCK"
  using assms WinCalcCost_pos
  by (auto simp: row_table_def sas_CalcCostTable_def Let_def set_cost_def sas_ok_def tail_row_def u32_id)

lemma row_table_cmp:
  fixes i :: int
  assumes "sas_ok kn" "sk_hasCmpKv kn" "0 \<le> si_s1GTailSize si (sc_bIdx sc)" "si_s1GTailSize si (sc_bIdx sc) < 2147483648"
    "0 \<le> sc_cmpS2TailSize sc" "sc_cmpS2TailSize sc < 65536"
  defines "row \<equiv> if tail_row si (sc_bIdx sc) i then CMP_TAIL_BLOCK else CMP_NORMAL_BLOCK"
  shows "0 < row_table kn si sc row CMP_NORMAL_BLOCK" "sc_cmpS2TailSize sc \<noteq> 0 \<Longrightarrow> 0 < row_table kn si sc row CMP_TAIL_BLOCK"
  using assms CmpCalcCost_pos
  by (auto simp: row_table_def sas_CalcCostTable_def Let_def set_cost_def sas_ok_def tail_row_def u32_id)


lemma mod_small:
  fixes x d :: int
  shows "128 \<le> d \<Longrightarrow> d < 65536 \<Longrightarrow> 0 \<le> x mod d \<and> x mod d < 65536"
  using pos_mod_bound [of d x] pos_mod_sign [of d x] by linarith

lemma block_count_bound:
  fixes n d :: int
  assumes "0 \<le> n" "n < 2147483648" "128 \<le> d"
  shows "0 \<le> n div d" "n div d < 16777216"
proof -
  have "n div d \<le> n div 128" using assms by (intro zdiv_mono2) auto
  then show "n div d < 16777216" using assms by auto
  show "0 \<le> n div d" using assms by (simp add: pos_imp_zdiv_nonneg_iff)
qed

lemma range_win:
  fixes i :: int and sc :: sas_s1g_cache
  assumes ok: "sas_ok kn" and s2: "0 \<le> bc_s2Size bc" "bc_s2Size bc < 2147483648"
  defines "r \<equiv> range_cache kn i bc sc"
  shows "sc_bIdx r = bc_bIdx bc" "sc_s1GIdx r = i" "sc_winS2Start r = 0" "0 \<le> sc_winS2End r" "sc_winS2End r < 33554432"
    "0 \<le> sc_winS2TailSize r" "sc_winS2TailSize r < 65536" "sc_cmpS2Start r = sc_winS2End r"
proof -
  obtain f l where fl: "sas_CalcS2TokenRange kn i bc = (f, l)" by (cases "sas_CalcS2TokenRange kn i bc")
  let ?bad = "f \<ge> bc_s2Size bc \<or> l < 0 \<or> l < f"
  let ?f = "Clip f 0 (bc_s2Size bc - 1)" and ?l = "Clip l 0 (bc_s2Size bc - 1)"
  have base: "128 \<le> sk_s2BaseSize kn" "sk_s2BaseSize kn < 65536" using ok by (auto simp: sas_ok_def)
  have f0: "f = 0" if "bc_s2Size bc = 0" using fl that by (simp add: sas_CalcS2TokenRange_def)
  have good: "0 \<le> ?l - ?f" "?l - ?f < 2147483648" "0 < bc_s2Size bc" if "\<not> ?bad"
    using that s2 f0 by (cases "bc_s2Size bc = 0"; auto simp: Clip_def)+
  have u: "u32 (bc_s2Size bc - 1) = bc_s2Size bc - 1" if "\<not> ?bad" using good(3) [OF that] s2 by (simp add: u32_id)
  have "sc_winS2End r = (if ?bad then 0 else (?l - ?f) div sk_s2BaseSize kn + 1) \<and>
      sc_winS2TailSize r = (if ?bad then 0 else (?l - ?f + 1) mod sk_s2BaseSize kn)"
  proof (cases ?bad)
    case True
    then show ?thesis by (simp add: r_def range_cache_def sas_CalcBlockRangeAndTailSize_def fl Let_def)
  next
    case False
    have "u32 (tdiv (?l - ?f) (sk_s2BaseSize kn) + 1) = (?l - ?f) div sk_s2BaseSize kn + 1"
      using block_count_bound [OF good(1,2) [OF False] base(1)] good [OF False] base by (simp add: tdiv_pos u32_id)
    moreover have "tmod (?l - ?f + 1) (sk_s2BaseSize kn) = (?l - ?f + 1) mod sk_s2BaseSize kn"
      using good [OF False] base by (simp add: tmod_pos)
    ultimately show ?thesis
      using False u [OF False] by (simp add: r_def range_cache_def sas_CalcBlockRangeAndTailSize_def fl Let_def)
  qed
  then have e: "sc_winS2End r = (if ?bad then 0 else (?l - ?f) div sk_s2BaseSize kn + 1)"
    "sc_winS2TailSize r = (if ?bad then 0 else (?l - ?f + 1) mod sk_s2BaseSize kn)" by auto
  show "0 \<le> sc_winS2End r" "sc_winS2End r < 33554432"
    unfolding e using block_count_bound [OF good(1,2) base(1)] by auto
  show "0 \<le> sc_winS2TailSize r" "sc_winS2TailSize r < 65536" unfolding e using mod_small [OF base] by simp_all
  show "sc_bIdx r = bc_bIdx bc" "sc_s1GIdx r = i" "sc_winS2Start r = 0" "sc_cmpS2Start r = sc_winS2End r"
    by (auto simp: r_def range_cache_def sas_CalcBlockRangeAndTailSize_def fl Let_def)
qed

lemma range_cmp:
  fixes i :: int and sc :: sas_s1g_cache
  assumes ok: "sas_ok kn" and s2: "0 \<le> bc_s2Size bc" "bc_s2Size bc < 2147483648"
  defines "r \<equiv> range_cache kn i bc sc"
  shows "sc_cmpS2Start r \<le> sc_cmpS2End r" "sc_cmpS2End r < 134217728" "0 \<le> sc_cmpS2TailSize r" "sc_cmpS2TailSize r < 65536"
    "\<not> sk_hasCmpKv kn \<Longrightarrow> sc_cmpS2End r = sc_cmpS2Start r"
proof -
  obtain f l where fl: "sas_CalcS2TokenRange kn i bc = (f, l)" by (cases "sas_CalcS2TokenRange kn i bc")
  note w = range_win [OF ok s2, of i sc, folded r_def]
  have base: "128 \<le> sk_s2BaseSize kn" "sk_s2BaseSize kn < 65536" using ok by (auto simp: sas_ok_def)
  define last where "last = (if f \<ge> bc_s2Size bc \<or> l < 0 \<or> l < f then 0 else Clip l 0 (u32 (bc_s2Size bc - 1)))"
  have last: "0 \<le> last" "last < 2147483647"
  proof -
    have f0: "f = 0" if "bc_s2Size bc = 0" using fl that by (simp add: sas_CalcS2TokenRange_def)
    have "u32 (bc_s2Size bc - 1) = bc_s2Size bc - 1" if "bc_s2Size bc \<noteq> 0" using s2 that by (simp add: u32_id)
    then show "0 \<le> last" "last < 2147483647" using s2 f0 by (cases "bc_s2Size bc = 0"; auto simp: last_def Clip_def)+
  qed
  define t where "t = (if sk_hasCmpKv kn then u32 (tdiv (last + 1) (sk_cmpRatio kn)) else 0)"
  define a where "a = (if sk_isCFA kn then t else if sk_isSCFA kn then min t (u32 (sk_cmpTopK kn)) else 0)"
  have t: "0 \<le> t" "t < 2147483648"
  proof -
    have "0 \<le> (last + 1) div sk_cmpRatio kn \<and> (last + 1) div sk_cmpRatio kn \<le> (last + 1) div 1" if "1 < sk_cmpRatio kn"
      using that last zdiv_mono2 [of "last + 1" 1 "sk_cmpRatio kn"] by (auto simp: pos_imp_zdiv_nonneg_iff)
    then show "0 \<le> t" "t < 2147483648" using ok last by (auto simp: t_def sas_ok_def tdiv_pos u32_id)
  qed
  have a: "0 \<le> a" "a < 2147483648" "\<not> sk_hasCmpKv kn \<Longrightarrow> a = 0" using t ok by (auto simp: a_def sas_ok_def)
  have ce: "sc_cmpS2End r = (if a = 0 then sc_winS2End r else u32 (sc_winS2End r + (a - 1) div sk_s2BaseSize kn + 1))"
    "sc_cmpS2TailSize r = a mod sk_s2BaseSize kn"
    by (auto simp: r_def range_cache_def sas_CalcBlockRangeAndTailSize_def fl Let_def a_def t_def last_def)
  have "u32 (sc_winS2End r + (a - 1) div sk_s2BaseSize kn + 1) = sc_winS2End r + (a - 1) div sk_s2BaseSize kn + 1" if "a \<noteq> 0"
    using block_count_bound [of "a - 1" "sk_s2BaseSize kn"] a base w(4,5) that by (intro u32_id) auto
  then have ce': "sc_cmpS2End r = (if a = 0 then sc_winS2End r else sc_winS2End r + (a - 1) div sk_s2BaseSize kn + 1)"
    using ce by simp
  show "sc_cmpS2Start r \<le> sc_cmpS2End r" "sc_cmpS2End r < 134217728"
    using block_count_bound [of "a - 1" "sk_s2BaseSize kn"] a base w(4,5,8) by (auto simp: ce')
  show "0 \<le> sc_cmpS2TailSize r" "sc_cmpS2TailSize r < 65536"
    using mod_small [OF base] by (simp_all add: ce(2))
  show "\<not> sk_hasCmpKv kn \<Longrightarrow> sc_cmpS2End r = sc_cmpS2Start r" using a(3) ce' w(8) by simp
qed

text \<open>The rows' costs, as the assignment relies on them.\<close>

lemma row_costs:
  assumes ok: "sas_ok kn" "seq_ok kn b" and t: "0 \<le> si_s1GTailSize si b" "si_s1GTailSize si b < 2147483648"
  shows "0 \<le> sc_s1GCost (row_of kn si b i)" "sc_s1GCost (row_of kn si b i) = 0 \<longleftrightarrow> sc_s1GBlock (row_of kn si b i) = 0"
    "0 \<le> sc_s1GBlock (row_of kn si b i)"
    "0 \<le> sc_s1GLastBlockCost (row_of kn si b i)" "sc_s1GLastBlockCost (row_of kn si b i) \<le> sc_s1GCost (row_of kn si b i)"
    "0 \<le> sc_s2Start (row_of kn si b i)"
proof -
  let ?r = "row_of kn si b i"
  have "0 \<le> sc_s1GCost ?r \<and> (sc_s1GCost ?r = 0 \<longleftrightarrow> sc_s1GBlock ?r = 0) \<and> 0 \<le> sc_s1GBlock ?r \<and>
    0 \<le> sc_s1GLastBlockCost ?r \<and> sc_s1GLastBlockCost ?r \<le> sc_s1GCost ?r \<and> 0 \<le> sc_s2Start ?r"
  proof (cases "si_s1GBaseNum si b = 0")
    case True
    then show ?thesis by (simp add: row_of_def sas_CalcS1GCache_def)
  next
    case False
    let ?bc = "sas_CalcBatchCache kn b sas_batch_cache_init"
    have s2: "0 \<le> bc_s2Size ?bc" "bc_s2Size ?bc < 2147483648" using ok(2) by (auto simp: sas_CalcBatchCache_def Let_def seq_ok_def)
    define r where "r = range_cache kn i ?bc sas_s1g_cache_init"
    note w = range_win [OF ok(1) s2, of i sas_s1g_cache_init, folded r_def]
    note c = range_cmp [OF ok(1) s2, of i sas_s1g_cache_init, folded r_def]
    let ?tc = "row_table kn si r"
    obtain wb wc wl wn where wp: "win_part ?tc si r = (wb, wc, wl, wn)" by (cases "win_part ?tc si r") auto
    obtain cb cc cl cn where cp: "cmp_part ?tc si r = (cb, cc, cl, cn)" by (cases "cmp_part ?tc si r") auto
    have tt: "0 \<le> si_s1GTailSize si (sc_bIdx r)" "si_s1GTailSize si (sc_bIdx r) < 2147483648" using t w(1) by auto
    have "0 \<le> sc_winS2Start r" "sc_winS2End r < 1073741824" using w by auto
    note wv = part_vals_ok [OF row_table_win(1) [OF ok(1) tt w(6,7), of "sc_s1GIdx r"]
        impI [OF row_table_win(2) [OF ok(1) tt w(6,7), of "sc_s1GIdx r"]] this wp [unfolded win_part_def Let_def]]
    have cv: "cb = max 0 (sc_cmpS2End r - sc_cmpS2Start r) \<and> 0 \<le> cc \<and> (cc = 0 \<longleftrightarrow> cb = 0) \<and> 0 \<le> cl \<and> cl \<le> cc"
    proof (cases "sk_hasCmpKv kn")
      case True
      have "0 \<le> sc_cmpS2Start r" "sc_cmpS2End r < 1073741824" using w c by auto
      note part_vals_ok [OF row_table_cmp(1) [OF ok(1) True tt c(3,4), of "sc_s1GIdx r"]
          impI [OF row_table_cmp(2) [OF ok(1) True tt c(3,4), of "sc_s1GIdx r"]] this cp [unfolded cmp_part_def Let_def]]
      then show ?thesis by blast
    next
      case False
      then show ?thesis using cp c(5) by (simp add: cmp_part_def part_vals_def)
    qed
    have "u32 (wb + cb) = wb + cb" using wv(1) cv w c by (intro u32_id) auto
    then have v: "sc_s1GBlock ?r = wb + cb" "sc_s1GCost ?r = wc + cc" "sc_s1GLastBlockCost ?r = (if cb > 0 then cl else wl)"
      "sc_s2Start ?r = (if wb > 0 then sc_winS2Start r else sc_cmpS2Start r)"
      using cost_stage_vals [OF wp cp] sas_CalcS1GCache_stages [of si ?bc kn i sas_s1g_cache_init] False
      by (simp_all add: row_of_def r_def)
    have "0 \<le> wb" "0 \<le> cb" using wv(1) cv by auto
    then show ?thesis unfolding v using wv cv w by auto
  qed
  then show "0 \<le> sc_s1GCost ?r" "sc_s1GCost ?r = 0 \<longleftrightarrow> sc_s1GBlock ?r = 0" "0 \<le> sc_s1GBlock ?r"
    "0 \<le> sc_s1GLastBlockCost ?r" "sc_s1GLastBlockCost ?r \<le> sc_s1GCost ?r" "0 \<le> sc_s2Start ?r" by blast+
qed


section \<open>The split information\<close>

lemma all_below_step:
  fixes b :: int
  assumes "0 \<le> b"
  shows "(\<forall>x. 0 \<le> x \<and> x < b + 1 \<longrightarrow> P x) \<longleftrightarrow> (\<forall>x. 0 \<le> x \<and> x < b \<longrightarrow> P x) \<and> P b"
proof (intro iffI conjI allI impI)
  fix x assume h: "(\<forall>x. 0 \<le> x \<and> x < b \<longrightarrow> P x) \<and> P b" and x: "0 \<le> x \<and> x < b + 1"
  then show "P x" by (cases "x = b") auto
qed (use assms in auto)

lemma sas_CalcSplitInfo_ok:
  assumes ok: "sas_ok kn" and seq: "\<And>b. 0 \<le> b \<Longrightarrow> b < sk_batchSize kn \<Longrightarrow> seq_ok kn b"
  obtains si where "sas_CalcSplitInfo kn sas_split_info_init = Some si"
    "\<And>b. 0 \<le> b \<Longrightarrow> b < sk_batchSize kn \<Longrightarrow>
       si_s1GBaseNum si b = (sas_GetS1SeqSize kn b * sk_groupSize kn + sk_mBaseSize kn - 1) div sk_mBaseSize kn \<and>
       si_s1GTailSize si b = sas_GetS1SeqSize kn b * sk_groupSize kn mod sk_mBaseSize kn"
    "si_isKvSeqAllZero si \<longleftrightarrow> (\<forall>b. 0 \<le> b \<and> b < sk_batchSize kn \<longrightarrow> sas_GetS1SeqSize kn b = 0 \<or> sas_GetS2SeqSize kn b = 0)"
proof -
  let ?n = "sk_batchSize kn" and ?g = "sk_groupSize kn" and ?m = "sk_mBaseSize kn" and ?S = "sk_s2BaseSize kn"
  let ?s1 = "sas_GetS1SeqSize kn" and ?s2 = "sas_GetS2SeqSize kn"
  let ?P = "\<lambda>k si. (\<forall>b. 0 \<le> b \<and> b < k \<longrightarrow> si_s1GBaseNum si b = (?s1 b * ?g + ?m - 1) div ?m \<and> si_s1GTailSize si b = ?s1 b * ?g mod ?m) \<and>
     (si_isKvSeqAllZero si \<longleftrightarrow> (\<forall>b. 0 \<le> b \<and> b < k \<longrightarrow> ?s1 b = 0 \<or> ?s2 b = 0))"
  have n: "0 \<le> ?n" "u32 ?n = ?n" using ok by (auto simp: sas_ok_def u32_id)
  have pos: "0 < ?g" "0 < ?m" "?m < 2147483648" "0 < ?S" "?S < 65536" using ok by (auto simp: sas_ok_def)
  have "\<exists>si. sas_CalcSplitInfo kn sas_split_info_init = Some si \<and> ?P ?n si"
    unfolding sas_CalcSplitInfo_def n(2)
  proof (rule for_opt_inv [OF n(1)])
    show "?P 0 sas_split_info_init" by (auto simp: sas_split_info_init_def)
  next
    fix b si assume b: "0 \<le> b" "b < ?n" and P: "?P b si"
    have sq: "0 \<le> ?s1 b * ?g" "?s1 b * ?g + ?m < 2147483648" "?s2 b < 2147483648" using seq [OF b] pos by (auto simp: seq_ok_def)
    have u: "u32 (?s1 b * ?g) = ?s1 b * ?g" "u32 (?m - 1) = ?m - 1" "u32 (?s1 b * ?g + (?m - 1)) = ?s1 b * ?g + ?m - 1"
      using sq pos by (auto simp: u32_id)
    have u2: "u32 (?s2 b + ?S - 1) = ?s2 b + ?S - 1"
      by (rule u32_id; use sq pos seq_nonneg(2) [of kn b] in linarith)
    have nn: "0 \<le> ?s1 b * ?g + ?m - 1" "0 \<le> ?s2 b + ?S - 1" using sq pos seq_nonneg(2) [of kn b] by linarith+
    define N where "N = (?s1 b * ?g + ?m - 1) div ?m"
    define K where "K = (?s2 b + ?S - 1) div ?S"
    have c: "cdiv (u32 (u32 (?s1 b * ?g) + u32 (?m - 1))) ?m = Some N" "cmod (u32 (?s1 b * ?g)) ?m = Some (?s1 b * ?g mod ?m)"
      "cdiv (u32 (?s2 b + ?S - 1)) ?S = Some K" "cmod (?s2 b) ?S = Some (?s2 b mod ?S)"
      using sq pos nn unfolding u u2 by (simp_all add: cdiv_pos cmod_pos N_def K_def)
    have "N = 0 \<longleftrightarrow> ?s1 b * ?g + ?m - 1 < ?m"
      unfolding N_def using nn(1) pos by (auto simp: zdiv_eq_0_iff)
    moreover have "?s1 b * ?g = 0 \<longleftrightarrow> ?s1 b = 0" using pos by simp
    ultimately have z: "N = 0 \<longleftrightarrow> ?s1 b = 0" using sq(1) by linarith
    have "K = 0 \<longleftrightarrow> ?s2 b + ?S - 1 < ?S" unfolding K_def using nn(2) pos by (auto simp: zdiv_eq_0_iff)
    then have z2: "K = 0 \<longleftrightarrow> ?s2 b = 0" using seq_nonneg(2) [of kn b] by linarith
    let ?si = "si\<lparr>si_s1GBaseNum := (si_s1GBaseNum si)(b := N), si_s1GTailSize := (si_s1GTailSize si)(b := ?s1 b * ?g mod ?m),
        si_s2BaseNum := (si_s2BaseNum si)(b := K), si_s2TailSize := (si_s2TailSize si)(b := ?s2 b mod ?S)\<rparr>"
    define r where "r = (if N \<noteq> 0 \<and> K \<noteq> 0 then ?si\<lparr>si_isKvSeqAllZero := False\<rparr> else ?si)"
    have f: "si_s1GBaseNum r = (si_s1GBaseNum si)(b := N)" "si_s1GTailSize r = (si_s1GTailSize si)(b := ?s1 b * ?g mod ?m)"
      "si_isKvSeqAllZero r = (si_isKvSeqAllZero si \<and> (?s1 b = 0 \<or> ?s2 b = 0))"
      using z z2 by (auto simp: r_def)
    have "si_s1GBaseNum r x = (?s1 x * ?g + ?m - 1) div ?m \<and> si_s1GTailSize r x = ?s1 x * ?g mod ?m" if "0 \<le> x" "x < b + 1" for x
      using P that unfolding f by (cases "x = b") (simp_all add: N_def)
    moreover have "(\<forall>x. 0 \<le> x \<and> x < b + 1 \<longrightarrow> ?s1 x = 0 \<or> ?s2 x = 0) \<longleftrightarrow>
        (\<forall>x. 0 \<le> x \<and> x < b \<longrightarrow> ?s1 x = 0 \<or> ?s2 x = 0) \<and> (?s1 b = 0 \<or> ?s2 b = 0)"
      by (rule all_below_step [OF b(1)])
    ultimately have "?P (b + 1) r" using P f(3) by blast
    then show "\<exists>t'. (do {
          let s1Size = ?s1 b; let s2Size = ?s2 b;
          s1GBase \<leftarrow> cdiv (u32 (u32 (s1Size * ?g) + u32 (?m - 1))) ?m;
          s1GTail \<leftarrow> cmod (u32 (s1Size * ?g)) ?m;
          s2Base \<leftarrow> cdiv (u32 (s2Size + ?S - 1)) ?S;
          s2Tail \<leftarrow> cmod s2Size ?S;
          let si = si\<lparr>si_s1GBaseNum := (si_s1GBaseNum si)(b := s1GBase), si_s1GTailSize := (si_s1GTailSize si)(b := s1GTail),
                      si_s2BaseNum := (si_s2BaseNum si)(b := s2Base), si_s2TailSize := (si_s2TailSize si)(b := s2Tail)\<rparr>;
          Some (if s1GBase \<noteq> 0 \<and> s2Base \<noteq> 0 then si\<lparr>si_isKvSeqAllZero := False\<rparr> else si) }) = Some t' \<and> ?P (b + 1) t'"
      unfolding Let_def c r_def by simp
  qed
  then show ?thesis using that by blast
qed

end
