(* ===== verification/SasTable.thy ===== *)
theory SasTable
  imports SasRows
begin

text \<open>
  The cost information of the batches: the cost of a batch is the sum of its rows, the recorded last block
  is that of its last row with blocks, and the cursor the assignment moves over the rows.
\<close>

section \<open>Costs of the batches\<close>

abbreviation (input) row_cost :: "sas_kernel \<Rightarrow> sas_split_info \<Rightarrow> int \<Rightarrow> int \<Rightarrow> int" where
  "row_cost kn si b i \<equiv> sc_s1GCost (row_of kn si b i)"

abbreviation (input) row_block :: "sas_kernel \<Rightarrow> sas_split_info \<Rightarrow> int \<Rightarrow> int \<Rightarrow> int" where
  "row_block kn si b i \<equiv> sc_s1GBlock (row_of kn si b i)"

abbreviation (input) row_last :: "sas_kernel \<Rightarrow> sas_split_info \<Rightarrow> int \<Rightarrow> int \<Rightarrow> int" where
  "row_last kn si b i \<equiv> sc_s1GLastBlockCost (row_of kn si b i)"

text \<open>The value the loop over \<open>m\<close> rows records for the last row that has blocks.\<close>

definition last_row_value :: "(int \<Rightarrow> int) \<Rightarrow> (int \<Rightarrow> int) \<Rightarrow> int \<Rightarrow> int \<Rightarrow> bool" where
  "last_row_value blk val m v \<longleftrightarrow>
     (\<forall>i. 0 \<le> i \<and> i < m \<longrightarrow> blk i = 0) \<and> v = 0 \<or>
     (\<exists>i. 0 \<le> i \<and> i < m \<and> 0 < blk i \<and> (\<forall>j. i < j \<and> j < m \<longrightarrow> blk j = 0) \<and> v = val i)"

lemma last_row_value_step:
  assumes "0 \<le> m" "last_row_value blk val m v" "0 \<le> blk m"
  shows "last_row_value blk val (m + 1) (if blk m > 0 then val m else v)"
proof (cases "blk m > 0")
  case True
  then show ?thesis using assms(1) by (auto simp: last_row_value_def intro!: exI [of _ m])
next
  case False
  then have z: "blk m = 0" using assms by simp
  from assms(2) consider "\<forall>i. 0 \<le> i \<and> i < m \<longrightarrow> blk i = 0" "v = 0" |
    i where "0 \<le> i" "i < m" "0 < blk i" "\<forall>j. i < j \<and> j < m \<longrightarrow> blk j = 0" "v = val i"
    unfolding last_row_value_def by blast
  then have "last_row_value blk val (m + 1) v"
  proof cases
    case 1
    have "blk i = 0" if "0 \<le> i" "i < m + 1" for i using 1 z that by (cases "i = m") auto
    then show ?thesis using 1 by (simp add: last_row_value_def)
  next
    case 2
    have "blk j = 0" if "i < j" "j < m + 1" for j using 2 z that by (cases "j = m") auto
    then show ?thesis using 2 unfolding last_row_value_def by (intro disjI2 exI [of _ i]) auto
  qed
  then show ?thesis using False by simp
qed

lemma sum_below_step: "0 \<le> m \<Longrightarrow> (\<Sum>i \<in> {0..<m + 1}. f i) = (\<Sum>i \<in> {0..<m::int}. f i) + (f m :: int)"
proof -
  assume "0 \<le> m"
  then have "{0..<m + 1} = insert m {0..<m}" by auto
  then show ?thesis by simp
qed

definition batch_costs :: "sas_kernel \<Rightarrow> sas_split_info \<Rightarrow> sas_cost_info \<Rightarrow> int \<Rightarrow> int \<Rightarrow> sas_cost_info \<Rightarrow> bool" where
  "batch_costs kn si ci0 b m ci \<longleftrightarrow>
     ci_bN2CostOfEachBatch ci = (ci_bN2CostOfEachBatch ci0)(b := (\<Sum>i \<in> {0..<m}. row_cost kn si b i)) \<and>
     last_row_value (row_block kn si b) (row_last kn si b) m (ci_bN2LastBlockCostOfEachBatch ci b) \<and>
     (\<forall>b'. b' \<noteq> b \<longrightarrow> ci_bN2LastBlockCostOfEachBatch ci b' = ci_bN2LastBlockCostOfEachBatch ci0 b') \<and>
     (\<forall>i. 0 \<le> i \<and> i < m \<longrightarrow> row_cost kn si b i \<le> ci_maxS1GCost ci) \<and> ci_maxS1GCost ci0 \<le> ci_maxS1GCost ci \<and>
     (ci_maxS1GCost ci = ci_maxS1GCost ci0 \<or> (\<exists>i. 0 \<le> i \<and> i < m \<and> ci_maxS1GCost ci = row_cost kn si b i)) \<and>
     ci_totalCost ci = ci_totalCost ci0"

lemma batch_costs_step:
  assumes m: "0 \<le> m" and ci: "batch_costs kn si ci0 b m ci" and blk: "0 \<le> row_block kn si b m"
    and sc: "same_row sc (row_of kn si b m)"
  defines "ci1 \<equiv> ci\<lparr>ci_bN2CostOfEachBatch := (ci_bN2CostOfEachBatch ci)(b := ci_bN2CostOfEachBatch ci b + sc_s1GCost sc),
      ci_bN2BlockOfEachBatch := (ci_bN2BlockOfEachBatch ci)(b := u32 (ci_bN2BlockOfEachBatch ci b + sc_s1GBlock sc))\<rparr>"
  defines "ci2 \<equiv> if sc_s1GCost sc > ci_maxS1GCost ci1 then ci1\<lparr>ci_maxS1GCost := sc_s1GCost sc\<rparr> else ci1"
  defines "ci3 \<equiv> if sc_s1GBlock sc > 0 then ci2\<lparr>ci_bN2LastBlockCostOfEachBatch := (ci_bN2LastBlockCostOfEachBatch ci2)(b := sc_s1GLastBlockCost sc)\<rparr> else ci2"
  shows "batch_costs kn si ci0 b (m + 1) ci3"
proof -
  have r: "sc_s1GCost sc = row_cost kn si b m" "sc_s1GBlock sc = row_block kn si b m" "sc_s1GLastBlockCost sc = row_last kn si b m"
    using sc by (auto simp: same_row_def)
  have f: "ci_bN2CostOfEachBatch ci3 = (ci_bN2CostOfEachBatch ci)(b := ci_bN2CostOfEachBatch ci b + row_cost kn si b m)"
    "ci_bN2LastBlockCostOfEachBatch ci3 = (if row_block kn si b m > 0 then (ci_bN2LastBlockCostOfEachBatch ci)(b := row_last kn si b m)
       else ci_bN2LastBlockCostOfEachBatch ci)"
    "ci_maxS1GCost ci3 = max (ci_maxS1GCost ci) (row_cost kn si b m)" "ci_totalCost ci3 = ci_totalCost ci"
    by (auto simp: ci3_def ci2_def ci1_def r)
  have "last_row_value (row_block kn si b) (row_last kn si b) (m + 1) (ci_bN2LastBlockCostOfEachBatch ci3 b)"
  proof -
    have "last_row_value (row_block kn si b) (row_last kn si b) m (ci_bN2LastBlockCostOfEachBatch ci b)"
      using ci unfolding batch_costs_def by blast
    from last_row_value_step [OF m this blk] show ?thesis unfolding f(2) by (simp split: if_splits)
  qed
  moreover have "row_cost kn si b i \<le> ci_maxS1GCost ci3" if "0 \<le> i" "i < m + 1" for i
    using ci that unfolding f batch_costs_def by (cases "i = m") auto
  moreover have "ci_maxS1GCost ci3 = ci_maxS1GCost ci0 \<or> (\<exists>i. 0 \<le> i \<and> i < m + 1 \<and> ci_maxS1GCost ci3 = row_cost kn si b i)"
  proof (cases "row_cost kn si b m > ci_maxS1GCost ci")
    case True
    then show ?thesis unfolding f using m by (intro disjI2 exI [of _ m]) auto
  next
    case False
    then have "ci_maxS1GCost ci3 = ci_maxS1GCost ci" unfolding f by simp
    moreover have "ci_maxS1GCost ci = ci_maxS1GCost ci0 \<or> (\<exists>i. 0 \<le> i \<and> i < m \<and> ci_maxS1GCost ci = row_cost kn si b i)"
      using ci unfolding batch_costs_def by blast
    ultimately show ?thesis by (auto intro: less_trans [of _ m])
  qed
  moreover have "ci_bN2CostOfEachBatch ci3 = (ci_bN2CostOfEachBatch ci0)(b := (\<Sum>i \<in> {0..<m + 1}. row_cost kn si b i))"
  proof -
    have "ci_bN2CostOfEachBatch ci = (ci_bN2CostOfEachBatch ci0)(b := (\<Sum>i \<in> {0..<m}. row_cost kn si b i))"
      using ci unfolding batch_costs_def by blast
    then show ?thesis unfolding f(1) sum_below_step [OF m] by simp
  qed
  moreover have "ci_bN2LastBlockCostOfEachBatch ci3 b' = ci_bN2LastBlockCostOfEachBatch ci0 b'" if "b' \<noteq> b" for b'
    using ci that unfolding f(2) batch_costs_def by simp
  moreover have "ci_maxS1GCost ci0 \<le> ci_maxS1GCost ci3" "ci_totalCost ci3 = ci_totalCost ci0"
    using ci unfolding f(3,4) batch_costs_def by auto
  ultimately show ?thesis unfolding batch_costs_def by blast
qed


lemma row_empty:
  assumes ok: "sas_ok kn" and s2: "sas_GetS2SeqSize kn b = 0"
  shows "row_block kn si b i = 0" "row_cost kn si b i = 0"
proof -
  let ?bc = "sas_CalcBatchCache kn b sas_batch_cache_init"
  have z: "bc_s2Size ?bc = 0" using s2 by (simp add: sas_CalcBatchCache_def Let_def)
  have "sc_s1GBlock (row_of kn si b i) = 0 \<and> sc_s1GCost (row_of kn si b i) = 0"
  proof (cases "si_s1GBaseNum si b = 0")
    case True
    then show ?thesis by (simp add: row_of_def sas_CalcS1GCache_def)
  next
    case False
    define r where "r = range_cache kn i ?bc sas_s1g_cache_init"
    have t: "u32 (tdiv 1 (sk_cmpRatio kn)) = 0" if "sk_hasCmpKv kn"
      using ok that by (simp add: sas_ok_def tdiv_pos)
    have "sas_CalcS2TokenRange kn i ?bc = (0, 0)" by (simp add: sas_CalcS2TokenRange_def z)
    moreover have "\<not> sk_hasCmpKv kn \<Longrightarrow> \<not> sk_isCFA kn \<and> \<not> sk_isSCFA kn" using ok by (simp add: sas_ok_def)
    ultimately have r: "sc_winS2Start r = 0" "sc_winS2End r = 0" "sc_cmpS2Start r = 0" "sc_cmpS2End r = 0"
      using t unfolding r_def range_cache_def sas_CalcBlockRangeAndTailSize_def by (simp_all add: z)
    have "win_part tc si r = (0, 0, 0, 0)" "cmp_part tc si r = (0, 0, 0, 0)" for tc
      using r by (simp_all add: win_part_def cmp_part_def part_vals_def)
    note v = cost_stage_vals [OF this, of "row_table kn si r"]
    show ?thesis
      using v(1,2) sas_CalcS1GCache_stages [of si ?bc kn i sas_s1g_cache_init] False by (simp add: row_of_def r_def)
  qed
  then show "row_block kn si b i = 0" "row_cost kn si b i = 0" by auto
qed

definition batch_cost :: "sas_kernel \<Rightarrow> sas_split_info \<Rightarrow> int \<Rightarrow> int" where
  "batch_cost kn si b = (\<Sum>i \<in> {0..<si_s1GBaseNum si b}. row_cost kn si b i)"

text \<open>The split information of the batches of a well-formed kernel.\<close>

definition split_ok :: "sas_kernel \<Rightarrow> sas_split_info \<Rightarrow> bool" where
  "split_ok kn si \<longleftrightarrow> (\<forall>b. 0 \<le> b \<and> b < sk_batchSize kn \<longrightarrow> seq_ok kn b \<and> 0 \<le> si_s1GBaseNum si b \<and> si_s1GBaseNum si b < 2147483648 \<and>
     (sas_GetS1SeqSize kn b = 0 \<longrightarrow> si_s1GBaseNum si b = 0) \<and> 0 \<le> si_s1GTailSize si b \<and> si_s1GTailSize si b < 2147483648)"

lemma split_ok_row:
  assumes "sas_ok kn" "split_ok kn si" "0 \<le> b" "b < sk_batchSize kn"
  shows "0 \<le> row_cost kn si b i" "row_cost kn si b i = 0 \<longleftrightarrow> row_block kn si b i = 0" "0 \<le> row_block kn si b i"
    "0 \<le> row_last kn si b i" "row_last kn si b i \<le> row_cost kn si b i" "0 \<le> sc_s2Start (row_of kn si b i)"
proof -
  have "seq_ok kn b" "0 \<le> si_s1GTailSize si b" "si_s1GTailSize si b < 2147483648"
    using assms(2-4) by (simp_all add: split_ok_def)
  note r = row_costs [OF assms(1) this, of i]
  show "0 \<le> row_cost kn si b i" "row_cost kn si b i = 0 \<longleftrightarrow> row_block kn si b i = 0" "0 \<le> row_block kn si b i"
    "0 \<le> row_last kn si b i" "row_last kn si b i \<le> row_cost kn si b i" "0 \<le> sc_s2Start (row_of kn si b i)"
    by (rule r)+
qed

lemma sas_CalcBatchCost_ok:
  assumes ok: "sas_ok kn" "split_ok kn si" and b: "0 \<le> b" "b < sk_batchSize kn" and mx: "0 \<le> ci_maxS1GCost ci"
  shows "batch_costs kn si ci b (si_s1GBaseNum si b) (sas_CalcBatchCost kn si b ci)"
proof -
  let ?ci = "ci\<lparr>ci_bN2CostOfEachBatch := (ci_bN2CostOfEachBatch ci)(b := 0),
      ci_bN2BlockOfEachBatch := (ci_bN2BlockOfEachBatch ci)(b := 0),
      ci_bN2LastBlockCostOfEachBatch := (ci_bN2LastBlockCostOfEachBatch ci)(b := 0)\<rparr>"
  have N: "0 \<le> si_s1GBaseNum si b" using ok(2) b by (auto simp: split_ok_def)
  show ?thesis
  proof (cases "sas_GetS1SeqSize kn b = 0 \<or> sas_GetS2SeqSize kn b = 0")
    case True
    then have e: "sas_CalcBatchCost kn si b ci = ?ci" by (simp add: sas_CalcBatchCost_def)
    have z: "row_cost kn si b i = 0 \<and> row_block kn si b i = 0" if "0 \<le> i" "i < si_s1GBaseNum si b" for i
    proof -
      have "sas_GetS1SeqSize kn b \<noteq> 0" using ok(2) b that unfolding split_ok_def by force
      then show ?thesis using True row_empty [OF ok(1), of b si i] by blast
    qed
    then have "(\<Sum>i \<in> {0..<si_s1GBaseNum si b}. row_cost kn si b i) = 0" by (intro sum.neutral) auto
    moreover have "row_cost kn si b i \<le> ci_maxS1GCost ci" if "0 \<le> i" "i < si_s1GBaseNum si b" for i
      using z [OF that] mx by simp
    moreover have "last_row_value (row_block kn si b) (row_last kn si b) (si_s1GBaseNum si b) 0"
      using z unfolding last_row_value_def by blast
    ultimately show ?thesis unfolding e batch_costs_def by (intro conjI allI impI) simp_all
  next
    case False
    let ?bc = "sas_CalcBatchCache kn b sas_batch_cache_init"
    let ?f = "batch_cost_row kn si b ?bc"
    have e: "sas_CalcBatchCost kn si b ci = snd (for_range 0 (si_s1GBaseNum si b) ?f (sas_s1g_cache_init, ?ci))"
      using False unfolding sas_CalcBatchCost_def Let_def by simp
    have "batch_costs kn si ci b (si_s1GBaseNum si b) (snd (for_range 0 (si_s1GBaseNum si b) ?f (sas_s1g_cache_init, ?ci)))"
    proof (rule for_range_inv [OF N, where P = "\<lambda>m st. batch_costs kn si ci b m (snd st)"])
      show "batch_costs kn si ci b 0 (snd (sas_s1g_cache_init, ?ci))" by (simp add: batch_costs_def last_row_value_def)
    next
      fix m and st :: "sas_s1g_cache \<times> sas_cost_info"
      assume m: "0 \<le> m" "m < si_s1GBaseNum si b" and P: "batch_costs kn si ci b m (snd st)"
      obtain sc ci' where st: "st = (sc, ci')" by (cases st)
      show "batch_costs kn si ci b (m + 1) (snd (?f m st))"
        unfolding st batch_cost_row_def Let_def prod.case snd_conv
        by (rule batch_costs_step [OF m(1) P [unfolded st snd_conv] split_ok_row(3) [OF ok b]
              same_row_CalcS1GCache [of kn si m b sas_batch_cache_init sc]])
    qed
    then show ?thesis unfolding e .
  qed
qed


text \<open>What the cost information says of the first \<open>n\<close> batches.\<close>

definition cost_table :: "sas_kernel \<Rightarrow> sas_split_info \<Rightarrow> int \<Rightarrow> sas_cost_info \<Rightarrow> bool" where
  "cost_table kn si n ci \<longleftrightarrow>
     (\<forall>b. 0 \<le> b \<and> b < n \<longrightarrow> ci_bN2CostOfEachBatch ci b = batch_cost kn si b \<and>
        last_row_value (row_block kn si b) (row_last kn si b) (si_s1GBaseNum si b) (ci_bN2LastBlockCostOfEachBatch ci b) \<and>
        (\<forall>i. 0 \<le> i \<and> i < si_s1GBaseNum si b \<longrightarrow> row_cost kn si b i \<le> ci_maxS1GCost ci)) \<and>
     ci_totalCost ci = (\<Sum>b \<in> {0..<n}. batch_cost kn si b) \<and> 0 \<le> ci_maxS1GCost ci \<and>
     (ci_maxS1GCost ci = 0 \<or> (\<exists>b i. 0 \<le> b \<and> b < n \<and> 0 \<le> i \<and> i < si_s1GBaseNum si b \<and> ci_maxS1GCost ci = row_cost kn si b i))"

lemma cost_table_step:
  assumes n: "0 \<le> n" and t: "cost_table kn si n ci" and c: "batch_costs kn si ci n (si_s1GBaseNum si n) ci1"
  shows "cost_table kn si (n + 1) (ci1\<lparr>ci_totalCost := ci_totalCost ci1 + ci_bN2CostOfEachBatch ci1 n * 1, ci_totalBlockNum := x\<rparr>)"
proof -
  let ?c = "ci1\<lparr>ci_totalCost := ci_totalCost ci1 + ci_bN2CostOfEachBatch ci1 n * 1, ci_totalBlockNum := x\<rparr>"
  have cost: "ci_bN2CostOfEachBatch ci1 b = (if b = n then batch_cost kn si n else ci_bN2CostOfEachBatch ci b)" for b
    using c by (simp add: batch_costs_def batch_cost_def)
  have last: "b \<noteq> n \<Longrightarrow> ci_bN2LastBlockCostOfEachBatch ci1 b = ci_bN2LastBlockCostOfEachBatch ci b" for b
    using c unfolding batch_costs_def by blast
  have mx: "ci_maxS1GCost ci \<le> ci_maxS1GCost ci1" using c unfolding batch_costs_def by blast
  have old: "ci_bN2CostOfEachBatch ci b = batch_cost kn si b \<and>
        last_row_value (row_block kn si b) (row_last kn si b) (si_s1GBaseNum si b) (ci_bN2LastBlockCostOfEachBatch ci b) \<and>
        (\<forall>i. 0 \<le> i \<and> i < si_s1GBaseNum si b \<longrightarrow> row_cost kn si b i \<le> ci_maxS1GCost ci)" if "0 \<le> b" "b < n" for b
    using t that unfolding cost_table_def by blast
  have "ci_bN2CostOfEachBatch ?c b = batch_cost kn si b \<and>
        last_row_value (row_block kn si b) (row_last kn si b) (si_s1GBaseNum si b) (ci_bN2LastBlockCostOfEachBatch ?c b) \<and>
        (\<forall>i. 0 \<le> i \<and> i < si_s1GBaseNum si b \<longrightarrow> row_cost kn si b i \<le> ci_maxS1GCost ?c)" if "0 \<le> b" "b < n + 1" for b
  proof (cases "b = n")
    case True
    then show ?thesis using c by (simp add: batch_costs_def batch_cost_def)
  next
    case False
    then have "b < n" using that by simp
    note o = old [OF that(1) this]
    have "row_cost kn si b i \<le> ci_maxS1GCost ?c" if "0 \<le> i" "i < si_s1GBaseNum si b" for i
    proof -
      have "row_cost kn si b i \<le> ci_maxS1GCost ci" using o that by blast
      then show ?thesis using mx by simp
    qed
    then show ?thesis using o False cost [of b] last [OF False] by simp
  qed
  moreover have "ci_totalCost ?c = (\<Sum>b \<in> {0..<n + 1}. batch_cost kn si b)"
  proof -
    have "ci_totalCost ci1 = (\<Sum>b \<in> {0..<n}. batch_cost kn si b)" using t c unfolding cost_table_def batch_costs_def by simp
    then show ?thesis using cost [of n] sum_below_step [OF n, of "batch_cost kn si"] by simp
  qed
  moreover have "0 \<le> ci_maxS1GCost ?c" using t mx unfolding cost_table_def by simp
  moreover have "ci_maxS1GCost ?c = 0 \<or> (\<exists>b i. 0 \<le> b \<and> b < n + 1 \<and> 0 \<le> i \<and> i < si_s1GBaseNum si b \<and> ci_maxS1GCost ?c = row_cost kn si b i)"
  proof -
    from c consider "ci_maxS1GCost ci1 = ci_maxS1GCost ci" | i where "0 \<le> i" "i < si_s1GBaseNum si n" "ci_maxS1GCost ci1 = row_cost kn si n i"
      unfolding batch_costs_def by blast
    then show ?thesis
    proof cases
      case 1
      have "ci_maxS1GCost ci = 0 \<or> (\<exists>b i. 0 \<le> b \<and> b < n \<and> 0 \<le> i \<and> i < si_s1GBaseNum si b \<and> ci_maxS1GCost ci = row_cost kn si b i)"
        using t unfolding cost_table_def by blast
      then show ?thesis using 1 by (auto intro: less_trans [of _ n])
    next
      case 2
      then show ?thesis using n by (intro disjI2 exI [of _ n] exI [of _ i]) simp
    qed
  qed
  ultimately show ?thesis unfolding cost_table_def by blast
qed

lemma sas_CalcCostInfo_ok:
  assumes ok: "sas_ok kn" "split_ok kn si" and nz: "\<not> si_isKvSeqAllZero si"
  shows "cost_table kn si (sk_batchSize kn) (sas_CalcCostInfo kn si sas_cost_info_init)"
proof -
  let ?n = "sk_batchSize kn"
  have n: "0 \<le> ?n" "u32 ?n = ?n" "sk_kvHeadNum kn = 1" using ok(1) by (auto simp: sas_ok_def u32_id)
  have e: "sas_CalcCostInfo kn si sas_cost_info_init = for_range 0 ?n (\<lambda>bIdx ci.
      let ci = sas_CalcBatchCost kn si bIdx ci
      in ci\<lparr>ci_totalCost := ci_totalCost ci + ci_bN2CostOfEachBatch ci bIdx * 1,
            ci_totalBlockNum := u32 (ci_totalBlockNum ci + ci_bN2BlockOfEachBatch ci bIdx * 1)\<rparr>) sas_cost_info_init"
    using nz n by (simp add: sas_CalcCostInfo_def)
  show ?thesis unfolding e
  proof (rule for_range_inv [OF n(1), where P = "\<lambda>m ci. cost_table kn si m ci"])
    show "cost_table kn si 0 sas_cost_info_init" by (auto simp: cost_table_def sas_cost_info_init_def)
  next
    fix b ci assume b: "0 \<le> b" "b < ?n" and t: "cost_table kn si b ci"
    have mx: "0 \<le> ci_maxS1GCost ci" using t unfolding cost_table_def by blast
    show "cost_table kn si (b + 1) (let ci = sas_CalcBatchCost kn si b ci
      in ci\<lparr>ci_totalCost := ci_totalCost ci + ci_bN2CostOfEachBatch ci b * 1,
            ci_totalBlockNum := u32 (ci_totalBlockNum ci + ci_bN2BlockOfEachBatch ci b * 1)\<rparr>)"
      unfolding Let_def by (rule cost_table_step [OF b(1) t sas_CalcBatchCost_ok [OF ok b mx]])
  qed
qed


lemma cost_table_last:
  assumes ok: "sas_ok kn" "split_ok kn si" and t: "cost_table kn si (sk_batchSize kn) ci" and b: "0 \<le> b" "b < sk_batchSize kn"
  shows "0 \<le> ci_bN2LastBlockCostOfEachBatch ci b" "ci_bN2LastBlockCostOfEachBatch ci b \<le> ci_maxS1GCost ci"
proof -
  let ?v = "ci_bN2LastBlockCostOfEachBatch ci b"
  have l: "last_row_value (row_block kn si b) (row_last kn si b) (si_s1GBaseNum si b) ?v"
    and m: "\<And>i. 0 \<le> i \<Longrightarrow> i < si_s1GBaseNum si b \<Longrightarrow> row_cost kn si b i \<le> ci_maxS1GCost ci" and z: "0 \<le> ci_maxS1GCost ci"
    using t b unfolding cost_table_def by blast+
  from l consider "?v = 0" | i where "0 \<le> i" "i < si_s1GBaseNum si b" "?v = row_last kn si b i"
    unfolding last_row_value_def by blast
  then have "0 \<le> ?v \<and> ?v \<le> ci_maxS1GCost ci"
  proof cases
    case 2
    then show ?thesis using split_ok_row(4,5) [OF ok b, of i] m [of i] by linarith
  qed (use z in simp)
  then show "0 \<le> ?v" "?v \<le> ci_maxS1GCost ci" by auto
qed

section \<open>The cursor\<close>

definition rest_batch :: "sas_kernel \<Rightarrow> sas_split_info \<Rightarrow> int \<Rightarrow> int \<Rightarrow> int" where
  "rest_batch kn si b i = (\<Sum>j \<in> {i..<si_s1GBaseNum si b}. row_cost kn si b j)"

text \<open>The cost of the rows from row \<open>i\<close> of batch \<open>b\<close> on; zero behind the last batch.\<close>

definition rest_cost :: "sas_kernel \<Rightarrow> sas_split_info \<Rightarrow> int \<Rightarrow> int \<Rightarrow> int" where
  "rest_cost kn si b i =
     (if b < sk_batchSize kn then rest_batch kn si b i + (\<Sum>c \<in> {b + 1..<sk_batchSize kn}. batch_cost kn si c) else 0)"

text \<open>The assignment context stands at row \<open>i\<close> of batch \<open>b\<close>; it stands behind the last batch.\<close>

definition at_row :: "sas_kernel \<Rightarrow> sas_split_info \<Rightarrow> sas_assign_context \<Rightarrow> int \<Rightarrow> int \<Rightarrow> bool" where
  "at_row kn si ac b i \<longleftrightarrow> \<not> ac_isFinished ac \<and> ac_curBIdx ac = b \<and> ac_curBN2Idx ac = b \<and> ac_curS1GIdx ac = i \<and>
     0 \<le> b \<and> b < sk_batchSize kn \<and> 0 \<le> i \<and> (i = 0 \<or> i < si_s1GBaseNum si b) \<and>
     ac_batchCache ac = sas_CalcBatchCache kn b sas_batch_cache_init \<and> same_row (ac_s1GCache ac) (row_of kn si b i) \<and>
     ac_bN2Cost ac = rest_batch kn si b i \<and> ac_curS2Idx ac = sc_s2Start (ac_s1GCache ac) \<and> ac_curKvSplitPart ac = 1"

definition at_end :: "sas_kernel \<Rightarrow> sas_assign_context \<Rightarrow> bool" where
  "at_end kn ac \<longleftrightarrow> ac_isFinished ac \<and> ac_curBN2Idx ac = sk_batchSize kn \<and> ac_curS1GIdx ac = 0 \<and> ac_curS2Idx ac = 0 \<and>
     0 \<le> sc_s2Start (ac_s1GCache ac) \<and> ac_curKvSplitPart ac = 1"

definition same_core :: "sas_assign_context \<Rightarrow> sas_assign_context \<Rightarrow> bool" where
  "same_core a b \<longleftrightarrow> ac_unassignedCost a = ac_unassignedCost b \<and> ac_curCoreIdx a = ac_curCoreIdx b \<and>
     cc_costLimit (ac_coreCache a) = cc_costLimit (ac_coreCache b)"

lemma rest_batch_nonneg:
  assumes "sas_ok kn" "split_ok kn si" "0 \<le> b" "b < sk_batchSize kn"
  shows "0 \<le> rest_batch kn si b i"
  unfolding rest_batch_def using split_ok_row(1) [OF assms] by (intro sum_nonneg) auto

lemma batch_cost_rest: "batch_cost kn si b = rest_batch kn si b 0"
  by (simp add: batch_cost_def rest_batch_def)

lemma rest_cost_next:
  assumes "0 \<le> b" "b < sk_batchSize kn"
  shows "rest_cost kn si b i = rest_batch kn si b i + rest_cost kn si (b + 1) 0"
proof (cases "b + 1 < sk_batchSize kn")
  case True
  then have "{b + 1..<sk_batchSize kn} = insert (b + 1) {b + 1 + 1..<sk_batchSize kn}" by auto
  then show ?thesis using assms True by (simp add: rest_cost_def batch_cost_rest)
qed (use assms in \<open>simp add: rest_cost_def\<close>)

lemma rest_cost_ge_batch:
  assumes ok: "sas_ok kn" "split_ok kn si" and b: "0 \<le> b" "b < sk_batchSize kn"
  shows "rest_batch kn si b i \<le> rest_cost kn si b i"
proof -
  have "0 \<le> (\<Sum>c \<in> {b + 1..<sk_batchSize kn}. batch_cost kn si c)"
    unfolding batch_cost_rest using rest_batch_nonneg [OF ok] b by (intro sum_nonneg) auto
  then show ?thesis using b by (simp add: rest_cost_def)
qed

lemma rest_batch_step:
  assumes "i < si_s1GBaseNum si b"
  shows "rest_batch kn si b i = row_cost kn si b i + rest_batch kn si b (i + 1)"
proof -
  have "{i..<si_s1GBaseNum si b} = insert i {i + 1..<si_s1GBaseNum si b}" using assms by auto
  then show ?thesis by (simp add: rest_batch_def)
qed

lemma same_rowD:
  "same_row a b \<Longrightarrow> sc_s1GCost a = sc_s1GCost b" "same_row a b \<Longrightarrow> sc_s1GBlock a = sc_s1GBlock b"
  "same_row a b \<Longrightarrow> sc_s1GLastBlockCost a = sc_s1GLastBlockCost b" "same_row a b \<Longrightarrow> sc_s2Start a = sc_s2Start b"
  by (simp_all add: same_row_def)

end
