(* ===== verification/SasLoops.thy ===== *)
theory SasLoops
  imports SasTable
begin

text \<open>
  The two assignment loops of the scheduler: whole batches, then whole rows. Both end, keep the sum of
  assigned and remaining cost, and keep the load of the core below its limit plus half the dearest row.
\<close>

section \<open>Whole batches\<close>

lemma take_load_simps [simp]:
  "ac_isFinished (take_load c k ac) = ac_isFinished ac" "ac_curBIdx (take_load c k ac) = ac_curBIdx ac"
  "ac_curBN2Idx (take_load c k ac) = ac_curBN2Idx ac" "ac_curS1GIdx (take_load c k ac) = ac_curS1GIdx ac"
  "ac_curS2Idx (take_load c k ac) = ac_curS2Idx ac" "ac_batchCache (take_load c k ac) = ac_batchCache ac"
  "ac_s1GCache (take_load c k ac) = ac_s1GCache ac" "ac_bN2Cost (take_load c k ac) = ac_bN2Cost ac"
  "ac_bN2Block (take_load c k ac) = ac_bN2Block ac" "ac_curKvSplitPart (take_load c k ac) = ac_curKvSplitPart ac"
  "ac_unassignedCost (take_load c k ac) = ac_unassignedCost ac" "ac_curCoreIdx (take_load c k ac) = ac_curCoreIdx ac"
  "cc_costLimit (ac_coreCache (take_load c k ac)) = cc_costLimit (ac_coreCache ac)"
  "cc_cost (ac_coreCache (take_load c k ac)) = cc_cost (ac_coreCache ac) + c"
  by (simp_all add: take_load_def)

abbreviation (input) load :: "sas_assign_context \<Rightarrow> int" where
  "load ac \<equiv> cc_cost (ac_coreCache ac)"

abbreviation (input) limit :: "sas_assign_context \<Rightarrow> int" where
  "limit ac \<equiv> cc_costLimit (ac_coreCache ac)"

lemma next_batch_at_row:
  assumes ok: "sas_ok kn" and t: "cost_table kn si (sk_batchSize kn) ci"
    and b: "0 \<le> b" "b + 1 < sk_batchSize kn"
    and ac: "\<not> ac_isFinished ac" "ac_curBIdx ac = b" "ac_curBN2Idx ac = b + 1" "ac_curKvSplitPart ac = 1"
  shows "at_row kn si (next_batch kn si ci ac) (b + 1) 0" "same_core (next_batch kn si ci ac) ac"
    "load (next_batch kn si ci ac) = load ac"
proof -
  have k: "tdiv (b + 1) (sk_kvHeadNum kn) = b + 1"
    using ok b ac by (simp add: sas_ok_def tdiv_pos)
  have c: "ci_bN2CostOfEachBatch ci (b + 1) = rest_batch kn si (b + 1) 0"
    using t b unfolding cost_table_def batch_cost_rest by simp
  let ?bc = "sas_CalcBatchCache kn (b + 1) (ac_batchCache ac)"
  let ?sc = "sas_CalcS1GCache kn si 0 ?bc (ac_s1GCache ac)"
  have e: "next_batch kn si ci ac = ac\<lparr>ac_curBIdx := b + 1, ac_batchCache := ?bc,
      ac_bN2Cost := ci_bN2CostOfEachBatch ci (b + 1), ac_bN2Block := ci_bN2BlockOfEachBatch ci (b + 1), ac_curS1GIdx := 0,
      ac_s1GCache := ?sc, ac_curS2Idx := sc_s2Start ?sc\<rparr>"
    using ac by (simp add: next_batch_def k Let_def)
  show "at_row kn si (next_batch kn si ci ac) (b + 1) 0"
    unfolding e at_row_def using ac b c same_row_CalcS1GCache [of kn si 0 "b + 1" "ac_batchCache ac" "ac_s1GCache ac"]
      sas_CalcBatchCache_any [of kn "b + 1" "ac_batchCache ac"] by simp
  show "same_core (next_batch kn si ci ac) ac" "load (next_batch kn si ci ac) = load ac"
    unfolding e by (simp_all add: same_core_def)
qed

text \<open>Where the assignment of whole batches stops, starting at row \<open>i\<close> of batch \<open>b\<close> with load \<open>c\<close>.\<close>

definition batches_stop :: "sas_kernel \<Rightarrow> sas_split_info \<Rightarrow> sas_cost_info \<Rightarrow> int \<Rightarrow> int \<Rightarrow> int \<Rightarrow> sas_assign_context \<Rightarrow> bool" where
  "batches_stop kn si ci b i c ac \<longleftrightarrow>
     at_end kn ac \<and> load ac = c + rest_cost kn si b i \<or>
     (\<exists>b' i'. at_row kn si ac b' i' \<and> (b' = b \<and> i' = i \<or> b < b' \<and> i' = 0) \<and>
        load ac + rest_cost kn si b' i' = c + rest_cost kn si b i \<and> 0 < ac_bN2Cost ac \<and>
        limit ac + ci_bN2LastBlockCostOfEachBatch ci b' div 2 < load ac + ac_bN2Cost ac)"

lemma batches_stop_later:
  assumes "batches_stop kn si ci (b + 1) 0 c ac" "c + rest_cost kn si (b + 1) 0 = c' + rest_cost kn si b i"
  shows "batches_stop kn si ci b i c' ac"
proof (cases "at_end kn ac \<and> load ac = c + rest_cost kn si (b + 1) 0")
  case True
  then show ?thesis using assms(2) unfolding batches_stop_def by simp
next
  case False
  then obtain b' i' where r: "at_row kn si ac b' i'" "b' = b + 1 \<and> i' = 0 \<or> b + 1 < b' \<and> i' = 0"
    "load ac + rest_cost kn si b' i' = c + rest_cost kn si (b + 1) 0" "0 < ac_bN2Cost ac"
    "limit ac + ci_bN2LastBlockCostOfEachBatch ci b' div 2 < load ac + ac_bN2Cost ac"
    using assms(1) unfolding batches_stop_def by blast
  have "b < b'" "i' = 0" using r(2) by auto
  moreover have "load ac + rest_cost kn si b' i' = c' + rest_cost kn si b i" using r(3) assms(2) by (rule trans)
  ultimately show ?thesis using r(1,4,5) unfolding batches_stop_def by blast
qed

lemma AssignByBatch_loop_ok:
  assumes ok: "sas_ok kn" "split_ok kn si" and t: "cost_table kn si (sk_batchSize kn) ci"
  shows "at_row kn si ac b i \<Longrightarrow> load ac \<le> limit ac + ci_maxS1GCost ci div 2 \<Longrightarrow>
    \<exists>ac'. AssignByBatch_loop kn si ci ac = Some ac' \<and> same_core ac' ac \<and> batches_stop kn si ci b i (load ac) ac' \<and>
      load ac' \<le> limit ac' + ci_maxS1GCost ci div 2"
proof (induction "nat (sk_batchSize kn - b)" arbitrary: ac b i rule: less_induct)
  case less
  note a = less.prems(1)
  have b: "0 \<le> b" "b < sk_batchSize kn" using a by (auto simp: at_row_def)
  have cur: "ac_curBIdx ac = b" "ac_curBN2Idx ac = b" "\<not> ac_isFinished ac" "ac_bN2Cost ac = rest_batch kn si b i" "ac_curKvSplitPart ac = 1"
    using a by (auto simp: at_row_def)
  have last: "0 \<le> ci_bN2LastBlockCostOfEachBatch ci b" "ci_bN2LastBlockCostOfEachBatch ci b \<le> ci_maxS1GCost ci"
    using cost_table_last [OF ok t b] .
  have td: "tdiv (ci_bN2LastBlockCostOfEachBatch ci b) 2 = ci_bN2LastBlockCostOfEachBatch ci b div 2" using last by (simp add: tdiv_pos)
  have le2: "ci_bN2LastBlockCostOfEachBatch ci b div 2 \<le> ci_maxS1GCost ci div 2" using last by (intro zdiv_mono1) auto
  let ?take = "ac_bN2Cost ac = 0 \<or> limit ac + ci_bN2LastBlockCostOfEachBatch ci b div 2 \<ge> load ac + ac_bN2Cost ac"
  show ?case
  proof (cases ?take)
    case False
    then have "AssignByBatch_loop kn si ci ac = Some ac"
      by (subst AssignByBatch_loop.simps) (simp add: IsWithinTolerance_def cur td)
    moreover have "batches_stop kn si ci b i (load ac) ac"
      using a False rest_batch_nonneg [OF ok b, of i] cur unfolding batches_stop_def by (intro disjI2 exI [of _ b] exI [of _ i]) auto
    ultimately show ?thesis using less.prems by (simp add: same_core_def)
  next
    case True
    define ac1 where "ac1 = (take_load (ac_bN2Cost ac) (ac_bN2Block ac) ac)\<lparr>ac_curBN2Idx := u32 (ac_curBN2Idx ac + 1)\<rparr>"
    have u: "u32 (b + 1) = b + 1" "u32 (sk_batchSize kn * sk_kvHeadNum kn) = sk_batchSize kn"
      using ok(1) b by (auto simp: sas_ok_def u32_id)
    have f1: "ac_curBN2Idx ac1 = b + 1" "load ac1 = load ac + rest_batch kn si b i" "same_core ac1 ac"
      "\<not> ac_isFinished ac1" "ac_curBIdx ac1 = b" "ac_curKvSplitPart ac1 = 1" "limit ac1 = limit ac" "ac_s1GCache ac1 = ac_s1GCache ac"
      using cur u by (simp_all add: ac1_def same_core_def)
    have bound: "load ac1 \<le> limit ac1 + ci_maxS1GCost ci div 2"
      using True less.prems(2) le2 cur unfolding f1 by auto
    have rec: "AssignByBatch_loop kn si ci ac = (if ac_curBN2Idx ac1 = u32 (sk_batchSize kn * sk_kvHeadNum kn)
        then Some (ac1\<lparr>ac_curS1GIdx := 0, ac_curS2Idx := 0, ac_isFinished := True\<rparr>)
        else AssignByBatch_loop kn si ci (next_batch kn si ci ac1))"
      using True by (subst AssignByBatch_loop.simps) (simp add: IsWithinTolerance_def cur td ac1_def Let_def)
    have rest: "rest_cost kn si b i = rest_batch kn si b i + rest_cost kn si (b + 1) 0" by (rule rest_cost_next [OF b])
    show ?thesis
    proof (cases "b + 1 = sk_batchSize kn")
      case fin: True
      define ac2 where "ac2 = ac1\<lparr>ac_curS1GIdx := 0, ac_curS2Idx := 0, ac_isFinished := True\<rparr>"
      have s2: "0 \<le> sc_s2Start (ac_s1GCache ac)"
        using a split_ok_row(6) [OF ok b, of i] same_rowD(4) by (auto simp: at_row_def)
      have "rest_cost kn si (b + 1) 0 = 0" using fin by (simp add: rest_cost_def)
      then have "batches_stop kn si ci b i (load ac) ac2"
        using f1 fin rest s2 unfolding batches_stop_def at_end_def ac2_def by simp
      moreover have "AssignByBatch_loop kn si ci ac = Some ac2" using rec f1 u fin by (simp add: ac2_def)
      ultimately show ?thesis using f1 bound by (simp add: ac2_def same_core_def)
    next
      case False
      then have b1: "b + 1 < sk_batchSize kn" using b by simp
      note nb = next_batch_at_row [OF ok(1) t b(1) b1 f1(4,5,1,6)]
      have "load (next_batch kn si ci ac1) \<le> limit (next_batch kn si ci ac1) + ci_maxS1GCost ci div 2"
        using nb(2,3) bound by (simp add: same_core_def)
      then obtain ac' where r: "AssignByBatch_loop kn si ci (next_batch kn si ci ac1) = Some ac'" "same_core ac' (next_batch kn si ci ac1)"
        "batches_stop kn si ci (b + 1) 0 (load (next_batch kn si ci ac1)) ac'" "load ac' \<le> limit ac' + ci_maxS1GCost ci div 2"
        using less.hyps [OF _ nb(1)] b by auto
      have "AssignByBatch_loop kn si ci ac = Some ac'" using rec f1 u False r(1) by simp
      moreover have "same_core ac' ac" using r(2) nb(2) f1(3) by (simp add: same_core_def)
      moreover have "batches_stop kn si ci b i (load ac) ac'"
        by (rule batches_stop_later [OF r(3)]) (use nb(3) f1(2) rest in simp)
      ultimately show ?thesis using r(4) by blast
    qed
  qed
qed

section \<open>Whole rows\<close>

lemma last_row_unique:
  assumes ok: "sas_ok kn" "split_ok kn si" and t: "cost_table kn si (sk_batchSize kn) ci" and b: "0 \<le> b" "b < sk_batchSize kn"
    and i: "0 \<le> i" "i < si_s1GBaseNum si b" and r: "0 < rest_batch kn si b i" "rest_batch kn si b (i + 1) = 0"
  shows "ci_bN2LastBlockCostOfEachBatch ci b = row_last kn si b i"
proof -
  have z: "row_block kn si b j = 0" if "i < j" "j < si_s1GBaseNum si b" for j
  proof -
    have "row_cost kn si b j = 0"
      using r(2) that split_ok_row(1) [OF ok b] unfolding rest_batch_def by (subst (asm) sum_nonneg_eq_0_iff) auto
    then show ?thesis using split_ok_row(2) [OF ok b, of j] by simp
  qed
  have "0 < row_cost kn si b i" using rest_batch_step [OF i(2), of kn] r by simp
  then have p: "row_block kn si b i \<noteq> 0" using split_ok_row(2) [OF ok b, of i] by simp
  have "last_row_value (row_block kn si b) (row_last kn si b) (si_s1GBaseNum si b) (ci_bN2LastBlockCostOfEachBatch ci b)"
    using t b unfolding cost_table_def by blast
  then obtain k where k: "0 \<le> k" "k < si_s1GBaseNum si b" "0 < row_block kn si b k"
    "\<And>j. k < j \<Longrightarrow> j < si_s1GBaseNum si b \<Longrightarrow> row_block kn si b j = 0" "ci_bN2LastBlockCostOfEachBatch ci b = row_last kn si b k"
    using p i unfolding last_row_value_def by blast
  have "k = i" using z [of k] k p i by (cases k i rule: linorder_cases) auto
  then show ?thesis using k(5) by simp
qed

lemma next_row_ok:
  assumes ok: "sas_ok kn" "split_ok kn si" and b: "0 \<le> b" "b < sk_batchSize kn" and i: "0 \<le> i" "i < si_s1GBaseNum si b"
    and pos: "0 < rest_batch kn si b (i + 1)"
    and ac: "ac_curS1GIdx ac = i" "ac_batchCache ac = sas_CalcBatchCache kn b sas_batch_cache_init"
  shows "\<exists>j sc. i < j \<and> j < si_s1GBaseNum si b \<and> rest_batch kn si b j = rest_batch kn si b (i + 1) \<and>
    next_row kn si ac = Some (ac\<lparr>ac_curS1GIdx := j, ac_s1GCache := sc\<rparr>) \<and> same_row sc (row_of kn si b j)"
  using i pos ac
proof (induction "nat (si_s1GBaseNum si b - i)" arbitrary: ac i rule: less_induct)
  case less
  have i1: "i + 1 < si_s1GBaseNum si b"
  proof (rule ccontr)
    assume "\<not> i + 1 < si_s1GBaseNum si b"
    then have "rest_batch kn si b (i + 1) = 0" by (simp add: rest_batch_def)
    then show False using less.prems(3) by simp
  qed
  have "si_s1GBaseNum si b < 2147483648" using ok(2) b by (simp add: split_ok_def)
  then have u: "u32 (i + 1) = i + 1" using i1 less.prems(1) by (simp add: u32_id)
  define sc where "sc = sas_CalcS1GCache kn si (i + 1) (ac_batchCache ac) (ac_s1GCache ac)"
  have row: "same_row sc (row_of kn si b (i + 1))"
    unfolding sc_def less.prems(5) by (rule same_row_CalcS1GCache)
  let ?ac = "ac\<lparr>ac_curS1GIdx := i + 1, ac_s1GCache := sc\<rparr>"
  have e: "next_row kn si ac = (if sc_s1GBlock sc = 0 then next_row kn si ?ac else Some ?ac)"
    by (subst next_row.simps) (simp add: u less.prems(4) sc_def Let_def)
  show ?case
  proof (cases "sc_s1GBlock sc = 0")
    case True
    then have "row_cost kn si b (i + 1) = 0" using split_ok_row(2) [OF ok b, of "i + 1"] same_rowD(2) [OF row] by simp
    then have step: "rest_batch kn si b (i + 1 + 1) = rest_batch kn si b (i + 1)" using rest_batch_step [OF i1, of kn] by simp
    have "\<exists>j sc'. i + 1 < j \<and> j < si_s1GBaseNum si b \<and> rest_batch kn si b j = rest_batch kn si b (i + 1 + 1) \<and>
        next_row kn si ?ac = Some (?ac\<lparr>ac_curS1GIdx := j, ac_s1GCache := sc'\<rparr>) \<and> same_row sc' (row_of kn si b j)"
      using less.prems i1 step by (intro less.hyps) auto
    then obtain j sc' where j: "i + 1 < j" "j < si_s1GBaseNum si b" "rest_batch kn si b j = rest_batch kn si b (i + 1 + 1)"
        "next_row kn si ?ac = Some (?ac\<lparr>ac_curS1GIdx := j, ac_s1GCache := sc'\<rparr>)" "same_row sc' (row_of kn si b j)" by blast
    show ?thesis using j e True step by (intro exI [of _ j] exI [of _ sc']) simp
  next
    case False
    show ?thesis using False e row i1 by (intro exI [of _ "i + 1"] exI [of _ sc]) simp
  qed
qed

lemma take_row_simps [simp]:
  "ac_isFinished (take_row ac) = ac_isFinished ac" "ac_curBIdx (take_row ac) = ac_curBIdx ac"
  "ac_curBN2Idx (take_row ac) = ac_curBN2Idx ac" "ac_curS1GIdx (take_row ac) = ac_curS1GIdx ac"
  "ac_batchCache (take_row ac) = ac_batchCache ac" "ac_s1GCache (take_row ac) = ac_s1GCache ac"
  "ac_curKvSplitPart (take_row ac) = ac_curKvSplitPart ac" "ac_unassignedCost (take_row ac) = ac_unassignedCost ac"
  "ac_curCoreIdx (take_row ac) = ac_curCoreIdx ac" "limit (take_row ac) = limit ac"
  "load (take_row ac) = load ac + sc_s1GCost (ac_s1GCache ac)"
  "ac_bN2Cost (take_row ac) = (if ac_bN2Cost ac > sc_s1GCost (ac_s1GCache ac) then ac_bN2Cost ac - sc_s1GCost (ac_s1GCache ac) else 0)"
  by (simp_all add: take_row_def Let_def)

text \<open>
  Whole rows of a batch are assigned while they fit. The batch itself did not fit, so the loop stops before
  it runs out of rows: this is where the recorded cost of the last row with blocks is needed.
\<close>

lemma AssignByRow_loop_ok:
  assumes ok: "sas_ok kn" "split_ok kn si" and t: "cost_table kn si (sk_batchSize kn) ci"
  shows "at_row kn si ac b i \<Longrightarrow> 0 < ac_bN2Cost ac \<Longrightarrow> load ac \<le> limit ac + ci_maxS1GCost ci div 2 \<Longrightarrow>
    limit ac + ci_bN2LastBlockCostOfEachBatch ci b div 2 < load ac + ac_bN2Cost ac \<Longrightarrow>
    \<exists>ac' i'. AssignByRow_loop kn si ac = Some ac' \<and> same_core ac' ac \<and> at_row kn si ac' b i' \<and> i \<le> i' \<and> 0 < ac_bN2Cost ac' \<and>
      load ac' + rest_batch kn si b i' = load ac + rest_batch kn si b i \<and> load ac' \<le> limit ac' + ci_maxS1GCost ci div 2 \<and>
      (ci_maxS1GCost ci \<le> limit ac' \<longrightarrow> 0 < load ac')"
proof (induction "nat (si_s1GBaseNum si b - i)" arbitrary: ac i rule: less_induct)
  case less
  note a = less.prems(1)
  have b: "0 \<le> b" "b < sk_batchSize kn" using a by (auto simp: at_row_def)
  have cur: "ac_bN2Cost ac = rest_batch kn si b i" "ac_curS1GIdx ac = i" "0 \<le> i"
    "ac_batchCache ac = sas_CalcBatchCache kn b sas_batch_cache_init" using a by (auto simp: at_row_def)
  have i: "i < si_s1GBaseNum si b"
    using less.prems(2) cur(1) by (cases "i < si_s1GBaseNum si b") (auto simp: rest_batch_def)
  let ?sc = "ac_s1GCache ac"
  have row: "sc_s1GCost ?sc = row_cost kn si b i" "sc_s1GLastBlockCost ?sc = row_last kn si b i"
    using a same_rowD(1,3) by (auto simp: at_row_def)
  note rk = split_ok_row [OF ok b, of i]
  have td: "tdiv (row_last kn si b i) 2 = row_last kn si b i div 2" using rk(4) by (simp add: tdiv_pos)
  have m: "row_cost kn si b i \<le> ci_maxS1GCost ci" using t b cur(3) i unfolding cost_table_def by blast
  let ?fit = "limit ac + row_last kn si b i div 2 \<ge> load ac + row_cost kn si b i"
  show ?case
  proof (cases ?fit)
    case False
    then have "AssignByRow_loop kn si ac = Some ac"
      by (subst AssignByRow_loop.simps) (simp add: IsWithinTolerance_def td row)
    moreover have "0 < load ac" if "ci_maxS1GCost ci \<le> limit ac"
      using False that m rk(4) pos_imp_zdiv_nonneg_iff [of 2 "row_last kn si b i"] by linarith
    ultimately show ?thesis using a less.prems(2,3) by (intro exI [of _ ac] exI [of _ i]) (simp add: same_core_def)
  next
    case True
    have step: "rest_batch kn si b i = row_cost kn si b i + rest_batch kn si b (i + 1)" by (rule rest_batch_step [OF i])
    have pos: "0 < rest_batch kn si b (i + 1)"
    proof (rule ccontr)
      assume "\<not> ?thesis"
      then have z: "rest_batch kn si b (i + 1) = 0" using rest_batch_nonneg [OF ok b, of "i + 1"] by simp
      then have "ci_bN2LastBlockCostOfEachBatch ci b = row_last kn si b i"
        using last_row_unique [OF ok t b cur(3) i _ z] less.prems(2) cur(1) by simp
      then show False using less.prems(4) True z step cur(1) by simp
    qed
    obtain j sc where j: "i < j" "j < si_s1GBaseNum si b" "rest_batch kn si b j = rest_batch kn si b (i + 1)"
        "next_row kn si (take_row ac) = Some ((take_row ac)\<lparr>ac_curS1GIdx := j, ac_s1GCache := sc\<rparr>)" "same_row sc (row_of kn si b j)"
      using next_row_ok [OF ok b cur(3) i pos, of "take_row ac"] cur by auto
    define ac1 where "ac1 = (take_row ac)\<lparr>ac_curS1GIdx := j, ac_s1GCache := sc, ac_curS2Idx := sc_s2Start sc\<rparr>"
    have f: "load ac1 = load ac + row_cost kn si b i" "limit ac1 = limit ac" "ac_bN2Cost ac1 = rest_batch kn si b j" "same_core ac1 ac"
      using row cur pos step j(3) by (simp_all add: ac1_def same_core_def)
    have at: "at_row kn si ac1 b j"
      using a j cur f(3) unfolding at_row_def by (simp add: ac1_def)
    have rec: "AssignByRow_loop kn si ac = AssignByRow_loop kn si ac1"
      using True by (subst AssignByRow_loop.simps) (simp add: IsWithinTolerance_def td row j(4) ac1_def)
    have "row_last kn si b i div 2 \<le> ci_maxS1GCost ci div 2" using rk(5) m by (intro zdiv_mono1) auto
    then have le: "load ac1 \<le> limit ac1 + ci_maxS1GCost ci div 2" using True unfolding f by linarith
    have "\<exists>ac' i'. AssignByRow_loop kn si ac1 = Some ac' \<and> same_core ac' ac1 \<and> at_row kn si ac' b i' \<and> j \<le> i' \<and> 0 < ac_bN2Cost ac' \<and>
        load ac' + rest_batch kn si b i' = load ac1 + rest_batch kn si b j \<and> load ac' \<le> limit ac' + ci_maxS1GCost ci div 2 \<and>
        (ci_maxS1GCost ci \<le> limit ac' \<longrightarrow> 0 < load ac')"
      using j(1,2) at le pos j(3) less.prems(4) cur(1) step f by (intro less.hyps) auto
    then obtain ac' i' where r: "AssignByRow_loop kn si ac1 = Some ac'" "same_core ac' ac1" "at_row kn si ac' b i'" "j \<le> i'" "0 < ac_bN2Cost ac'"
        "load ac' + rest_batch kn si b i' = load ac1 + rest_batch kn si b j" "load ac' \<le> limit ac' + ci_maxS1GCost ci div 2" "ci_maxS1GCost ci \<le> limit ac' \<longrightarrow> 0 < load ac'" by blast
    show ?thesis using r rec j(1,3) step f by (intro exI [of _ ac'] exI [of _ i']) (simp add: same_core_def)
  qed
qed

end
