(* ===== verification/SasPlan.thy ===== *)
theory SasPlan
  imports SasLoops
begin

text \<open>
  The plan over all cores: the rows between the start and the end of the cores are consecutive, the last used
  core ends behind the last batch, and every used core has work and stays below its load bound.
\<close>

section \<open>One core\<close>

text \<open>Without FD splitting every row starts at key block zero, so a core starts and ends between rows.\<close>

lemma row_s2Start [simp]: "sc_s2Start (row_of kn si b i) = 0"
proof (cases "si_s1GBaseNum si b = 0")
  case True
  then show ?thesis by (simp add: row_of_def sas_CalcS1GCache_def sas_CalcBatchCache_def Let_def)
next
  case False
  let ?bc = "sas_CalcBatchCache kn b sas_batch_cache_init"
  define r where "r = range_cache kn i ?bc sas_s1g_cache_init"
  have w: "sc_winS2Start r = 0" "sc_cmpS2Start r = sc_winS2End r" "0 \<le> sc_winS2End r" "sc_winS2End r < U32_LIM"
    by (auto simp: r_def range_cache_def sas_CalcBlockRangeAndTailSize_def Let_def split: prod.splits)
  obtain wb wc wl wn where wp: "win_part (row_table kn si r) si r = (wb, wc, wl, wn)" by (cases "win_part (row_table kn si r) si r") auto
  obtain cb cc cl cn where cp: "cmp_part (row_table kn si r) si r = (cb, cc, cl, cn)" by (cases "cmp_part (row_table kn si r) si r") auto
  have "wb = sc_winS2End r" using wp w by (auto simp: win_part_def part_vals_def Let_def u32_id split: if_splits)
  then show ?thesis
    using cost_stage_vals(4) [OF wp cp] sas_CalcS1GCache_stages [of si ?bc kn i sas_s1g_cache_init] False w
    by (auto simp: row_of_def r_def)
qed

definition cursor_at :: "sas_kernel \<Rightarrow> sas_split_info \<Rightarrow> sas_assign_context \<Rightarrow> int \<Rightarrow> int \<Rightarrow> bool" where
  "cursor_at kn si ac b i \<longleftrightarrow> at_row kn si ac b i \<and> 0 < ac_bN2Cost ac \<or> at_end kn ac \<and> b = sk_batchSize kn \<and> i = 0"

lemma cursor_at_fields:
  assumes "cursor_at kn si ac b i"
  shows "ac_curBN2Idx ac = b" "ac_curS1GIdx ac = i" "ac_curS2Idx ac = 0" "ac_curKvSplitPart ac = 1" "0 \<le> sc_s2Start (ac_s1GCache ac)"
  using assms same_rowD(4) [of "ac_s1GCache ac" "row_of kn si b i"] by (auto simp: cursor_at_def at_row_def at_end_def)

lemma rest_cost_end [simp]: "rest_cost kn si (sk_batchSize kn) i = 0"
  by (simp add: rest_cost_def)

lemma rest_cost_row_diff:
  assumes "b < sk_batchSize kn"
  shows "rest_cost kn si b i - rest_cost kn si b j = rest_batch kn si b i - rest_batch kn si b j"
  using assms by (simp add: rest_cost_def)

text \<open>The two loops together, on a core with load zero.\<close>

lemma assign_core_ok:
  assumes ok: "sas_ok kn" "split_ok kn si" and t: "cost_table kn si (sk_batchSize kn) ci"
    and a: "at_row kn si ac b i" "load ac = 0" "ci_maxS1GCost ci \<le> limit ac" "0 < rest_cost kn si b i"
  shows "\<exists>ac1 ac' b' i'. AssignByBatch kn si ci ac = Some ac1 \<and> AssignByRow kn si ac1 = Some ac' \<and> same_core ac' ac \<and>
    cursor_at kn si ac' b' i' \<and> (b < b' \<or> b = b' \<and> i \<le> i') \<and> load ac' = rest_cost kn si b i - rest_cost kn si b' i' \<and>
    0 < load ac' \<and> load ac' \<le> limit ac + ci_maxS1GCost ci div 2 \<and> (rest_cost kn si b i \<le> limit ac \<longrightarrow> b' = sk_batchSize kn)"
proof -
  have M: "0 \<le> ci_maxS1GCost ci" using t by (simp add: cost_table_def)
  have fin: "\<not> ac_isFinished ac" using a(1) by (simp add: at_row_def)
  obtain ac1 where r: "AssignByBatch_loop kn si ci ac = Some ac1" "same_core ac1 ac" "batches_stop kn si ci b i (load ac) ac1"
      "load ac1 \<le> limit ac1 + ci_maxS1GCost ci div 2"
    using AssignByBatch_loop_ok [OF ok t a(1)] a(2,3) M by auto
  have e1: "AssignByBatch kn si ci ac = Some ac1" using r(1) fin by (simp add: AssignByBatch_def)
  have lim: "limit ac1 = limit ac" using r(2) by (simp add: same_core_def)
  from r(3) consider (done_all) "at_end kn ac1" "load ac1 = rest_cost kn si b i"
    | (row) b' i' where "at_row kn si ac1 b' i'" "b' = b \<and> i' = i \<or> b < b' \<and> i' = 0"
      "load ac1 + rest_cost kn si b' i' = rest_cost kn si b i" "0 < ac_bN2Cost ac1"
      "limit ac1 + ci_bN2LastBlockCostOfEachBatch ci b' div 2 < load ac1 + ac_bN2Cost ac1"
    unfolding batches_stop_def a(2) by auto
  then show ?thesis
  proof cases
    case done_all
    have "ac_isFinished ac1" using done_all by (simp add: at_end_def)
    moreover have "b < sk_batchSize kn" using a(1) by (simp add: at_row_def)
    ultimately show ?thesis
      using e1 r(2,4) done_all a(4) lim
      by (intro exI [of _ ac1] exI [of _ ac1] exI [of _ "sk_batchSize kn"] exI [of _ 0]) (simp add: AssignByRow_def cursor_at_def)
  next
    case row
    have b': "0 \<le> b'" "b' < sk_batchSize kn" and nf: "\<not> ac_isFinished ac1" and bc: "ac_bN2Cost ac1 = rest_batch kn si b' i'"
      using row(1) by (auto simp: at_row_def)
    obtain ac' j where q: "AssignByRow_loop kn si ac1 = Some ac'" "same_core ac' ac1" "at_row kn si ac' b' j" "i' \<le> j" "0 < ac_bN2Cost ac'"
        "load ac' + rest_batch kn si b' j = load ac1 + rest_batch kn si b' i'" "load ac' \<le> limit ac' + ci_maxS1GCost ci div 2"
        "ci_maxS1GCost ci \<le> limit ac' \<longrightarrow> 0 < load ac'"
      using AssignByRow_loop_ok [OF ok t row(1,4) r(4) row(5)] by blast
    have lim': "limit ac' = limit ac" using q(2) lim by (simp add: same_core_def)
    have ld: "load ac' = rest_cost kn si b i - rest_cost kn si b' j"
      using q(6) row(3) rest_cost_row_diff [OF b'(2), of si i' j] by linarith
    have "\<not> rest_cost kn si b i \<le> limit ac"
      using row(3,5) bc rest_cost_ge_batch [OF ok b', of i'] lim cost_table_last(1) [OF ok t b']
        pos_imp_zdiv_nonneg_iff [of 2 "ci_bN2LastBlockCostOfEachBatch ci b'"] by linarith
    moreover have "AssignByRow kn si ac1 = Some ac'" using q(1) nf by (simp add: AssignByRow_def)
    moreover have "cursor_at kn si ac' b' j" using q(3,5) by (simp add: cursor_at_def)
    moreover have "b < b' \<or> b = b' \<and> i \<le> j" using row(2) q(4) by auto
    moreover have "same_core ac' ac" using q(2) r(2) by (simp add: same_core_def)
    moreover have "0 < load ac'" "load ac' \<le> limit ac + ci_maxS1GCost ci div 2" using q(7,8) lim' a(3) by auto
    ultimately show ?thesis using e1 ld by blast
  qed
qed

text \<open>What one core leaves in the result: its end cursor, and the cost of the slowest core so far.\<close>

definition put_end :: "int \<Rightarrow> int \<Rightarrow> int \<Rightarrow> int \<Rightarrow> split_result \<Rightarrow> split_result" where
  "put_end k b i c res = res\<lparr>sr_bN2End := (sr_bN2End res)[nat k := b], sr_gS1End := (sr_gS1End res)[nat k := i],
     sr_s2End := (sr_s2End res)[nat k := 0], sr_maxCost := max (sr_maxCost res) c\<rparr>"

definition vec_lengths :: "int \<Rightarrow> split_result \<Rightarrow> bool" where
  "vec_lengths n res \<longleftrightarrow> length (sr_bN2End res) = nat n \<and> length (sr_gS1End res) = nat n \<and> length (sr_s2End res) = nat n"

lemma AssignBlocksToCore_ok:
  assumes ok: "sas_ok kn" "split_ok kn si" and t: "cost_table kn si (sk_batchSize kn) ci"
    and a: "at_row kn si ac b i" "ac_unassignedCost ac = rest_cost kn si b i" "0 < rest_cost kn si b i" "ac_curCoreIdx ac = k"
    and k: "0 \<le> k" "k < sk_aicCoreNum kn" and len: "vec_lengths (sk_aicCoreNum kn) res"
  shows "\<exists>ac' b' i'. AssignBlocksToCore kn si ci (ac, res) = Some (ac', put_end k b' i' (rest_cost kn si b i - rest_cost kn si b' i') res) \<and>
    cursor_at kn si ac' b' i' \<and> ac_unassignedCost ac' = rest_cost kn si b' i' \<and> ac_curCoreIdx ac' = k \<and>
    (b < b' \<or> b = b' \<and> i \<le> i') \<and> 0 < rest_cost kn si b i - rest_cost kn si b' i' \<and>
    rest_cost kn si b i - rest_cost kn si b' i' \<le>
      max (rest_cost kn si b i div (sk_aicCoreNum kn - k)) (ci_maxS1GCost ci) + ci_maxS1GCost ci div 2 \<and>
    (k = sk_aicCoreNum kn - 1 \<longrightarrow> b' = sk_batchSize kn)"
proof -
  let ?A = "sk_aicCoreNum kn" and ?R = "rest_cost kn si b i"
  have A: "u32 (?A - k) = ?A - k" "?A - k \<noteq> 0" "\<not> sk_supportFd kn" using ok(1) k by (auto simp: sas_ok_def u32_id)
  have avg: "cdiv ?R (?A - k) = Some (?R div (?A - k))" using A(2) k a(3) by (simp add: cdiv_def tdiv_pos)
  define L where "L = max (?R div (?A - k)) (ci_maxS1GCost ci)"
  define ac0 where "ac0 = ac\<lparr>ac_coreCache := core_cache_init\<lparr>cc_costLimit := L\<rparr>\<rparr>"
  have a0: "at_row kn si ac0 b i" "load ac0 = 0" "limit ac0 = L" "ci_maxS1GCost ci \<le> limit ac0"
    using a(1) by (simp_all add: ac0_def at_row_def core_cache_init_def L_def)
  obtain ac1 ac2 b' i' where r: "AssignByBatch kn si ci ac0 = Some ac1" "AssignByRow kn si ac1 = Some ac2" "same_core ac2 ac0"
      "cursor_at kn si ac2 b' i'" "b < b' \<or> b = b' \<and> i \<le> i'" "load ac2 = ?R - rest_cost kn si b' i'" "0 < load ac2"
      "load ac2 \<le> limit ac0 + ci_maxS1GCost ci div 2" "?R \<le> limit ac0 \<longrightarrow> b' = sk_batchSize kn"
    using assign_core_ok [OF ok t a0(1,2,4) a(3)] by blast
  note f = cursor_at_fields [OF r(4)]
  have sc: "ac_curCoreIdx ac2 = k" "ac_unassignedCost ac2 = ?R" using r(3) a(2,4) by (simp_all add: same_core_def ac0_def)
  define ac3 where "ac3 = ac2\<lparr>ac_unassignedCost := ac_unassignedCost ac2 - load ac2\<rparr>"
  have put: "vset (sr_bN2End res) k v = Some ((sr_bN2End res)[nat k := v])" "vset (sr_gS1End res) k v = Some ((sr_gS1End res)[nat k := v])"
    "vset (sr_s2End res) k v = Some ((sr_s2End res)[nat k := v])" for v
    using len k by (simp_all add: vset_def vec_lengths_def)
  have need: "IsNeedRecordFDInfo ac3 res' = Some False" for res' using f(4) by (simp add: IsNeedRecordFDInfo_def ac3_def)
  have e: "AssignBlocksToCore kn si ci (ac, res) = Some (ac3, put_end k b' i' (load ac2) res)"
    unfolding AssignBlocksToCore_def using A a(2,4) avg r(1,2) f sc put need
    by (simp add: L_def [symmetric] ac0_def [symmetric] AssignByBlock_def ac3_def put_end_def Let_def)
  have c: "cursor_at kn si ac3 b' i'" using r(4) by (simp add: ac3_def cursor_at_def at_row_def at_end_def)
  have un: "ac_unassignedCost ac3 = rest_cost kn si b' i'" "ac_curCoreIdx ac3 = k" using sc r(6) by (simp_all add: ac3_def)
  have last: "b' = sk_batchSize kn" if "k = ?A - 1" using r(9) that unfolding a0(3) L_def by simp
  show ?thesis using e c un r(5,7,8) last unfolding r(6) a0(3) L_def by blast
qed

section \<open>All cores\<close>

definition plan_start :: "split_result \<Rightarrow> int \<Rightarrow> int \<times> int" where
  "plan_start res j = (if j = 0 then (0, 0) else (sr_bN2End res ! nat (j - 1), sr_gS1End res ! nat (j - 1)))"

definition rest_at :: "sas_kernel \<Rightarrow> sas_split_info \<Rightarrow> int \<times> int \<Rightarrow> int" where
  "rest_at kn si c = rest_cost kn si (fst c) (snd c)"

definition cur_le :: "int \<times> int \<Rightarrow> int \<times> int \<Rightarrow> bool" where
  "cur_le c d \<longleftrightarrow> fst c < fst d \<or> fst c = fst d \<and> snd c \<le> snd d"

definition valid_cursor :: "sas_kernel \<Rightarrow> sas_split_info \<Rightarrow> int \<times> int \<Rightarrow> bool" where
  "valid_cursor kn si c \<longleftrightarrow> c = (sk_batchSize kn, 0) \<or>
     0 \<le> fst c \<and> fst c < sk_batchSize kn \<and> 0 \<le> snd c \<and> (snd c = 0 \<or> snd c < si_s1GBaseNum si (fst c))"

text \<open>The load of core \<open>j\<close>: what lies between its start and its end.\<close>

definition core_load :: "sas_kernel \<Rightarrow> sas_split_info \<Rightarrow> split_result \<Rightarrow> int \<Rightarrow> int" where
  "core_load kn si res j = rest_at kn si (plan_start res j) - rest_at kn si (plan_start res (j + 1))"

definition core_planned :: "sas_kernel \<Rightarrow> sas_split_info \<Rightarrow> sas_cost_info \<Rightarrow> split_result \<Rightarrow> int \<Rightarrow> bool" where
  "core_planned kn si ci res j \<longleftrightarrow> sr_s2End res ! nat j = 0 \<and> valid_cursor kn si (plan_start res (j + 1)) \<and>
     cur_le (plan_start res j) (plan_start res (j + 1)) \<and> 0 < core_load kn si res j \<and> core_load kn si res j \<le> sr_maxCost res \<and>
     core_load kn si res j \<le>
       max (rest_at kn si (plan_start res j) div (sk_aicCoreNum kn - j)) (ci_maxS1GCost ci) + ci_maxS1GCost ci div 2"

definition cores_planned :: "sas_kernel \<Rightarrow> sas_split_info \<Rightarrow> sas_cost_info \<Rightarrow> split_result \<Rightarrow> int \<Rightarrow> bool" where
  "cores_planned kn si ci res m \<longleftrightarrow> vec_lengths (sk_aicCoreNum kn) res \<and> (\<forall>j. 0 \<le> j \<and> j < m \<longrightarrow> core_planned kn si ci res j)"

lemma plan_start_put:
  assumes "0 \<le> j" "j \<le> k" shows "plan_start (put_end k b i c res) j = plan_start res j"
  using assms by (auto simp: plan_start_def put_end_def)

lemma plan_start_put_new:
  assumes "vec_lengths n res" "0 \<le> k" "k < n" shows "plan_start (put_end k b i c res) (k + 1) = (b, i)"
  using assms by (simp add: plan_start_def put_end_def vec_lengths_def)

lemma cores_planned_put:
  fixes b i :: int
  assumes p: "cores_planned kn si ci res k" and k: "0 \<le> k" "k < sk_aicCoreNum kn"
    and c: "c = rest_at kn si (plan_start res k) - rest_cost kn si b i" "0 < c"
      "c \<le> max (rest_at kn si (plan_start res k) div (sk_aicCoreNum kn - k)) (ci_maxS1GCost ci) + ci_maxS1GCost ci div 2"
    and v: "valid_cursor kn si (b, i)" "cur_le (plan_start res k) (b, i)"
  shows "cores_planned kn si ci (put_end k b i c res) (k + 1)"
proof -
  have len: "vec_lengths (sk_aicCoreNum kn) res" using p by (simp add: cores_planned_def)
  let ?r = "put_end k b i c res"
  have new: "plan_start ?r (k + 1) = (b, i)" using plan_start_put_new [OF len k] .
  have "core_planned kn si ci ?r j" if j: "0 \<le> j" "j < k + 1" for j
  proof (cases "j = k")
    case True
    have "plan_start ?r k = plan_start res k" using plan_start_put [of k k] k by simp
    moreover have "sr_s2End ?r ! nat k = 0" "c \<le> sr_maxCost ?r" using len k by (simp_all add: put_end_def vec_lengths_def)
    ultimately show ?thesis using c v new unfolding core_planned_def core_load_def True by (simp add: rest_at_def)
  next
    case False
    then have j': "0 \<le> j" "j < k" using j by auto
    have "plan_start ?r j = plan_start res j" "plan_start ?r (j + 1) = plan_start res (j + 1)" using plan_start_put j' by auto
    moreover have "sr_s2End ?r ! nat j = sr_s2End res ! nat j" "sr_maxCost res \<le> sr_maxCost ?r" using j' by (simp_all add: put_end_def)
    moreover have "core_planned kn si ci res j" using p j' by (simp add: cores_planned_def)
    ultimately show ?thesis unfolding core_planned_def core_load_def by (metis order_trans)
  qed
  moreover have "vec_lengths (sk_aicCoreNum kn) ?r" using len by (simp add: vec_lengths_def put_end_def)
  ultimately show ?thesis unfolding cores_planned_def by blast
qed

lemma rest_cost_nonneg:
  assumes "sas_ok kn" "split_ok kn si" "0 \<le> b"
  shows "0 \<le> rest_cost kn si b i"
  using rest_cost_ge_batch [OF assms(1,2,3)] rest_batch_nonneg [OF assms(1,2,3)] order_trans
  by (cases "b < sk_batchSize kn") (blast, simp add: rest_cost_def)

lemma cursor_at_valid:
  assumes "cursor_at kn si ac b i" "0 \<le> sk_batchSize kn"
  shows "valid_cursor kn si (b, i)" "0 \<le> b"
  using assms by (auto simp: cursor_at_def at_row_def at_end_def valid_cursor_def)

lemma cursor_at_rest:
  assumes "sas_ok kn" "split_ok kn si" "cursor_at kn si ac b i" "b \<noteq> sk_batchSize kn"
  shows "at_row kn si ac b i" "0 < rest_cost kn si b i"
proof -
  show a: "at_row kn si ac b i" using assms by (simp add: cursor_at_def)
  have "0 \<le> b" "b < sk_batchSize kn" "0 < rest_batch kn si b i" using assms a by (auto simp: cursor_at_def at_row_def)
  then show "0 < rest_cost kn si b i" using rest_cost_ge_batch [OF assms(1,2)] by (meson less_le_trans)
qed

text \<open>The fields of the result the assignment of rows leaves alone.\<close>

definition same_fd :: "split_result \<Rightarrow> split_result \<Rightarrow> bool" where
  "same_fd r s \<longleftrightarrow> sr_numOfFdHead r = sr_numOfFdHead s \<and> sr_fdRes r = sr_fdRes s \<and>
     sr_firstFdDataWorkspaceIdx r = sr_firstFdDataWorkspaceIdx s"

lemma CalcSplitPlan_loop_ok:
  assumes ok: "sas_ok kn" "split_ok kn si" and t: "cost_table kn si (sk_batchSize kn) ci"
  shows "cores_planned kn si ci res k \<Longrightarrow> 0 \<le> k \<Longrightarrow> k + int m = sk_aicCoreNum kn \<Longrightarrow>
    at_row kn si ac b i \<Longrightarrow> 0 < rest_cost kn si b i \<Longrightarrow> plan_start res k = (b, i) \<Longrightarrow> ac_unassignedCost ac = rest_cost kn si b i \<Longrightarrow>
    rest_cost kn si b i \<le> costLimit \<Longrightarrow> sr_maxCost res \<le> costLimit \<Longrightarrow> 0 < m \<Longrightarrow>
    \<exists>ac' res' n. CalcSplitPlan_loop kn si ci costLimit m k (ac, res) = Some (False, ac', res') \<and>
      0 < n \<and> n \<le> sk_aicCoreNum kn \<and> ac_curCoreIdx ac' = n - 1 \<and> cores_planned kn si ci res' n \<and>
      plan_start res' n = (sk_batchSize kn, 0) \<and> same_fd res' res"
proof (induction m arbitrary: k ac res b i)
  case (Suc m)
  have n: "0 \<le> sk_batchSize kn" using ok(1) by (simp add: sas_ok_def)
  have nf: "\<not> ac_isFinished ac" using Suc.prems(4) by (simp add: at_row_def)
  let ?ac = "ac\<lparr>ac_curCoreIdx := k\<rparr>" and ?R = "rest_cost kn si b i"
  have at: "at_row kn si ?ac b i" using Suc.prems(4) by (simp add: at_row_def)
  have k: "k < sk_aicCoreNum kn" using Suc.prems(3) by simp
  have "vec_lengths (sk_aicCoreNum kn) res" using Suc.prems(1) by (simp add: cores_planned_def)
  then obtain ac' b' i' where r: "AssignBlocksToCore kn si ci (?ac, res) = Some (ac', put_end k b' i' (?R - rest_cost kn si b' i') res)"
    "cursor_at kn si ac' b' i'" "ac_unassignedCost ac' = rest_cost kn si b' i'" "ac_curCoreIdx ac' = k" "b < b' \<or> b = b' \<and> i \<le> i'"
    "0 < ?R - rest_cost kn si b' i'"
    "?R - rest_cost kn si b' i' \<le> max (?R div (sk_aicCoreNum kn - k)) (ci_maxS1GCost ci) + ci_maxS1GCost ci div 2"
    "k = sk_aicCoreNum kn - 1 \<longrightarrow> b' = sk_batchSize kn"
    using AssignBlocksToCore_ok [OF ok t at, of k res] Suc.prems(2,5,7) k by auto
  define res1 where "res1 = put_end k b' i' (?R - rest_cost kn si b' i') res"
  note v = cursor_at_valid [OF r(2) n]
  have pl: "cores_planned kn si ci res1 (k + 1)"
    unfolding res1_def using Suc.prems(1,2,6) k r(5,6,7) v(1) by (intro cores_planned_put) (auto simp: rest_at_def cur_le_def)
  have st: "plan_start res1 (k + 1) = (b', i')" unfolding res1_def
    by (rule plan_start_put_new [of "sk_aicCoreNum kn"]) (use Suc.prems(1,2) k in \<open>auto simp: cores_planned_def\<close>)
  have fd: "same_fd res1 res" by (simp add: res1_def put_end_def same_fd_def)
  have rn: "0 \<le> rest_cost kn si b' i'" by (rule rest_cost_nonneg [OF ok v(2)])
  have lim: "sr_maxCost res1 \<le> costLimit" using Suc.prems(8,9) rn by (simp add: res1_def put_end_def)
  have rec: "CalcSplitPlan_loop kn si ci costLimit (Suc m) k (ac, res) = CalcSplitPlan_loop kn si ci costLimit m (k + 1) (ac', res1)"
    using nf Suc.prems(5,7,9) r(1) by (simp add: res1_def)
  show ?case
  proof (cases "b' = sk_batchSize kn")
    case True
    then have "at_end kn ac'" "i' = 0" using r(2) by (auto simp: cursor_at_def at_row_def)
    then have "CalcSplitPlan_loop kn si ci costLimit m (k + 1) (ac', res1) = Some (False, ac', res1)"
      using lim by (cases m) (auto simp: at_end_def)
    then show ?thesis
      using rec pl st fd r(4) True \<open>i' = 0\<close> Suc.prems(2) k by (intro exI [of _ ac'] exI [of _ res1] exI [of _ "k + 1"]) simp
  next
    case False
    note q = cursor_at_rest [OF ok r(2) False]
    have "k \<noteq> sk_aicCoreNum kn - 1" using r(8) False by blast
    then have m: "0 < m" using Suc.prems(3) by (cases m) auto
    have "rest_cost kn si b' i' \<le> costLimit" using r(6) Suc.prems(8) by linarith
    then obtain ac2 res2 n where g: "CalcSplitPlan_loop kn si ci costLimit m (k + 1) (ac', res1) = Some (False, ac2, res2)"
      "0 < n" "n \<le> sk_aicCoreNum kn" "ac_curCoreIdx ac2 = n - 1" "cores_planned kn si ci res2 n"
      "plan_start res2 n = (sk_batchSize kn, 0)" "same_fd res2 res1"
      using Suc.IH [OF pl _ _ q st r(3) _ lim m] Suc.prems(2,3) by auto
    have "same_fd res2 res" using g(7) fd by (simp add: same_fd_def)
    then show ?thesis using g(1-6) rec by auto
  qed
qed simp

section \<open>The schedule\<close>

lemma cost_table_total:
  "cost_table kn si (sk_batchSize kn) ci \<Longrightarrow> 0 < sk_batchSize kn \<Longrightarrow> ci_totalCost ci = rest_cost kn si 0 0"
proof -
  assume t: "cost_table kn si (sk_batchSize kn) ci" and n: "0 < sk_batchSize kn"
  have "{0..<sk_batchSize kn} = insert 0 {1..<sk_batchSize kn}" using n by auto
  then show ?thesis using t n by (simp add: cost_table_def rest_cost_def batch_cost_rest)
qed

lemma CalcSplitPlan_ok:
  assumes ok: "sas_ok kn" "split_ok kn si" and t: "cost_table kn si (sk_batchSize kn) ci" and n: "0 < sk_batchSize kn"
    and c: "0 < ci_totalCost ci" "ci_totalCost ci \<le> costLimit" and len: "vec_lengths (sk_aicCoreNum kn) res"
  shows "\<exists>res' m. CalcSplitPlan kn costLimit si ci res = Some (res'\<lparr>sr_usedCoreNum := m\<rparr>) \<and> 0 < m \<and> m \<le> sk_aicCoreNum kn \<and>
    cores_planned kn si ci res' m \<and> plan_start res' m = (sk_batchSize kn, 0) \<and> same_fd res' res"
proof -
  let ?bc = "sas_CalcBatchCache kn 0 sas_batch_cache_init"
  let ?sc = "sas_CalcS1GCache kn si 0 ?bc sas_s1g_cache_init"
  let ?res = "res\<lparr>sr_maxCost := 0, sr_usedCoreNum := 0\<rparr>"
  define ac where "ac = sas_assign_context_init\<lparr>ac_unassignedCost := ci_totalCost ci, ac_bN2Cost := ci_bN2CostOfEachBatch ci 0,
    ac_bN2Block := ci_bN2BlockOfEachBatch ci 0, ac_batchCache := ?bc, ac_s1GCache := ?sc, ac_curS2Idx := sc_s2Start ?sc\<rparr>"
  have A: "0 < sk_aicCoreNum kn" "sk_aicCoreNum kn < 65536" using ok(1) by (auto simp: sas_ok_def)
  have "ci_bN2CostOfEachBatch ci 0 = rest_batch kn si 0 0" using t n by (auto simp: cost_table_def batch_cost_rest)
  then have at: "at_row kn si ac 0 0"
    using n unfolding at_row_def by (simp add: ac_def sas_assign_context_init_def row_of_def)
  note tot = cost_table_total [OF t n]
  have p0: "cores_planned kn si ci ?res 0" using len by (auto simp: cores_planned_def vec_lengths_def)
  obtain ac' res' m where g: "CalcSplitPlan_loop kn si ci costLimit (nat (sk_aicCoreNum kn)) 0 (ac, ?res) = Some (False, ac', res')"
      "0 < m" "m \<le> sk_aicCoreNum kn" "ac_curCoreIdx ac' = m - 1" "cores_planned kn si ci res' m"
      "plan_start res' m = (sk_batchSize kn, 0)" "same_fd res' ?res"
    using CalcSplitPlan_loop_ok [OF ok t p0 _ _ at, of "nat (sk_aicCoreNum kn)" costLimit] A c tot
    by (auto simp: plan_start_def ac_def)
  have "u32 m = m" using g(2,3) A by (simp add: u32_id)
  then have "CalcSplitPlan kn costLimit si ci res = Some (res'\<lparr>sr_usedCoreNum := m\<rparr>)"
    using A g(1,4) by (simp add: CalcSplitPlan_def ac_def [symmetric] Let_def)
  moreover have "same_fd res' res" using g(7) by (simp add: same_fd_def)
  ultimately show ?thesis using g(2,3,5,6) by blast
qed

end
