(* ===== verification/SasSchedule.thy ===== *)
theory SasSchedule
  imports SasPlan
begin

text \<open>
  The schedule as a whole: a batch with queries and keys has a row with work, so the plan starts with a positive
  total, and \<open>BalanceSchedule\<close> always produces a schedule.
\<close>

section \<open>Work exists\<close>

text \<open>The mask settings that \<open>ParamsInit\<close> leaves.\<close>

definition mask_ok :: "sas_kernel \<Rightarrow> bool" where
  "mask_ok kn \<longleftrightarrow> sk_attentionMode kn = 0 \<or>
     sk_oriMaskMode kn = 3 \<and> sk_preToken kn = INT64_MAX \<and> sk_nextToken kn = 0 \<and> sk_attentionMode kn = 1 \<or>
     sk_oriMaskMode kn = 4 \<and> sk_preToken kn = 127 \<and> sk_nextToken kn = 0 \<and> sk_attentionMode kn = 1"

lemma last_token_row:
  fixes s1 g m :: int
  assumes "0 < s1" "0 < g" "0 < m" "r = (s1 * g + m - 1) div m - 1"
  shows "0 \<le> r" "min (r * m + m) (s1 * g) = s1 * g" "r * m \<le> s1 * g - 1"
proof -
  have p: "0 < s1 * g" using assms by simp
  have d: "(s1 * g + m - 1) div m * m = s1 * g + m - 1 - (s1 * g + m - 1) mod m" by (simp add: minus_mod_eq_div_mult)
  have md: "0 \<le> (s1 * g + m - 1) mod m" "(s1 * g + m - 1) mod m < m" using assms by simp_all
  have rm: "r * m + m = (s1 * g + m - 1) div m * m" using assms(4) by (simp add: left_diff_distrib)
  show "min (r * m + m) (s1 * g) = s1 * g" using rm d md by linarith
  show "r * m \<le> s1 * g - 1" using rm d md by linarith
  have "m \<le> s1 * g + m - 1" using p by linarith
  then have "1 \<le> (s1 * g + m - 1) div m" using assms(3) by (simp add: int_one_le_iff_zero_less pos_imp_zdiv_pos_iff)
  then show "0 \<le> r" using assms(4) by simp
qed

lemma last_row_range:
  fixes r :: int
  assumes ok: "sas_ok kn" "mask_ok kn" "seq_ok kn b" and s: "0 < sas_GetS1SeqSize kn b" "0 < sas_GetS2SeqSize kn b"
    and r: "r = (sas_GetS1SeqSize kn b * sk_groupSize kn + sk_mBaseSize kn - 1) div sk_mBaseSize kn - 1"
    and bc: "bc = sas_CalcBatchCache kn b sas_batch_cache_init"
  shows "\<exists>f l. sas_CalcS2TokenRange kn r bc = (f, l) \<and> f < bc_s2Size bc \<and> 0 \<le> l \<and> f \<le> l"
proof -
  let ?s1 = "sas_GetS1SeqSize kn b" and ?s2 = "sas_GetS2SeqSize kn b" and ?g = "sk_groupSize kn" and ?m = "sk_mBaseSize kn"
  have pos: "0 < ?g" "0 < ?m" "sk_isS1G kn" "?m < 2147483648" using ok(1) by (auto simp: sas_ok_def)
  note lt = last_token_row [OF s(1) pos(1,2) r]
  have f: "bc_s1Size bc = ?s1" "bc_s2Size bc = ?s2" "bc_preTokenLeftUp bc = sas_CalcPreTokenLeftUp kn ?s1 ?s2"
    "bc_nextTokenLeftUp bc = sas_CalcNextTokenLeftUp kn ?s1 ?s2" by (simp_all add: bc sas_CalcBatchCache_def Let_def)
  have p: "0 < ?s1 * ?g" using s pos by simp
  have q: "0 \<le> r * ?m" using lt(1) pos(2) by simp
  have last: "tdiv (?s1 * ?g - 1) ?g = ?s1 - 1"
  proof -
    have "?s1 * ?g - 1 = ?g * (?s1 - 1) + (?g - 1)" by (simp add: algebra_simps)
    then have "(?s1 * ?g - 1) div ?g = ?s1 - 1" by (rule int_div_pos_eq) (use pos(1) in auto)
    then show ?thesis using p pos(1) by (simp add: tdiv_pos)
  qed
  have first: "tdiv (r * ?m) ?g \<le> ?s1 - 1" "0 \<le> tdiv (r * ?m) ?g"
  proof -
    have "r * ?m div ?g \<le> (?s1 * ?g - 1) div ?g" using lt(3) pos(1) by (intro zdiv_mono1) auto
    then show "tdiv (r * ?m) ?g \<le> ?s1 - 1" "0 \<le> tdiv (r * ?m) ?g"
      using last q p pos(1) by (simp_all add: tdiv_pos pos_imp_zdiv_nonneg_iff)
  qed
  have s1: "?s1 < 2147483648"
  proof -
    have "?s1 * 1 \<le> ?s1 * ?g" using s pos(1) by (intro mult_left_mono) auto
    then show ?thesis using ok(3) pos by (simp add: seq_ok_def)
  qed
  show ?thesis
  proof (cases "sk_attentionMode kn = 0")
    case True
    then show ?thesis using s f by (simp add: sas_CalcS2TokenRange_def)
  next
    case False
    have e: "sas_CalcS2TokenRange kn r bc = (tdiv (r * ?m) ?g - bc_preTokenLeftUp bc, ?s1 - 1 + bc_nextTokenLeftUp bc)"
      using False s f pos(3) lt(2) last by (simp add: sas_CalcS2TokenRange_def Let_def)
    from ok(2) False have "sk_oriMaskMode kn = 3 \<and> sk_preToken kn = INT64_MAX \<and> sk_nextToken kn = 0 \<or>
        sk_oriMaskMode kn = 4 \<and> sk_preToken kn = 127 \<and> sk_nextToken kn = 0" by (auto simp: mask_ok_def)
    then show ?thesis
      using e f first s1 s
      by (auto simp: sas_CalcPreTokenLeftUp_def sas_CalcNextTokenLeftUp_def to_sparse_mode_def)
  qed
qed

lemma last_row_pos:
  fixes r :: int
  assumes ok: "sas_ok kn" "mask_ok kn" "split_ok kn si" and b: "0 \<le> b" "b < sk_batchSize kn"
    and s: "0 < sas_GetS1SeqSize kn b" "0 < sas_GetS2SeqSize kn b"
    and r: "r = (sas_GetS1SeqSize kn b * sk_groupSize kn + sk_mBaseSize kn - 1) div sk_mBaseSize kn - 1" "si_s1GBaseNum si b = r + 1"
  shows "0 < row_cost kn si b r"
proof -
  define bc where "bc = sas_CalcBatchCache kn b sas_batch_cache_init"
  define rc where "rc = range_cache kn r bc sas_s1g_cache_init"
  have sq: "seq_ok kn b" using ok(3) b by (simp add: split_ok_def)
  obtain f l where fl: "sas_CalcS2TokenRange kn r bc = (f, l)" "f < bc_s2Size bc" "0 \<le> l" "f \<le> l"
    using last_row_range [OF ok(1,2) sq s r(1) bc_def] by blast
  have s2: "0 < bc_s2Size bc" "bc_s2Size bc < 2147483648" "bc_bIdx bc = b" using s(2) sq by (simp_all add: bc_def sas_CalcBatchCache_def Let_def seq_ok_def)
  have pos: "0 < sk_groupSize kn" "0 < sk_mBaseSize kn" "128 \<le> sk_s2BaseSize kn" using ok(1) by (auto simp: sas_ok_def)
  have rn: "0 \<le> r" using last_token_row(1) [OF s(1) pos(1,2) r(1)] .
  note w = range_win [OF ok(1) _ s2(2), of r sas_s1g_cache_init, folded rc_def]
  have u: "u32 (bc_s2Size bc - 1) = bc_s2Size bc - 1" using s2 by (simp add: u32_id)
  let ?d = "Clip l 0 (bc_s2Size bc - 1) - Clip f 0 (bc_s2Size bc - 1)"
  have d: "0 \<le> ?d" "?d < 2147483648" using fl s2 by (auto simp: Clip_def)
  have dd: "0 \<le> ?d div sk_s2BaseSize kn" "?d div sk_s2BaseSize kn < 33554432" using block_count_bound [OF d pos(3)] by auto
  have "sc_winS2End rc = ?d div sk_s2BaseSize kn + 1"
    using fl d dd pos(3) unfolding rc_def range_cache_def fl(1)
    by (simp add: sas_CalcBlockRangeAndTailSize_def Let_def u tdiv_pos u32_id)
  then have we: "0 < sc_winS2End rc" using dd by simp
  obtain wb wc wl wn where wp: "win_part (row_table kn si rc) si rc = (wb, wc, wl, wn)" by (cases "win_part (row_table kn si rc) si rc") auto
  obtain cb cc cl cn where cp: "cmp_part (row_table kn si rc) si rc = (cb, cc, cl, cn)" by (cases "cmp_part (row_table kn si rc) si rc") auto
  have wb: "wb = sc_winS2End rc" using wp w s2(1) we by (auto simp: win_part_def part_vals_def Let_def u32_id split: if_splits)
  note c = range_cmp [OF ok(1) _ s2(2), of r sas_s1g_cache_init, folded rc_def]
  have cb: "0 \<le> cb" "cb < 134217728"
    using cp c(1,2) w(4,8) s2(1) by (auto simp: cmp_part_def part_vals_def Let_def u32_id split: if_splits)
  have "si_s1GBaseNum si (bc_bIdx bc) \<noteq> 0" using r(2) rn s2(3) by simp
  then have "row_block kn si b r = u32 (wb + cb)"
    using cost_stage_vals(1) [OF wp cp] sas_CalcS1GCache_stages [of si bc kn r sas_s1g_cache_init]
    by (simp add: row_of_def rc_def bc_def)
  also have "\<dots> = wb + cb" using wb w(4,5) s2(1) cb we by (simp add: u32_id)
  finally have "row_block kn si b r \<noteq> 0" using wb we cb by simp
  then show ?thesis using split_ok_row(1,2) [OF ok(1,3) b, of r] by linarith
qed

text \<open>The total is positive as soon as one batch has queries and keys.\<close>

lemma total_cost_pos:
  assumes ok: "sas_ok kn" "mask_ok kn" "split_ok kn si" and t: "cost_table kn si (sk_batchSize kn) ci"
    and b: "0 \<le> b" "b < sk_batchSize kn" and s: "0 < sas_GetS1SeqSize kn b" "0 < sas_GetS2SeqSize kn b"
    and base: "si_s1GBaseNum si b = (sas_GetS1SeqSize kn b * sk_groupSize kn + sk_mBaseSize kn - 1) div sk_mBaseSize kn"
  shows "0 < ci_totalCost ci"
proof -
  define r where "r = (sas_GetS1SeqSize kn b * sk_groupSize kn + sk_mBaseSize kn - 1) div sk_mBaseSize kn - 1"
  have br: "si_s1GBaseNum si b = r + 1" using base by (simp add: r_def)
  have "0 < sk_groupSize kn" "0 < sk_mBaseSize kn" using ok(1) by (auto simp: sas_ok_def)
  then have rn: "0 \<le> r" using last_token_row(1) [OF s(1) _ _ r_def] by blast
  have "0 < row_cost kn si b r" by (rule last_row_pos [OF ok b s r_def br])
  also have "\<dots> \<le> batch_cost kn si b"
    unfolding batch_cost_def using split_ok_row(1) [OF ok(1,3) b] rn br by (intro member_le_sum) auto
  also have "\<dots> \<le> (\<Sum>b \<in> {0..<sk_batchSize kn}. batch_cost kn si b)"
    unfolding batch_cost_rest using rest_batch_nonneg [OF ok(1,3)] b by (intro member_le_sum) auto
  finally show ?thesis using t by (simp add: cost_table_def)
qed

section \<open>The schedule\<close>

definition seqs_ok :: "sas_kernel \<Rightarrow> bool" where
  "seqs_ok kn \<longleftrightarrow> (\<forall>b. 0 \<le> b \<and> b < sk_batchSize kn \<longrightarrow> seq_ok kn b)"

lemma row_blocks_bounds:
  fixes x m :: int
  assumes "0 \<le> x" "0 < m"
  shows "0 \<le> (x + m - 1) div m" "(x + m - 1) div m \<le> x + m - 1"
proof -
  show "0 \<le> (x + m - 1) div m" using assms by (simp add: pos_imp_zdiv_nonneg_iff)
  have "(x + m - 1) div m \<le> (x + m - 1) div 1" using assms by (intro zdiv_mono2) auto
  then show "(x + m - 1) div m \<le> x + m - 1" by simp
qed

lemma split_info_split_ok:
  assumes ok: "sas_ok kn" "seqs_ok kn"
    and si: "\<And>b. 0 \<le> b \<Longrightarrow> b < sk_batchSize kn \<Longrightarrow>
       si_s1GBaseNum si b = (sas_GetS1SeqSize kn b * sk_groupSize kn + sk_mBaseSize kn - 1) div sk_mBaseSize kn \<and>
       si_s1GTailSize si b = sas_GetS1SeqSize kn b * sk_groupSize kn mod sk_mBaseSize kn"
  shows "split_ok kn si"
  unfolding split_ok_def
proof (intro allI impI)
  fix b assume b: "0 \<le> b \<and> b < sk_batchSize kn"
  let ?x = "sas_GetS1SeqSize kn b * sk_groupSize kn" and ?m = "sk_mBaseSize kn"
  have m: "0 < ?m" "0 < sk_groupSize kn" "?m < 2147483648" using ok(1) by (auto simp: sas_ok_def)
  have sq: "seq_ok kn b" using ok(2) b by (simp add: seqs_ok_def)
  have x: "0 \<le> ?x" "?x + ?m < 2147483648" using sq m by (simp_all add: seq_ok_def)
  have "0 \<le> (?x + ?m - 1) div ?m" "(?x + ?m - 1) div ?m < 2147483648" using row_blocks_bounds [OF x(1) m(1)] x(2) by linarith+
  moreover have "(?x + ?m - 1) div ?m = 0" if "sas_GetS1SeqSize kn b = 0" using that m by simp
  moreover have "0 \<le> ?x mod ?m" "?x mod ?m < 2147483648" using pos_mod_bound [OF m(1), of ?x] pos_mod_sign [OF m(1), of ?x] m(3) by linarith+
  ultimately show "seq_ok kn b \<and> 0 \<le> si_s1GBaseNum si b \<and> si_s1GBaseNum si b < 2147483648 \<and>
      (sas_GetS1SeqSize kn b = 0 \<longrightarrow> si_s1GBaseNum si b = 0) \<and> 0 \<le> si_s1GTailSize si b \<and> si_s1GTailSize si b < 2147483648"
    using si [of b] b sq m by simp
qed

text \<open>
  What a schedule of \<open>m\<close> cores is: the starts rise from the first row of the first batch to the end of the last batch,
  and no core starts or ends inside a row.
\<close>

definition scheduled :: "sas_kernel \<Rightarrow> split_result \<Rightarrow> bool" where
  "scheduled kn res \<longleftrightarrow> vec_lengths (sk_aicCoreNum kn) res \<and> 0 < sr_usedCoreNum res \<and> sr_usedCoreNum res \<le> sk_aicCoreNum kn \<and>
     plan_start res (sr_usedCoreNum res) = (sk_batchSize kn, 0) \<and>
     (\<forall>j. 0 \<le> j \<and> j < sr_usedCoreNum res \<longrightarrow> cur_le (plan_start res j) (plan_start res (j + 1)) \<and> sr_s2End res ! nat j = 0)"

lemma used_simps [simp]:
  "plan_start (res\<lparr>sr_usedCoreNum := m\<rparr>) j = plan_start res j" "vec_lengths n (res\<lparr>sr_usedCoreNum := m\<rparr>) = vec_lengths n res"
  "cores_planned kn si ci (res\<lparr>sr_usedCoreNum := m\<rparr>) n = cores_planned kn si ci res n"
  by (simp_all add: plan_start_def vec_lengths_def cores_planned_def core_planned_def core_load_def)

lemma BalanceSchedule_ok:
  assumes ok: "sas_ok kn" "mask_ok kn" "seqs_ok kn" and len: "vec_lengths (sk_aicCoreNum kn) res" and fd: "sr_numOfFdHead res = 0"
    and tot: "\<And>si. sas_CalcSplitInfo kn sas_split_info_init = Some si \<Longrightarrow> ci_totalCost (sas_CalcCostInfo kn si sas_cost_info_init) \<le> INT64_MAX"
  shows "\<exists>res'. BalanceSchedule kn res = Some res' \<and> scheduled kn res' \<and> same_fd res' res \<and>
    (\<forall>si. sas_CalcSplitInfo kn sas_split_info_init = Some si \<and> \<not> si_isKvSeqAllZero si \<longrightarrow>
       cores_planned kn si (sas_CalcCostInfo kn si sas_cost_info_init) res' (sr_usedCoreNum res'))"
proof -
  have A: "0 < sk_aicCoreNum kn" "sk_kvHeadNum kn = 1" "0 \<le> sk_batchSize kn" "sk_batchSize kn < 2147483648" using ok(1) by (auto simp: sas_ok_def)
  obtain si where si: "sas_CalcSplitInfo kn sas_split_info_init = Some si"
    "\<And>b. 0 \<le> b \<Longrightarrow> b < sk_batchSize kn \<Longrightarrow>
       si_s1GBaseNum si b = (sas_GetS1SeqSize kn b * sk_groupSize kn + sk_mBaseSize kn - 1) div sk_mBaseSize kn \<and>
       si_s1GTailSize si b = sas_GetS1SeqSize kn b * sk_groupSize kn mod sk_mBaseSize kn"
    "si_isKvSeqAllZero si \<longleftrightarrow> (\<forall>b. 0 \<le> b \<and> b < sk_batchSize kn \<longrightarrow> sas_GetS1SeqSize kn b = 0 \<or> sas_GetS2SeqSize kn b = 0)"
    using sas_CalcSplitInfo_ok [OF ok(1)] ok(3) unfolding seqs_ok_def by blast
  have sp: "split_ok kn si" by (rule split_info_split_ok [OF ok(1,3) si(2)])
  show ?thesis
  proof (cases "si_isKvSeqAllZero si")
    case True
    let ?r = "res\<lparr>sr_usedCoreNum := 1, sr_bN2End := (sr_bN2End res)[0 := sk_batchSize kn], sr_gS1End := (sr_gS1End res)[0 := 0],
      sr_s2End := (sr_s2End res)[0 := 0]\<rparr>"
    have "BalanceSchedule kn res = Some ?r"
      using si(1) True len A by (simp add: BalanceSchedule_def vset_def vec_lengths_def u32_id)
    moreover have "scheduled kn ?r"
    proof -
      have st: "plan_start ?r 0 = (0, 0)" "plan_start ?r 1 = (sk_batchSize kn, 0)" "sr_s2End ?r ! 0 = 0"
        using len A(1) by (simp_all add: plan_start_def vec_lengths_def)
      have "cur_le (plan_start ?r j) (plan_start ?r (j + 1)) \<and> sr_s2End ?r ! nat j = 0" if "0 \<le> j" "j < 1" for j
      proof -
        have "j = 0" using that by simp
        then show ?thesis using st A(3) by (auto simp: cur_le_def)
      qed
      then show ?thesis using st(2) len A unfolding scheduled_def vec_lengths_def by simp
    qed
    ultimately show ?thesis using True si(1) by (simp add: same_fd_def)
  next
    case False
    then obtain b where b: "0 \<le> b" "b < sk_batchSize kn" "sas_GetS1SeqSize kn b \<noteq> 0" "sas_GetS2SeqSize kn b \<noteq> 0" using si(3) by blast
    define ci where "ci = sas_CalcCostInfo kn si sas_cost_info_init"
    have t: "cost_table kn si (sk_batchSize kn) ci" unfolding ci_def by (rule sas_CalcCostInfo_ok [OF ok(1) sp False])
    have "0 < sas_GetS1SeqSize kn b" "0 < sas_GetS2SeqSize kn b" using b seq_nonneg [of kn b] by linarith+
    then have c: "0 < ci_totalCost ci" using total_cost_pos [OF ok(1,2) sp t b(1,2)] si(2) [OF b(1,2)] by blast
    let ?res = "res\<lparr>sr_maxCost := INT64_MAX, sr_usedCoreNum := 1\<rparr>"
    have "vec_lengths (sk_aicCoreNum kn) ?res" using len by (simp add: vec_lengths_def)
    then obtain res' m where g: "CalcSplitPlan kn INT64_MAX si ci ?res = Some (res'\<lparr>sr_usedCoreNum := m\<rparr>)" "0 < m" "m \<le> sk_aicCoreNum kn"
      "cores_planned kn si ci res' m" "plan_start res' m = (sk_batchSize kn, 0)" "same_fd res' ?res"
      using CalcSplitPlan_ok [OF ok(1) sp t _ c, of INT64_MAX ?res] tot [OF si(1)] b(1,2) unfolding ci_def by auto
    have fd': "sr_numOfFdHead res' = 0" using g(6) fd by (simp add: same_fd_def)
    have "BalanceSchedule kn res = Some (res'\<lparr>sr_usedCoreNum := m\<rparr>)"
      using si(1) False g(1,2) fd' by (simp add: BalanceSchedule_def ci_def [symmetric] Let_def)
    moreover have "scheduled kn (res'\<lparr>sr_usedCoreNum := m\<rparr>)"
      using g(2-5) unfolding scheduled_def cores_planned_def core_planned_def by simp
    ultimately show ?thesis using g(4,6) si(1) by (simp add: same_fd_def ci_def)
  qed
qed

end
