(* ===== verification/SasMeta.thy ===== *)
theory SasMeta
  imports SasSchedule "HOL-Library.Disjoint_Sets"
begin

text \<open>
  From the schedule to the metadata tensor: what \<open>GenMetaData\<close> writes, the rows a core's entry stands for, their
  cost, and what the parameter checks establish.
\<close>

section \<open>Metadata\<close>

definition meta_shape :: "sas_metadata \<Rightarrow> bool" where
  "meta_shape md \<longleftrightarrow> length (faMetadata md) = 36 \<and> length (fdMetadata md) = 72 \<and>
     (\<forall>r \<in> set (faMetadata md). length r = 8) \<and> (\<forall>r \<in> set (fdMetadata md). length r = 8)"

definition fa_row :: "split_result \<Rightarrow> int \<Rightarrow> int list" where
  "fa_row res j = [1, fst (plan_start res j), snd (plan_start res j), 0, fst (plan_start res (j + 1)), snd (plan_start res (j + 1)), 0,
     sr_firstFdDataWorkspaceIdx res ! nat j]"

lemma meta_set_Some:
  assumes "0 \<le> i" "i < int (length m)" "length (m ! nat i) = 8" "0 \<le> j" "j < 8"
  shows "meta_set i j v m = Some (m[nat i := (m ! nat i)[nat j := v]])"
  using assms by (simp add: meta_set_def vget_def vset_def)

lemma gen_fa_row_used:
  assumes i: "0 \<le> i" "i < int (length m)" "length (m ! nat i) = 8" "i < sr_usedCoreNum res"
    and len: "vec_lengths n res" "length (sr_firstFdDataWorkspaceIdx res) = nat n" "i < n"
    and s2: "sr_s2End res ! nat i = 0" "i \<noteq> 0 \<Longrightarrow> sr_s2End res ! nat (i - 1) = 0"
  shows "gen_fa_row res i m = Some (m[nat i := fa_row res i])"
proof -
  obtain r0 r1 r2 r3 r4 r5 r6 r7 where r: "m ! nat i = [r0, r1, r2, r3, r4, r5, r6, r7]"
    using i(3) by (auto simp: numeral_eq_Suc length_Suc_conv)
  have u: "m[nat i := x] ! nat i = x" for x using i by simp
  have set: "meta_set i j v (m[nat i := x]) = Some (m[nat i := x[nat j := v]])" if "length x = 8" "0 \<le> j" "j < 8" for j v x
    using i that by (simp add: meta_set_Some u)
  have set0: "meta_set i j v m = Some (m[nat i := (m ! nat i)[nat j := v]])" if "0 \<le> j" "j < 8" for j v
    using i that by (simp add: meta_set_Some)
  have st: "(if i = 0 then Some 0 else vget (sr_bN2End res) (i - 1)) = Some (fst (plan_start res i))"
    "(if i = 0 then Some 0 else vget (sr_gS1End res) (i - 1)) = Some (snd (plan_start res i))"
    "(if i = 0 then Some 0 else vget (sr_s2End res) (i - 1)) = Some 0"
    using i len s2 by (auto simp: vget_def vec_lengths_def plan_start_def)
  have en: "vget (sr_bN2End res) i = Some (fst (plan_start res (i + 1)))" "vget (sr_gS1End res) i = Some (snd (plan_start res (i + 1)))"
    "vget (sr_s2End res) i = Some 0" "vget (sr_firstFdDataWorkspaceIdx res) i = Some (sr_firstFdDataWorkspaceIdx res ! nat i)"
    using i len s2 by (auto simp: vget_def vec_lengths_def plan_start_def)
  show ?thesis using i(4) unfolding gen_fa_row_def fa_row_def st en by (simp add: set set0 r)
qed

lemma gen_fa_row_unused:
  assumes "0 \<le> i" "i < int (length m)" "length (m ! nat i) = 8" "sr_usedCoreNum res \<le> i"
  shows "gen_fa_row res i m = Some (m[nat i := (m ! nat i)[0 := 0]])"
  using assms by (simp add: gen_fa_row_def meta_set_Some)

definition fa_done :: "split_result \<Rightarrow> int \<Rightarrow> int list list \<Rightarrow> bool" where
  "fa_done res k m \<longleftrightarrow> length m = 36 \<and> (\<forall>r \<in> set m. length r = 8) \<and>
     (\<forall>j. 0 \<le> j \<and> j < k \<longrightarrow> (if j < sr_usedCoreNum res then m ! nat j = fa_row res j else m ! nat j ! 0 = 0))"

lemma fa_done_step:
  assumes "fa_done res k m" "0 \<le> k" "k < 36" "length r = 8"
    "if k < sr_usedCoreNum res then r = fa_row res k else r ! 0 = 0"
  shows "fa_done res (k + 1) (m[nat k := r])"
proof -
  have "nat k < length m" using assms by (auto simp: fa_done_def)
  then have "m[nat k := r] ! nat j = (if j = k then r else m ! nat j)" if "0 \<le> j" "j < k + 1" for j
    using assms(2) that by (auto simp: nth_list_update eq_nat_nat_iff)
  moreover have "\<forall>x \<in> set (m[nat k := r]). length x = 8"
    using assms(1,4) set_update_subset_insert [of m "nat k" r] by (auto simp: fa_done_def)
  ultimately show ?thesis using assms(1,5) unfolding fa_done_def by simp
qed

lemma GenMetaData_ok:
  assumes s: "scheduled kn res" and A: "sk_aicCoreNum kn \<le> 36" "0 \<le> sk_aivCoreNum kn" "sk_aivCoreNum kn \<le> 72"
    and fd: "fd_usedVecNum (sr_fdRes res) = 0" "length (sr_firstFdDataWorkspaceIdx res) = nat (sk_aicCoreNum kn)"
    and md: "meta_shape md"
  shows "\<exists>fa fdm. GenMetaData kn res md = Some \<lparr>faMetadata = fa, fdMetadata = fdm\<rparr> \<and> fa_done res (sk_aicCoreNum kn) fa"
proof -
  let ?A = "sk_aicCoreNum kn"
  have u: "0 < sr_usedCoreNum res" "sr_usedCoreNum res \<le> ?A" "vec_lengths ?A res"
    "\<And>j. 0 \<le> j \<Longrightarrow> j < sr_usedCoreNum res \<Longrightarrow> sr_s2End res ! nat j = 0" using s by (auto simp: scheduled_def)
  have "\<exists>t. for_opt 0 ?A (gen_fa_row res) (faMetadata md) = Some t \<and> fa_done res ?A t"
  proof (rule for_opt_inv [where P = "fa_done res"])
    show "fa_done res 0 (faMetadata md)" using md by (auto simp: fa_done_def meta_shape_def)
    fix j t assume j: "0 \<le> j" "j < ?A" and p: "fa_done res j t"
    have r: "j < int (length t)" "length (t ! nat j) = 8" using p j A(1) by (auto simp: fa_done_def)
    show "\<exists>t'. gen_fa_row res j t = Some t' \<and> fa_done res (j + 1) t'"
    proof (cases "j < sr_usedCoreNum res")
      case True
      have "gen_fa_row res j t = Some (t[nat j := fa_row res j])"
        by (rule gen_fa_row_used [OF j(1) r True u(3) fd(2) j(2)]) (use u(4) j True in auto)
      moreover have "fa_done res (j + 1) (t[nat j := fa_row res j])"
        by (rule fa_done_step [OF p j(1)]) (use True j A in \<open>auto simp: fa_row_def\<close>)
      ultimately show ?thesis by blast
    next
      case False
      have "gen_fa_row res j t = Some (t[nat j := (t ! nat j)[0 := 0]])" by (rule gen_fa_row_unused [OF j(1) r]) (use False in simp)
      moreover have "fa_done res (j + 1) (t[nat j := (t ! nat j)[0 := 0]])"
        by (rule fa_done_step [OF p j(1)]) (use False j A r in auto)
      ultimately show ?thesis by blast
    qed
  qed (use u in simp)
  then obtain fa where fa: "for_opt 0 ?A (gen_fa_row res) (faMetadata md) = Some fa" "fa_done res ?A fa" by blast
  let ?P = "\<lambda>k m. length m = 72 \<and> (\<forall>r \<in> set m. length (r::int list) = 8)"
  have "\<exists>t. for_opt 0 (sk_aivCoreNum kn) (gen_fd_row (sr_fdRes res)) (fdMetadata md) = Some t \<and> ?P (sk_aivCoreNum kn) t"
  proof (rule for_opt_inv [where P = ?P])
    show "?P 0 (fdMetadata md)" using md by (simp add: meta_shape_def)
    fix j t assume j: "0 \<le> j" "j < sk_aivCoreNum kn" and p: "?P j t"
    have r: "j < int (length t)" "length (t ! nat j) = 8" using p j A(3) by auto
    have "gen_fd_row (sr_fdRes res) j t = Some (t[nat j := (t ! nat j)[0 := 0]])"
      using j fd(1) r by (simp add: gen_fd_row_def meta_set_Some)
    moreover have "?P (j + 1) (t[nat j := (t ! nat j)[0 := 0]])"
      using p r set_update_subset_insert [of t "nat j" "(t ! nat j)[0 := 0]"] by auto
    ultimately show "\<exists>t'. gen_fd_row (sr_fdRes res) j t = Some t' \<and> ?P (j + 1) t'" by blast
  qed (use A in simp)
  then show ?thesis using fa by (auto simp: GenMetaData_def)
qed

section \<open>The rows of a core\<close>

definition row_count :: "sas_kernel \<Rightarrow> int \<Rightarrow> int" where
  "row_count kn b = (sas_GetS1SeqSize kn b * sk_groupSize kn + sk_mBaseSize kn - 1) div sk_mBaseSize kn"

definition all_rows :: "sas_kernel \<Rightarrow> (int \<times> int) set" where
  "all_rows kn = {(b, i). 0 \<le> b \<and> b < sk_batchSize kn \<and> 0 \<le> i \<and> i < row_count kn b}"

definition rows_between :: "sas_kernel \<Rightarrow> int \<times> int \<Rightarrow> int \<times> int \<Rightarrow> (int \<times> int) set" where
  "rows_between kn c d = {r \<in> all_rows kn. cur_le c r \<and> \<not> cur_le d r}"

lemma cur_le_trans: "cur_le a b \<Longrightarrow> cur_le b c \<Longrightarrow> cur_le a c"
  by (auto simp: cur_le_def)

lemma starts_mono:
  assumes s: "\<And>j. 0 \<le> j \<Longrightarrow> j < m \<Longrightarrow> cur_le (st j) (st (j + 1))" and jk: "0 \<le> j" "j \<le> k" "k \<le> (m::int)"
  shows "cur_le (st j) (st k)"
proof -
  have "cur_le (st j) (st (j + int d))" if "j + int d \<le> m" for d
    using that
  proof (induction d)
    case 0
    show ?case by (simp add: cur_le_def)
  next
    case (Suc d)
    then have "cur_le (st j) (st (j + int d))" by simp
    moreover have "cur_le (st (j + int d)) (st (j + int d + 1))" using Suc.prems jk(1) by (intro s) auto
    moreover have "j + int d + 1 = j + int (Suc d)" by simp
    ultimately show ?case using cur_le_trans by metis
  qed
  from this [of "nat (k - j)"] show ?thesis using jk by simp
qed

lemma rows_partition:
  assumes s: "\<And>j. 0 \<le> j \<Longrightarrow> j < m \<Longrightarrow> cur_le (st j) (st (j + 1))" and m: "0 \<le> (m::int)"
    and ends: "st 0 = (0, 0)" "st m = (sk_batchSize kn, 0)"
  shows "(\<Union>j \<in> {0..<m}. rows_between kn (st j) (st (j + 1))) = all_rows kn"
    "disjoint_family_on (\<lambda>j. rows_between kn (st j) (st (j + 1))) {0..<m}"
proof -
  have cover: "\<exists>j \<in> {0..<int k}. cur_le (st j) r \<and> \<not> cur_le (st (j + 1)) r"
    if "r \<in> all_rows kn" "\<not> cur_le (st (int k)) r" "int k \<le> m" for k r
    using that
  proof (induction k)
    case 0
    then show ?case using ends by (auto simp: all_rows_def cur_le_def)
  next
    case (Suc k)
    show ?case
    proof (cases "cur_le (st (int k)) r")
      case True
      then show ?thesis using Suc.prems(2) by (intro bexI [of _ "int k"]) (auto simp: add.commute)
    next
      case False
      then obtain j where "j \<in> {0..<int k}" "cur_le (st j) r \<and> \<not> cur_le (st (j + 1)) r" using Suc by auto
      then show ?thesis by (intro bexI [of _ j]) auto
    qed
  qed
  have "r \<in> (\<Union>j \<in> {0..<m}. rows_between kn (st j) (st (j + 1)))" if r: "r \<in> all_rows kn" for r
    using cover [OF r, of "nat m"] m ends r by (auto simp: rows_between_def all_rows_def cur_le_def)
  then show "(\<Union>j \<in> {0..<m}. rows_between kn (st j) (st (j + 1))) = all_rows kn" by (auto simp: rows_between_def)
  have "rows_between kn (st j) (st (j + 1)) \<inter> rows_between kn (st k) (st (k + 1)) = {}" if "0 \<le> j" "j < k" "k < m" for j k
    using starts_mono [where st = st and m = m, OF s, of "j + 1" k] that by (auto simp: rows_between_def dest: cur_le_trans)
  then show "disjoint_family_on (\<lambda>j. rows_between kn (st j) (st (j + 1))) {0..<m}"
    unfolding disjoint_family_on_def by (metis atLeastLessThan_iff inf_commute linorder_less_linear)
qed

section \<open>The cost of the rows of a core\<close>

definition rows_from :: "sas_kernel \<Rightarrow> int \<times> int \<Rightarrow> (int \<times> int) set" where
  "rows_from kn c = {r \<in> all_rows kn. cur_le c r}"

lemma all_rows_finite: "finite (all_rows kn)"
proof -
  have "all_rows kn = Sigma {0..<sk_batchSize kn} (\<lambda>b. {0..<row_count kn b})" by (auto simp: all_rows_def)
  then show ?thesis by simp
qed

lemma rest_at_rows:
  assumes v: "valid_cursor kn si c" and si: "\<And>b. 0 \<le> b \<Longrightarrow> b < sk_batchSize kn \<Longrightarrow> si_s1GBaseNum si b = row_count kn b"
  shows "rest_at kn si c = (\<Sum>(b, i) \<in> rows_from kn c. row_cost kn si b i)"
proof (cases "fst c < sk_batchSize kn")
  case False
  then have "c = (sk_batchSize kn, 0)" using v by (auto simp: valid_cursor_def)
  moreover have "rows_from kn (sk_batchSize kn, 0) = {}" by (auto simp: rows_from_def all_rows_def cur_le_def)
  ultimately show ?thesis by (simp add: rest_at_def)
next
  case True
  obtain b i where c: "c = (b, i)" by fastforce
  have bi: "0 \<le> b" "b < sk_batchSize kn" "0 \<le> i" using v True c by (auto simp: valid_cursor_def)
  let ?S = "Sigma {b} (\<lambda>b. {i..<row_count kn b})" and ?T = "Sigma {b + 1..<sk_batchSize kn} (\<lambda>b. {0..<row_count kn b})"
  have e: "rows_from kn c = ?S \<union> ?T" "?S \<inter> ?T = {}" using bi by (auto simp: rows_from_def all_rows_def cur_le_def c)
  have "(\<Sum>(b, i) \<in> ?S. row_cost kn si b i) = rest_batch kn si b i"
    using si bi by (subst sum.Sigma [symmetric]) (simp_all add: rest_batch_def)
  moreover have "(\<Sum>(b, i) \<in> ?T. row_cost kn si b i) = (\<Sum>c \<in> {b + 1..<sk_batchSize kn}. batch_cost kn si c)"
    using si bi by (subst sum.Sigma [symmetric]) (auto simp: batch_cost_def intro!: sum.cong)
  ultimately show ?thesis using e bi by (simp add: sum.union_disjoint rest_at_def rest_cost_def c)
qed

lemma rows_between_cost:
  assumes v: "valid_cursor kn si c" "valid_cursor kn si d" "cur_le c d"
    and si: "\<And>b. 0 \<le> b \<Longrightarrow> b < sk_batchSize kn \<Longrightarrow> si_s1GBaseNum si b = row_count kn b"
  shows "rest_at kn si c - rest_at kn si d = (\<Sum>(b, i) \<in> rows_between kn c d. row_cost kn si b i)"
proof -
  have "rows_from kn c = rows_between kn c d \<union> rows_from kn d" "rows_between kn c d \<inter> rows_from kn d = {}"
    using cur_le_trans [OF v(3)] by (auto simp: rows_from_def rows_between_def)
  moreover have "finite (rows_between kn c d)" "finite (rows_from kn d)" using all_rows_finite by (simp_all add: rows_between_def rows_from_def)
  ultimately have "(\<Sum>(b, i) \<in> rows_from kn c. row_cost kn si b i) =
      (\<Sum>(b, i) \<in> rows_between kn c d. row_cost kn si b i) + (\<Sum>(b, i) \<in> rows_from kn d. row_cost kn si b i)"
    by (simp add: sum.union_disjoint)
  then show ?thesis using rest_at_rows [OF v(1) si] rest_at_rows [OF v(2) si] by simp
qed

section \<open>Parameters\<close>

lemma tdiv_one: "tdiv a 1 = a"
  by (simp add: tdiv_def mult_sgn_abs)

lemma sas_ParamsInit_fields:
  assumes kv: "sk_kvHeadNum k = 1" and e: "sas_ParamsInit k = Some kn"
  shows "sk_kvHeadNum kn = 1" "sk_supportFd kn = sk_supportFd k" "sk_groupSize kn = u32 (sk_queryHeadNum kn)"
    "sk_isS1G kn \<longleftrightarrow> sk_layoutQuery k = ''BSND'' \<or> sk_layoutQuery k = ''BSH'' \<or> sk_layoutQuery k = ''TND''"
    "sk_hasCmpKv kn = sk_hasCmpKv k" "sk_cmpRatio kn = sk_cmpRatio k" "sk_aicCoreNum kn = sk_aicCoreNum k" "sk_aivCoreNum kn = sk_aivCoreNum k"
    "sk_oriMaskMode kn = sk_oriMaskMode k" "sk_socVersion kn = sk_socVersion k" "sk_queryHeadNum kn = sk_queryHeadNum k"
    "sk_isCFA kn \<longleftrightarrow> sk_isCFA k \<or> sk_hasCmpKv k \<and> \<not> sk_cmpTopK k > 0" "sk_isSCFA kn \<longleftrightarrow> sk_isSCFA k \<or> sk_hasCmpKv k \<and> sk_cmpTopK k > 0"
    "sk_mBaseSize kn = (case sas_ProcessSocVersion k of ASCEND910 \<Rightarrow> sk_groupSize kn | ASCEND950 \<Rightarrow> 64)"
    "sk_s2BaseSize kn = (case sas_ProcessSocVersion k of ASCEND910 \<Rightarrow> 512 | ASCEND950 \<Rightarrow> 128)"
    "sk_attentionMode kn = (if to_sparse_mode (sk_oriMaskMode k) = DEFAULT_MASK then 0 else 1)"
    "sk_preToken kn = (if to_sparse_mode (sk_oriMaskMode k) \<in> {DEFAULT_MASK, RIGHT_DOWN_CAUSAL} \<or> \<not> sk_winLeft k > - 1 then INT64_MAX else sk_winLeft k)"
    "sk_nextToken kn = (if to_sparse_mode (sk_oriMaskMode k) = DEFAULT_MASK then INT64_MAX else 0)"
    "sk_batchSize kn = sas_GetQueryBatchSize k"
proof -
  define mode where "mode = to_sparse_mode (sk_oriMaskMode k)"
  define k1 where "k1 = k\<lparr>sk_batchSize := sas_GetQueryBatchSize k\<rparr>"
  define k2 where "k2 = (if mode = DEFAULT_MASK then k1\<lparr>sk_preToken := INT64_MAX, sk_nextToken := INT64_MAX, sk_attentionMode := 0\<rparr>
    else if mode = RIGHT_DOWN_CAUSAL then k1\<lparr>sk_preToken := INT64_MAX, sk_nextToken := 0, sk_attentionMode := 1\<rparr>
    else k1\<lparr>sk_preToken := (if sk_winLeft k1 > - 1 then sk_winLeft k1 else INT64_MAX), sk_nextToken := 0, sk_attentionMode := 1\<rparr>)"
  define k3 where "k3 = k2\<lparr>sk_isS1G := (sk_layoutQuery k2 = ''BSND'' \<or> sk_layoutQuery k2 = ''BSH'' \<or> sk_layoutQuery k2 = ''TND'')\<rparr>"
  define k4 where "k4 = k3\<lparr>sk_groupSize := u32 (sk_queryHeadNum k3)\<rparr>"
  define k5 where "k5 = (if sk_hasCmpKv k4 then (if sk_cmpTopK k4 > 0 then k4\<lparr>sk_isSCFA := True\<rparr> else k4\<lparr>sk_isCFA := True\<rparr>) else k4)"
  have f1: "sk_oriMaskMode k1 = sk_oriMaskMode k" by (simp add: k1_def)
  have f2: "sk_kvHeadNum k2 = 1" "sk_supportFd k2 = sk_supportFd k" "sk_hasCmpKv k2 = sk_hasCmpKv k" "sk_cmpRatio k2 = sk_cmpRatio k"
    "sk_aicCoreNum k2 = sk_aicCoreNum k" "sk_aivCoreNum k2 = sk_aivCoreNum k" "sk_oriMaskMode k2 = sk_oriMaskMode k"
    "sk_socVersion k2 = sk_socVersion k" "sk_queryHeadNum k2 = sk_queryHeadNum k" "sk_isCFA k2 = sk_isCFA k" "sk_isSCFA k2 = sk_isSCFA k"
    "sk_layoutQuery k2 = sk_layoutQuery k" "sk_cmpTopK k2 = sk_cmpTopK k" "sk_batchSize k2 = sas_GetQueryBatchSize k"
    "sk_attentionMode k2 = (if mode = DEFAULT_MASK then 0 else 1)"
    "sk_preToken k2 = (if mode \<in> {DEFAULT_MASK, RIGHT_DOWN_CAUSAL} \<or> \<not> sk_winLeft k > - 1 then INT64_MAX else sk_winLeft k)"
    "sk_nextToken k2 = (if mode = DEFAULT_MASK then INT64_MAX else 0)"
    by (simp_all add: k2_def k1_def kv)
  have c3: "cdiv (sk_queryHeadNum k3) (sk_kvHeadNum k3) = Some (sk_queryHeadNum k3)" using f2(1) by (simp add: k3_def cdiv_def tdiv_one)
  have kn: "kn = (case sas_ProcessSocVersion k5 of ASCEND910 \<Rightarrow> k5\<lparr>sk_mBaseSize := sk_groupSize k5, sk_s2BaseSize := 512\<rparr>
      | ASCEND950 \<Rightarrow> k5\<lparr>sk_mBaseSize := 64, sk_s2BaseSize := 128\<rparr>)"
    using e unfolding sas_ParamsInit_def Let_def k1_def [symmetric] f1 mode_def [symmetric] k2_def [symmetric] k3_def [symmetric]
      c3 Option.bind.bind_lunit k4_def [symmetric] k5_def [symmetric]
    by simp
  show "sk_kvHeadNum kn = 1" "sk_supportFd kn = sk_supportFd k" "sk_groupSize kn = u32 (sk_queryHeadNum kn)"
    "sk_isS1G kn \<longleftrightarrow> sk_layoutQuery k = ''BSND'' \<or> sk_layoutQuery k = ''BSH'' \<or> sk_layoutQuery k = ''TND''"
    "sk_hasCmpKv kn = sk_hasCmpKv k" "sk_cmpRatio kn = sk_cmpRatio k" "sk_aicCoreNum kn = sk_aicCoreNum k" "sk_aivCoreNum kn = sk_aivCoreNum k"
    "sk_oriMaskMode kn = sk_oriMaskMode k" "sk_socVersion kn = sk_socVersion k" "sk_queryHeadNum kn = sk_queryHeadNum k"
    "sk_isCFA kn \<longleftrightarrow> sk_isCFA k \<or> sk_hasCmpKv k \<and> \<not> sk_cmpTopK k > 0" "sk_isSCFA kn \<longleftrightarrow> sk_isSCFA k \<or> sk_hasCmpKv k \<and> sk_cmpTopK k > 0"
    "sk_mBaseSize kn = (case sas_ProcessSocVersion k of ASCEND910 \<Rightarrow> sk_groupSize kn | ASCEND950 \<Rightarrow> 64)"
    "sk_s2BaseSize kn = (case sas_ProcessSocVersion k of ASCEND910 \<Rightarrow> 512 | ASCEND950 \<Rightarrow> 128)"
    "sk_attentionMode kn = (if to_sparse_mode (sk_oriMaskMode k) = DEFAULT_MASK then 0 else 1)"
    "sk_preToken kn = (if to_sparse_mode (sk_oriMaskMode k) \<in> {DEFAULT_MASK, RIGHT_DOWN_CAUSAL} \<or> \<not> sk_winLeft k > - 1 then INT64_MAX else sk_winLeft k)"
    "sk_nextToken kn = (if to_sparse_mode (sk_oriMaskMode k) = DEFAULT_MASK then INT64_MAX else 0)"
    "sk_batchSize kn = sas_GetQueryBatchSize k"
    unfolding mode_def [symmetric] using f2 by (simp_all add: kn k5_def k4_def k3_def sas_ProcessSocVersion_def split: valid_soc_version.splits)
qed

lemma sas_Prepare_members:
  assumes "sas_Prepare c (sas_kernel_init tc) = Some (Some kn)"
  shows "sk_kvHeadNum kn = 1" "\<not> sk_supportFd kn" "sk_isS1G kn" "sk_groupSize kn = u32 (sk_queryHeadNum kn)"
    "sk_hasCmpKv kn \<Longrightarrow> sk_cmpRatio kn = 4 \<or> sk_cmpRatio kn = 128" "\<not> sk_hasCmpKv kn \<Longrightarrow> \<not> sk_isCFA kn \<and> \<not> sk_isSCFA kn"
    "sk_aicCoreNum kn \<noteq> 0" "sk_aivCoreNum kn \<noteq> 0" "mask_ok kn"
    "sk_mBaseSize kn = sk_groupSize kn \<and> sk_s2BaseSize kn = 512 \<or> sk_mBaseSize kn = 64 \<and> sk_s2BaseSize kn = 128"
    "sas_ProcessSocVersion kn = ASCEND910 \<Longrightarrow> sk_mBaseSize kn = sk_groupSize kn"
proof -
  define k0 where "k0 = sas_read_context c (sas_kernel_init tc)"
  have k0: "sas_ParamsCheck k0" "sas_ParamsInit k0 = Some kn"
    using assms by (auto simp: sas_Prepare_def k0_def Let_def split: if_splits)
  have i0: "\<not> sk_supportFd k0" "\<not> sk_isCFA k0" "\<not> sk_isSCFA k0" by (simp_all add: k0_def sas_read_context_def sas_kernel_init_def)
  have c: "sk_kvHeadNum k0 = 1" "sk_oriMaskMode k0 = 0 \<or> sk_oriMaskMode k0 = 3 \<or> sk_oriMaskMode k0 = 4" "sk_winLeft k0 = 127"
    "sk_layoutQuery k0 = ''TND'' \<or> sk_layoutQuery k0 = ''BSND''" "sk_aicCoreNum k0 \<noteq> 0" "sk_aivCoreNum k0 \<noteq> 0"
    "sk_hasCmpKv k0 \<Longrightarrow> sk_cmpRatio k0 = 4 \<or> sk_cmpRatio k0 = 128"
    using k0(1) unfolding sas_ParamsCheck_def sas_CheckSingleParam_def sas_CheckFeature_def by (auto split: if_splits)
  note f = sas_ParamsInit_fields [OF c(1) k0(2)]
  show "sk_kvHeadNum kn = 1" "\<not> sk_supportFd kn" "sk_isS1G kn" "sk_groupSize kn = u32 (sk_queryHeadNum kn)"
    "sk_hasCmpKv kn \<Longrightarrow> sk_cmpRatio kn = 4 \<or> sk_cmpRatio kn = 128" "\<not> sk_hasCmpKv kn \<Longrightarrow> \<not> sk_isCFA kn \<and> \<not> sk_isSCFA kn"
    "sk_aicCoreNum kn \<noteq> 0" "sk_aivCoreNum kn \<noteq> 0"
    using f i0 c by auto
  show "sk_mBaseSize kn = sk_groupSize kn \<and> sk_s2BaseSize kn = 512 \<or> sk_mBaseSize kn = 64 \<and> sk_s2BaseSize kn = 128"
    using f(14,15) by (cases "sas_ProcessSocVersion k0") auto
  show "sk_mBaseSize kn = sk_groupSize kn" if "sas_ProcessSocVersion kn = ASCEND910"
  proof -
    have "sas_ProcessSocVersion k0 = ASCEND910" using that f(10) by (simp add: sas_ProcessSocVersion_def)
    then show ?thesis using f(14) by simp
  qed
  show "mask_ok kn" using f(9,16,17,18) c(2,3) by (auto simp: mask_ok_def to_sparse_mode_def)
qed

end
