(* ===== verification/SasFit.thy ===== *)
theory SasFit
  imports SasMeta
begin

text \<open>
  The cost accumulators are 64-bit. The schedule is correct when the total fits; a bound on the number of heads
  and rows under which it does.
\<close>

section \<open>Costs that fit\<close>

definition cost_fits :: "sas_kernel \<Rightarrow> bool" where
  "cost_fits kn \<longleftrightarrow> (case sas_CalcSplitInfo kn sas_split_info_init of None \<Rightarrow> False
     | Some si \<Rightarrow> ci_totalCost (sas_CalcCostInfo kn si sas_cost_info_init) \<le> INT64_MAX)"

lemma WinCalcCost_le:
  assumes "0 \<le> m" "m \<le> 1024" "0 \<le> k" "k < 65536"
  shows "WinCalcCost m k \<le> 10624" "0 \<le> WinCalcCost m k"
proof -
  have "(m + 15) div 16 \<le> 64" "0 \<le> (m + 15) div 16" "(k + 63) div 64 \<le> 1024" "0 \<le> (k + 63) div 64" using assms by auto
  then have "WinCalcCost m k = 6 * ((m + 15) div 16) + 10 * ((k + 63) div 64)" "6 * ((m + 15) div 16) + 10 * ((k + 63) div 64) \<le> 10624"
      "0 \<le> 6 * ((m + 15) div 16) + 10 * ((k + 63) div 64)"
    using assms by (simp add: WinCalcCost_def Let_def u32_id add.commute, linarith+)
  then show "WinCalcCost m k \<le> 10624" "0 \<le> WinCalcCost m k" by simp_all
qed

lemma CmpCalcCost_le:
  assumes "0 \<le> m" "m \<le> 1024" "0 \<le> k" "k < 65536"
  shows "CmpCalcCost m k \<le> 10624" "0 \<le> CmpCalcCost m k"
  using WinCalcCost_le [OF assms] by (simp_all add: CmpCalcCost_def WinCalcCost_def)

lemma part_vals_le:
  assumes "normal \<le> C" "tail \<le> C" "0 \<le> C" "0 \<le> s" "e < 1073741824" "part_vals normal tail s e ts = (b, c, l, n)"
  shows "c \<le> C * b"
proof (cases "s \<ge> e")
  case False
  define k :: int where "k = (if ts \<noteq> 0 then 1 else 0)"
  have k: "0 \<le> k" "k \<le> 1" by (auto simp: k_def)
  have b: "b = e - s" "c = normal * (b - k) + tail * k" using assms False k by (auto simp: part_vals_def Let_def u32_id k_def)
  have "normal * (b - k) \<le> C * (b - k)" "tail * k \<le> C * k" using assms b k False by (auto intro!: mult_right_mono)
  moreover have "C * (b - k) + C * k = C * b" by (simp add: algebra_simps)
  ultimately show ?thesis using b(2) by linarith
qed (use assms in \<open>simp add: part_vals_def\<close>)

lemma row_table_le:
  assumes ok: "sas_ok kn" "sk_mBaseSize kn \<le> 1024" and t: "0 \<le> si_s1GTailSize si (sc_bIdx sc)" "si_s1GTailSize si (sc_bIdx sc) \<le> 1024"
    and w: "0 \<le> sc_winS2TailSize sc" "sc_winS2TailSize sc < 65536" and c: "0 \<le> sc_cmpS2TailSize sc" "sc_cmpS2TailSize sc < 65536"
  shows "row \<in> {WIN_NORMAL_BLOCK, WIN_TAIL_BLOCK} \<Longrightarrow> col \<in> {WIN_NORMAL_BLOCK, WIN_TAIL_BLOCK} \<Longrightarrow> row_table kn si sc row col \<le> 10624"
    "sk_hasCmpKv kn \<Longrightarrow> row \<in> {CMP_NORMAL_BLOCK, CMP_TAIL_BLOCK} \<Longrightarrow> col \<in> {CMP_NORMAL_BLOCK, CMP_TAIL_BLOCK} \<Longrightarrow> row_table kn si sc row col \<le> 10624"
proof -
  have b: "0 \<le> sk_mBaseSize kn" "0 \<le> sk_s2BaseSize kn" "sk_s2BaseSize kn < 65536" using ok(1) by (auto simp: sas_ok_def)
  have u: "u32 (sc_winS2TailSize sc) = sc_winS2TailSize sc" "u32 (sc_cmpS2TailSize sc) = sc_cmpS2TailSize sc" using w c by (simp_all add: u32_id)
  show "row \<in> {WIN_NORMAL_BLOCK, WIN_TAIL_BLOCK} \<Longrightarrow> col \<in> {WIN_NORMAL_BLOCK, WIN_TAIL_BLOCK} \<Longrightarrow> row_table kn si sc row col \<le> 10624"
    using ok(2) t w b unfolding row_table_def u by (auto simp: sas_CalcCostTable_def Let_def set_cost_def intro!: WinCalcCost_le(1))
  show "sk_hasCmpKv kn \<Longrightarrow> row \<in> {CMP_NORMAL_BLOCK, CMP_TAIL_BLOCK} \<Longrightarrow> col \<in> {CMP_NORMAL_BLOCK, CMP_TAIL_BLOCK} \<Longrightarrow> row_table kn si sc row col \<le> 10624"
    using ok(2) t c b unfolding row_table_def u by (auto simp: sas_CalcCostTable_def Let_def set_cost_def intro!: CmpCalcCost_le(1))
qed

lemma row_cost_le:
  assumes ok: "sas_ok kn" "split_ok kn si" "sk_mBaseSize kn \<le> 1024" and b: "0 \<le> b" "b < sk_batchSize kn"
    and t: "si_s1GTailSize si b \<le> 1024"
  shows "row_cost kn si b i \<le> 2199023255552"
proof (cases "si_s1GBaseNum si b = 0")
  case True
  then show ?thesis by (simp add: row_of_def sas_CalcS1GCache_def)
next
  case False
  let ?bc = "sas_CalcBatchCache kn b sas_batch_cache_init"
  have sq: "seq_ok kn b" and t0: "0 \<le> si_s1GTailSize si b" using ok(2) b by (auto simp: split_ok_def)
  have s2: "0 \<le> bc_s2Size ?bc" "bc_s2Size ?bc < 2147483648" using sq by (auto simp: sas_CalcBatchCache_def Let_def seq_ok_def)
  define r where "r = range_cache kn i ?bc sas_s1g_cache_init"
  note w = range_win [OF ok(1) s2, of i sas_s1g_cache_init, folded r_def]
  note c = range_cmp [OF ok(1) s2, of i sas_s1g_cache_init, folded r_def]
  let ?tc = "row_table kn si r"
  have tt: "0 \<le> si_s1GTailSize si (sc_bIdx r)" "si_s1GTailSize si (sc_bIdx r) \<le> 1024" using t t0 w(1) by auto
  note le = row_table_le [OF ok(1,3) tt w(6,7) c(3,4)]
  obtain wb wc wl wn where wp: "win_part ?tc si r = (wb, wc, wl, wn)" by (cases "win_part ?tc si r") auto
  obtain cb cc cl cn where cp: "cmp_part ?tc si r = (cb, cc, cl, cn)" by (cases "cmp_part ?tc si r") auto
  have wc: "wc \<le> 10624 * wb"
    by (rule part_vals_le [OF _ _ _ _ _ wp [unfolded win_part_def Let_def]]) (use le(1) w(3,5) in auto)
  have cc: "cc \<le> 10624 * cb"
  proof (cases "sk_hasCmpKv kn")
    case True
    show ?thesis
      by (rule part_vals_le [OF _ _ _ _ _ cp [unfolded cmp_part_def Let_def]]) (use le(2) [OF True] c(2) w(4,8) in auto)
  next
    case False
    then show ?thesis using cp c(5) by (simp add: cmp_part_def part_vals_def)
  qed
  have "wb \<le> 33554432" "cb \<le> 134217728"
    using wp cp w(3,4,5) c(1,2) w(8) by (auto simp: win_part_def cmp_part_def part_vals_def Let_def u32_id split: if_splits)
  moreover have "row_cost kn si b i = wc + cc"
    using cost_stage_vals(2) [OF wp cp] sas_CalcS1GCache_stages [of si ?bc kn i sas_s1g_cache_init] False by (simp add: row_of_def r_def)
  ultimately show ?thesis using wc cc by linarith
qed

text \<open>A bound on heads and rows under which the costs fit.\<close>

lemma cost_fits_small:
  assumes ok: "sas_ok kn" "seqs_ok kn" "sk_mBaseSize kn \<le> 1024" and rows: "(\<Sum>b \<in> {0..<sk_batchSize kn}. row_count kn b) \<le> 4000000"
  shows "cost_fits kn"
proof -
  obtain si where si: "sas_CalcSplitInfo kn sas_split_info_init = Some si"
    "\<And>b. 0 \<le> b \<Longrightarrow> b < sk_batchSize kn \<Longrightarrow>
       si_s1GBaseNum si b = (sas_GetS1SeqSize kn b * sk_groupSize kn + sk_mBaseSize kn - 1) div sk_mBaseSize kn \<and>
       si_s1GTailSize si b = sas_GetS1SeqSize kn b * sk_groupSize kn mod sk_mBaseSize kn"
    "si_isKvSeqAllZero si \<longleftrightarrow> (\<forall>b. 0 \<le> b \<and> b < sk_batchSize kn \<longrightarrow> sas_GetS1SeqSize kn b = 0 \<or> sas_GetS2SeqSize kn b = 0)"
    using sas_CalcSplitInfo_ok [OF ok(1)] ok(2) unfolding seqs_ok_def by blast
  have sp: "split_ok kn si" by (rule split_info_split_ok [OF ok(1,2) si(2)])
  have m: "0 < sk_mBaseSize kn" using ok(1) by (simp add: sas_ok_def)
  show ?thesis
  proof (cases "si_isKvSeqAllZero si")
    case True
    then show ?thesis using si(1) by (simp add: cost_fits_def sas_CalcCostInfo_def)
  next
    case False
    have "ci_totalCost (sas_CalcCostInfo kn si sas_cost_info_init) = (\<Sum>b \<in> {0..<sk_batchSize kn}. batch_cost kn si b)"
      using sas_CalcCostInfo_ok [OF ok(1) sp False] by (simp add: cost_table_def)
    also have "\<dots> \<le> (\<Sum>b \<in> {0..<sk_batchSize kn}. row_count kn b * 2199023255552)"
    proof (rule sum_mono)
      fix b assume b: "b \<in> {0..<sk_batchSize kn}"
      have e: "si_s1GBaseNum si b = row_count kn b" using si(2) [of b] b by (simp add: row_count_def)
      have "si_s1GTailSize si b \<le> 1024" using si(2) [of b] b pos_mod_bound [OF m, of "sas_GetS1SeqSize kn b * sk_groupSize kn"] ok(3) by simp
      then have "batch_cost kn si b \<le> of_nat (card {0..<si_s1GBaseNum si b}) * 2199023255552"
        unfolding batch_cost_def using row_cost_le [OF ok(1) sp ok(3)] b by (intro sum_bounded_above) auto
      moreover have "0 \<le> si_s1GBaseNum si b" using sp b by (simp add: split_ok_def)
      ultimately show "batch_cost kn si b \<le> row_count kn b * 2199023255552" using e by simp
    qed
    also have "\<dots> \<le> 4000000 * 2199023255552" unfolding sum_distrib_right [symmetric] using rows by (intro mult_right_mono) auto
    finally show ?thesis using si(1) by (simp add: cost_fits_def)
  qed
qed

end
