(* ===== verification/SasProperties.thy ===== *)
theory SasProperties
  imports SasFit
begin

text \<open>The properties of the scheduling operator for sparse attention with shared KV.\<close>

lemma accepted_sas_ok:
  assumes p: "sas_Prepare c (sas_kernel_init tc) = Some (Some kn)"
    and h: "0 < sk_queryHeadNum kn" "sk_queryHeadNum kn < 2147483648" "0 \<le> sk_batchSize kn" "sk_batchSize kn < 2147483648"
    and a: "0 \<le> sk_aicCoreNum kn" "sk_aicCoreNum kn < 65536"
  shows "sas_ok kn" "mask_ok kn"
proof -
  note m = sas_Prepare_members [OF p]
  have g: "sk_groupSize kn = sk_queryHeadNum kn" using m(4) h by (simp add: u32_id)
  show "sas_ok kn" unfolding sas_ok_def using m(1-3,5-7,10) h a g by auto
  show "mask_ok kn" by (rule m(9))
qed




lemma schedule_init:
  "vec_lengths a (split_result_init a v)" "sr_numOfFdHead (split_result_init a v) = 0" "fd_usedVecNum (sr_fdRes (split_result_init a v)) = 0"
  "length (sr_firstFdDataWorkspaceIdx (split_result_init a v)) = nat a"
  by (simp_all add: split_result_init_def fd_result_init_def vec_lengths_def)

definition sas_example :: sas_context where
  "sas_example = \<lparr>cx_actSeqLenQ = None, cx_actSeqLenOriKv = None, cx_actSeqLenCmpKv = None, cx_seqUsedQ = None,
     cx_seqUsedKv = Some \<lparr>tn_data = Some (\<lambda>i. if i = 0 then 700 else 300), tn_shape = Some [2]\<rparr>,
     cx_metaData = Some \<lparr>tn_data = Some (\<lambda>_. 0), tn_shape = Some [1024]\<rparr>,
     cx_num_heads_q = Some 64, cx_num_heads_kv = Some 1, cx_head_dim = Some 512, cx_soc_version = None,
     cx_aic_core_num = Some 2, cx_aiv_core_num = Some 4, cx_batch_size = Some 2, cx_max_seqlen_q = Some 2, cx_max_seqlen_kv = None,
     cx_ori_topk = None, cx_cmp_topk = Some 512, cx_cmp_ratio = Some 4, cx_ori_mask_mode = None, cx_cmp_mask_mode = None,
     cx_ori_win_left = None, cx_ori_win_right = None, cx_layout_q = None, cx_layout_kv = None, cx_has_ori_kv = None, cx_has_cmp_kv = None\<rparr>"

definition sas_example_kernel :: sas_kernel where
  "sas_example_kernel = the (the (sas_Prepare sas_example (sas_kernel_init (\<lambda>_ _. 0))))"

lemma sas_example_prepare: "sas_Prepare sas_example (sas_kernel_init (\<lambda>_ _. 0)) = Some (Some sas_example_kernel)"
proof -
  have "case sas_Prepare sas_example (sas_kernel_init (\<lambda>_ _. 0)) of Some (Some kn) \<Rightarrow> True | _ \<Rightarrow> False" by code_simp
  then show ?thesis by (auto simp: sas_example_kernel_def split: option.splits)
qed

lemma sas_example_fields: "sk_queryHeadNum sas_example_kernel = 64 \<and> sk_batchSize sas_example_kernel = 2 \<and> sk_aicCoreNum sas_example_kernel = 2 \<and>
   sk_aivCoreNum sas_example_kernel = 4 \<and> sk_groupSize sas_example_kernel = 64 \<and> sk_mBaseSize sas_example_kernel = 64"
  by code_simp

lemma sas_example_seqs: "seqs_ok sas_example_kernel"
proof -
  have "seq_ok sas_example_kernel 0" "seq_ok sas_example_kernel 1" by code_simp+
  moreover have "b = 0 \<or> b = 1" if "0 \<le> b" "b < sk_batchSize sas_example_kernel" for b using that sas_example_fields by auto
  ultimately show ?thesis unfolding seqs_ok_def by metis
qed

lemma sas_example_rows: "row_count sas_example_kernel 0 = 2 \<and> row_count sas_example_kernel 1 = 2"
  by code_simp

lemma sas_example_ok: "sas_ok sas_example_kernel" "mask_ok sas_example_kernel" "cost_fits sas_example_kernel"
proof -
  show ok: "sas_ok sas_example_kernel" "mask_ok sas_example_kernel"
    using accepted_sas_ok [OF sas_example_prepare] sas_example_fields by auto
  have "{0..<2} = {0, 1::int}" by auto
  then show "cost_fits sas_example_kernel"
    using cost_fits_small [OF ok(1) sas_example_seqs] sas_example_fields sas_example_rows by simp
qed

definition sas_metadata0 :: sas_metadata where
  "sas_metadata0 = \<lparr>faMetadata = replicate 36 (replicate 8 0), fdMetadata = replicate 72 (replicate 8 0)\<rparr>"

lemma sas_metadata0_shape: "meta_shape sas_metadata0"
  by (simp add: meta_shape_def sas_metadata0_def)



text \<open>
  C13. In the schedule of a batch with work, every used core gets rows of positive cost, and their cost stays below
  the larger of the fair share of what is left and the dearest row, plus half the dearest row.
\<close>

theorem sas_core_loads:
  assumes p: "sas_Prepare c (sas_kernel_init tc) = Some (Some kn)"
    and h: "0 < sk_queryHeadNum kn" "sk_queryHeadNum kn < 2147483648" "0 \<le> sk_batchSize kn" "sk_batchSize kn < 2147483648"
    and a: "0 \<le> sk_aicCoreNum kn" "sk_aicCoreNum kn < 65536"
    and s: "seqs_ok kn" "cost_fits kn"
    and si: "sas_CalcSplitInfo kn sas_split_info_init = Some si" "\<not> si_isKvSeqAllZero si"
    and res: "BalanceSchedule kn (split_result_init (sk_aicCoreNum kn) (sk_aivCoreNum kn)) = Some res"
    and j: "0 \<le> j" "j < sr_usedCoreNum res"
  defines "cost \<equiv> \<lambda>R. \<Sum>(b, i) \<in> R. row_cost kn si b i" and "M \<equiv> ci_maxS1GCost (sas_CalcCostInfo kn si sas_cost_info_init)"
  shows "0 < cost (rows_between kn (plan_start res j) (plan_start res (j + 1))) \<and>
    cost (rows_between kn (plan_start res j) (plan_start res (j + 1))) \<le>
      max (cost (rows_from kn (plan_start res j)) div (sk_aicCoreNum kn - j)) M + M div 2"
proof -
  have ok: "sas_ok kn" "mask_ok kn" using accepted_sas_ok [OF p h a] by auto
  have fits: "ci_totalCost (sas_CalcCostInfo kn si sas_cost_info_init) \<le> INT64_MAX" if "sas_CalcSplitInfo kn sas_split_info_init = Some si" for si
    using s(2) that by (simp add: cost_fits_def)
  have q: "cores_planned kn si (sas_CalcCostInfo kn si sas_cost_info_init) res (sr_usedCoreNum res)"
    using BalanceSchedule_ok [OF ok s(1) schedule_init(1,2) [of "sk_aicCoreNum kn" "sk_aivCoreNum kn"]] fits si res by auto
  obtain si' where si': "sas_CalcSplitInfo kn sas_split_info_init = Some si'"
    "\<And>b. 0 \<le> b \<Longrightarrow> b < sk_batchSize kn \<Longrightarrow> si_s1GBaseNum si' b = row_count kn b"
    using sas_CalcSplitInfo_ok [OF ok(1)] s(1) unfolding seqs_ok_def row_count_def by metis
  then have base: "\<And>b. 0 \<le> b \<Longrightarrow> b < sk_batchSize kn \<Longrightarrow> si_s1GBaseNum si b = row_count kn b" using si(1) by simp
  have cp: "core_planned kn si (sas_CalcCostInfo kn si sas_cost_info_init) res k" if "0 \<le> k" "k < sr_usedCoreNum res" for k
    using q that by (simp add: cores_planned_def)
  have v0: "valid_cursor kn si (0, 0)" using h(3) by (auto simp: valid_cursor_def)
  have v: "valid_cursor kn si (plan_start res j)"
  proof (cases "j = 0")
    case True
    then show ?thesis using v0 by (simp add: plan_start_def)
  next
    case False
    then show ?thesis using cp [of "j - 1"] j by (simp add: core_planned_def)
  qed
  have v1: "valid_cursor kn si (plan_start res (j + 1))" "cur_le (plan_start res j) (plan_start res (j + 1))"
    using cp [OF j] by (simp_all add: core_planned_def)
  have "cost (rows_between kn (plan_start res j) (plan_start res (j + 1))) = core_load kn si res j"
    using rows_between_cost [OF v v1 base] by (simp add: cost_def core_load_def)
  moreover have "cost (rows_from kn (plan_start res j)) = rest_at kn si (plan_start res j)"
    using rest_at_rows [OF v base] by (simp add: cost_def)
  ultimately show ?thesis using cp [OF j] by (simp add: core_planned_def M_def)
qed

definition sas_example_split :: sas_split_info where
  "sas_example_split = the (sas_CalcSplitInfo sas_example_kernel sas_split_info_init)"

lemma sas_example_split:
  "sas_CalcSplitInfo sas_example_kernel sas_split_info_init = Some sas_example_split" "\<not> si_isKvSeqAllZero sas_example_split"
proof -
  obtain si where si: "sas_CalcSplitInfo sas_example_kernel sas_split_info_init = Some si"
    "si_isKvSeqAllZero si \<longleftrightarrow> (\<forall>b. 0 \<le> b \<and> b < sk_batchSize sas_example_kernel \<longrightarrow> sas_GetS1SeqSize sas_example_kernel b = 0 \<or> sas_GetS2SeqSize sas_example_kernel b = 0)"
    using sas_CalcSplitInfo_ok [OF sas_example_ok(1)] sas_example_seqs unfolding seqs_ok_def by metis
  have "sas_GetS1SeqSize sas_example_kernel 0 = 2 \<and> sas_GetS2SeqSize sas_example_kernel 0 = 700" by code_simp
  then have "\<not> si_isKvSeqAllZero si" using si(2) sas_example_fields by (intro notI) (auto dest: spec [of _ 0])
  then show "sas_CalcSplitInfo sas_example_kernel sas_split_info_init = Some sas_example_split" "\<not> si_isKvSeqAllZero sas_example_split"
    using si(1) by (simp_all add: sas_example_split_def)
qed

theorem sas_core_loads_witness:
  "\<exists>res. BalanceSchedule sas_example_kernel (split_result_init 2 4) = Some res \<and>
     0 < (\<Sum>(b, i) \<in> rows_between sas_example_kernel (plan_start res 0) (plan_start res 1). row_cost sas_example_kernel sas_example_split b i)"
proof -
  let ?k = sas_example_kernel
  have fits: "ci_totalCost (sas_CalcCostInfo ?k si sas_cost_info_init) \<le> INT64_MAX" if "sas_CalcSplitInfo ?k sas_split_info_init = Some si" for si
    using sas_example_ok(3) that by (simp add: cost_fits_def)
  obtain res where res: "BalanceSchedule ?k (split_result_init (sk_aicCoreNum ?k) (sk_aivCoreNum ?k)) = Some res" "scheduled ?k res"
    using BalanceSchedule_ok [OF sas_example_ok(1,2) sas_example_seqs schedule_init(1,2)] fits by blast
  have "0 < sr_usedCoreNum res" using res(2) by (simp add: scheduled_def)
  then show ?thesis
    using sas_core_loads [OF sas_example_prepare _ _ _ _ _ _ sas_example_seqs sas_example_ok(3) sas_example_split res(1), of 0]
      sas_example_fields res(1) by auto
qed

section \<open>Parameters the checks let through\<close>

lemma for_opt_stuck:
  assumes "a \<le> j" "j < b" "P s" "\<And>i t t'. P t \<Longrightarrow> f i t = Some t' \<Longrightarrow> P t'" "\<And>t. P t \<Longrightarrow> f j t = None"
  shows "for_opt a b f s = None"
  using assms(1-3)
proof (induction "nat (j - a)" arbitrary: a s)
  case 0
  then have "a = j" "nat (b - a) = Suc (nat (b - a - 1))" by auto
  then show ?case using assms(5) [OF 0(4)] by (simp add: for_opt_def)
next
  case (Suc d)
  have e: "nat (b - a) = Suc (nat (b - (a + 1)))" using Suc by auto
  have "for_opt (a + 1) b f t = None" if "f a s = Some t" for t
    using Suc.hyps(1) [of "a + 1" t] Suc.hyps(2) Suc.prems assms(4) [OF Suc.prems(3) that] by auto
  then show ?case by (cases "f a s") (auto simp: for_opt_def e)
qed

text \<open>
  C36. The check of the query heads is commented out: with no query heads on a chip before the 950 series the block size of the rows
  is zero, and the operator divides by it.
\<close>

theorem sas_zero_heads_undefined:
  assumes p: "sas_Prepare c (sas_kernel_init tc) = Some (Some kn)" and h: "sk_queryHeadNum kn = 0"
    and soc: "sas_ProcessSocVersion kn = ASCEND910" and b: "0 < sk_batchSize kn" "sk_batchSize kn < 2147483648"
  shows "sas_Compute tc c md = None"
proof -
  note m = sas_Prepare_members [OF p]
  have "sk_mBaseSize kn = 0" using m(4,11) soc h by (simp add: u32_id)
  then have "sas_CalcSplitInfo kn sas_split_info_init = None"
    unfolding sas_CalcSplitInfo_def using b by (intro for_opt_stuck [where j = 0 and P = "\<lambda>_. True"]) (auto simp: u32_id cdiv_def)
  then show ?thesis using p by (simp add: sas_Compute_def BalanceSchedule_def)
qed

definition sas_no_heads :: sas_context where
  "sas_no_heads = sas_example\<lparr>cx_num_heads_q := Some 0\<rparr>"

theorem sas_zero_heads_undefined_witness: "sas_Compute (\<lambda>_ _. 0) sas_no_heads sas_metadata0 = None"
proof -
  define kn where "kn = the (the (sas_Prepare sas_no_heads (sas_kernel_init (\<lambda>_ _. 0))))"
  have "case sas_Prepare sas_no_heads (sas_kernel_init (\<lambda>_ _. 0)) of Some (Some k) \<Rightarrow> True | _ \<Rightarrow> False" by code_simp
  then have p: "sas_Prepare sas_no_heads (sas_kernel_init (\<lambda>_ _. 0)) = Some (Some kn)" by (auto simp: kn_def split: option.splits)
  have "sk_queryHeadNum kn = 0 \<and> sas_ProcessSocVersion kn = ASCEND910 \<and> sk_batchSize kn = 2" unfolding kn_def by code_simp
  then show ?thesis using sas_zero_heads_undefined [OF p] by simp
qed

lemma meta_set_length: "meta_set i j v m = Some m' \<Longrightarrow> length m' = length m"
  by (auto simp: meta_set_def vset_def split: bind_splits if_splits)

lemma gen_fa_row_length: "gen_fa_row res i m = Some m' \<Longrightarrow> length m' = length m"
  by (auto simp: gen_fa_row_def split: bind_splits if_splits dest!: meta_set_length)

lemma gen_fa_row_outside: "length m = 36 \<Longrightarrow> gen_fa_row res 36 m = None"
  by (simp add: gen_fa_row_def meta_set_def vget_def)

text \<open>
  C37. The core number is only checked against zero: with more cores than the metadata tensor has entries the operator writes behind
  the entries.
\<close>

theorem sas_too_many_cores_undefined:
  assumes p: "sas_Prepare c (sas_kernel_init tc) = Some (Some kn)" and a: "36 < sk_aicCoreNum kn" and md: "meta_shape md"
  shows "sas_Compute tc c md = None"
proof -
  have "for_opt 0 (sk_aicCoreNum kn) (gen_fa_row res) (faMetadata md) = None" for res
    using a md by (intro for_opt_stuck [where j = 36 and P = "\<lambda>m. length m = 36"])
      (auto simp: meta_shape_def gen_fa_row_outside dest: gen_fa_row_length)
  then show ?thesis using p by (cases "BalanceSchedule kn (split_result_init (sk_aicCoreNum kn) (sk_aivCoreNum kn))")
      (auto simp: sas_Compute_def GenMetaData_def)
qed

definition sas_many_cores :: sas_context where
  "sas_many_cores = sas_example\<lparr>cx_aic_core_num := Some 40\<rparr>"

theorem sas_too_many_cores_undefined_witness: "sas_Compute (\<lambda>_ _. 0) sas_many_cores sas_metadata0 = None"
proof -
  define kn where "kn = the (the (sas_Prepare sas_many_cores (sas_kernel_init (\<lambda>_ _. 0))))"
  have "case sas_Prepare sas_many_cores (sas_kernel_init (\<lambda>_ _. 0)) of Some (Some k) \<Rightarrow> True | _ \<Rightarrow> False" by code_simp
  then have p: "sas_Prepare sas_many_cores (sas_kernel_init (\<lambda>_ _. 0)) = Some (Some kn)" by (auto simp: kn_def split: option.splits)
  have "sk_aicCoreNum kn = 40" unfolding kn_def by code_simp
  then show ?thesis using sas_too_many_cores_undefined [OF p] sas_metadata0_shape by simp
qed

end
