(* ===== verification/KvDma.thy ===== *)
theory KvDma
  imports Device
begin

text \<open>
  Copies of KV cache payload. The payload kernels are templates over an element type of one, two or
  four bytes, so their copies are a second interface to the vector cores: a load of \<open>n\<close> elements
  from GM to UB, a store of exactly \<open>n\<close> elements from UB to GM, at any element offset. What a load
  leaves in UB behind its last element is not specified. Kernels with separate input and output
  queues also copy inside UB.
\<close>

record payload_dma =
  pd_in :: "tensor \<Rightarrow> int \<Rightarrow> tensor \<Rightarrow> int \<Rightarrow> int \<Rightarrow> tensor"
    \<comment> \<open>GM to UB: destination, its offset, source, its offset, number of elements\<close>
  pd_out :: "tensor \<Rightarrow> int \<Rightarrow> tensor \<Rightarrow> int \<Rightarrow> int \<Rightarrow> tensor"
    \<comment> \<open>UB to GM, same arguments\<close>
  pd_local :: "tensor \<Rightarrow> tensor \<Rightarrow> int \<Rightarrow> tensor"
    \<comment> \<open>UB to UB: destination, source, number of elements\<close>

locale payload_copies = dma_out_exact "pd_out pd" for pd :: payload_dma +
  assumes pd_read: "0 < n \<Longrightarrow> d \<le> i \<Longrightarrow> i < d + n \<Longrightarrow> pd_in pd dst d src s n i = src (s + (i - d))"
    and pd_frame: "0 < n \<Longrightarrow> i < d \<Longrightarrow> pd_in pd dst d src s n i = dst i"
begin

text \<open>A load followed by a store moves a segment of GM and keeps everything else.\<close>

lemma move_segment:
  assumes "0 < n"
  shows "pd_out pd dst e (pd_in pd ub 0 src s n) 0 n i =
    (if e \<le> i \<and> i < e + n then src (s + (i - e)) else dst i)"
  using assms by (auto simp: co_exact pd_read)

end

locale payload_queues = payload_copies pd for pd :: payload_dma +
  assumes pd_local_read: "0 \<le> i \<Longrightarrow> i < n \<Longrightarrow> pd_local pd dst src n i = src i"
begin

text \<open>A segment moved through an input and an output buffer.\<close>

lemma move_through:
  assumes "0 < n"
  shows "pd_out pd dst e (pd_local pd ub' (pd_in pd ub 0 src s n) n) 0 n i =
    (if e \<le> i \<and> i < e + n then src (s + (i - e)) else dst i)"
  using assms by (auto simp: co_exact pd_read pd_local_read)

end

text \<open>A device that meets the contracts.\<close>

definition exact_payload :: payload_dma where
  "exact_payload = \<lparr>pd_in = ub_load, pd_out = gm_store, pd_local = (\<lambda>dst src n. ub_load dst 0 src 0 n)\<rparr>"

interpretation exact_pd: payload_queues exact_payload
  by unfold_locales (simp_all add: exact_payload_def gm_store_def ub_load_def)

section \<open>Segments stored by a launch\<close>

text \<open>
  \<open>segs_moved len src dst S old key new\<close>: for each segment \<open>s\<close> of \<open>S\<close>, the \<open>len s\<close>
  elements of \<open>new\<close> at \<open>dst s\<close> are those of \<open>key\<close> at \<open>src s\<close>; elsewhere \<open>new\<close> is \<open>old\<close>.
\<close>

definition in_seg :: "('a \<Rightarrow> int) \<Rightarrow> ('a \<Rightarrow> int) \<Rightarrow> 'a \<Rightarrow> int \<Rightarrow> bool" where
  "in_seg len dst s i \<longleftrightarrow> dst s \<le> i \<and> i < dst s + len s"

definition segs_moved :: "('a \<Rightarrow> int) \<Rightarrow> ('a \<Rightarrow> int) \<Rightarrow> ('a \<Rightarrow> int) \<Rightarrow> 'a set \<Rightarrow> tensor \<Rightarrow> tensor \<Rightarrow> tensor \<Rightarrow> bool" where
  "segs_moved len src dst S old key new \<longleftrightarrow>
     (\<forall>s\<in>S. \<forall>i. in_seg len dst s i \<longrightarrow> new i = key (src s + (i - dst s))) \<and>
     (\<forall>i. (\<forall>s\<in>S. \<not> in_seg len dst s i) \<longrightarrow> new i = old i)"

definition segs_disjoint :: "('a \<Rightarrow> int) \<Rightarrow> ('a \<Rightarrow> int) \<Rightarrow> 'a set \<Rightarrow> bool" where
  "segs_disjoint len dst S \<longleftrightarrow> (\<forall>s\<in>S. \<forall>t\<in>S. s \<noteq> t \<longrightarrow> (\<forall>i. in_seg len dst s i \<longrightarrow> \<not> in_seg len dst t i))"

lemma segs_moved_none: "segs_moved len src dst {} old key old"
  by (simp add: segs_moved_def)

lemma segs_moved_more:
  assumes m: "segs_moved len src dst S old key mid" and d: "segs_disjoint len dst T" and S: "S \<subseteq> T" and x: "x \<in> T" "x \<notin> S"
    and new: "\<And>i. new i = (if dst x \<le> i \<and> i < dst x + len x then key (src x + (i - dst x)) else mid i)"
  shows "segs_moved len src dst (insert x S) old key new"
proof -
  have "new i = key (src s + (i - dst s))" if s: "s \<in> insert x S" "in_seg len dst s i" for s i
  proof (cases "s = x")
    case True
    then show ?thesis using s(2) by (simp add: new in_seg_def)
  next
    case False
    then have sS: "s \<in> S" using s(1) by simp
    have "\<not> in_seg len dst x i" using d S sS x False s(2) unfolding segs_disjoint_def by blast
    then have "new i = mid i" by (auto simp: new in_seg_def)
    then show ?thesis using m sS s(2) by (simp add: segs_moved_def)
  qed
  moreover have "new i = old i" if "\<forall>s\<in>insert x S. \<not> in_seg len dst s i" for i
    using that m by (auto simp: new segs_moved_def in_seg_def)
  ultimately show ?thesis unfolding segs_moved_def by blast
qed

section \<open>Work shared out in strides\<close>

text \<open>
  Core \<open>b\<close> of \<open>C\<close> takes the items \<open>b\<close>, \<open>b + C\<close>, \<open>b + 2 * C\<close> and so on below \<open>n\<close>. When the cores of
  \<open>D\<close> are through and core \<open>b\<close> is about to take item \<open>j\<close>, the items of \<open>stride_done\<close> are done.
\<close>

definition stride_done :: "int \<Rightarrow> int \<Rightarrow> int set \<Rightarrow> int \<Rightarrow> int \<Rightarrow> int set" where
  "stride_done n C D b j = {g. 0 \<le> g \<and> g < n \<and> (g mod C \<in> D \<or> g mod C = b \<and> g < j)}"

definition stride_items :: "int \<Rightarrow> int \<Rightarrow> int set \<Rightarrow> int set" where
  "stride_items n C D = {g. 0 \<le> g \<and> g < n \<and> g mod C \<in> D}"

lemma stride_done_start: "0 < C \<Longrightarrow> stride_done n C D b b = stride_items n C D"
proof -
  assume C: "0 < C"
  have "g mod C \<le> g" if "0 \<le> g" for g using that by (rule zmod_le_nonneg_dividend)
  then show ?thesis by (force simp: stride_done_def stride_items_def)
qed

lemma stride_done_step:
  assumes "0 < C" "0 \<le> j" "j < n" "j mod C = b"
  shows "stride_done n C D b (j + C) = insert j (stride_done n C D b j)"
proof -
  have *: "g mod C = b \<and> g < j + C \<longleftrightarrow> g mod C = b \<and> (g < j \<or> g = j)" for g
  proof -
    have "g \<le> j" if "g < j + C" "g mod C = b"
    proof (rule ccontr)
      assume "\<not> g \<le> j"
      then have "0 < g - j" "g - j < C" using that by auto
      moreover have "(g - j) mod C = 0" using that(2) assms(4) by (metis mod_eq_dvd_iff mod_0_imp_dvd dvd_imp_mod_0)
      ultimately show False by simp
    qed
    then show ?thesis using assms(1) by auto
  qed
  show ?thesis unfolding stride_done_def * using assms by auto
qed

lemma stride_done_end: "n \<le> j \<Longrightarrow> stride_done n C D b j = stride_items n C (insert b D)"
  by (auto simp: stride_done_def stride_items_def)

lemma stride_done_fresh: "j mod C = b \<Longrightarrow> b \<notin> D \<Longrightarrow> j \<notin> stride_done n C D b j"
  by (simp add: stride_done_def)

lemma stride_done_below: "stride_done n C D b j \<subseteq> {0..<n}"
  by (auto simp: stride_done_def)

lemma stride_items_all: "0 < C \<Longrightarrow> {0..<C} \<subseteq> D \<Longrightarrow> stride_items n C D = {0..<n}"
  by (auto simp: stride_items_def subset_iff)

lemma stride_items_empty [simp]: "stride_items n C {} = {}"
  by (simp add: stride_items_def)

text \<open>How many items a core has.\<close>

lemma stride_count:
  fixes b k n C :: int
  assumes "0 \<le> b" "b < C" "0 \<le> k" "0 \<le> n"
  shows "b + k * C < n \<longleftrightarrow> k < n div C + (if b < n mod C then 1 else 0)"
proof -
  have n: "n = n div C * C + n mod C" by simp
  have r: "0 \<le> n mod C" "n mod C < C" using assms by auto
  consider "k < n div C" | "k = n div C" | "n div C < k" by linarith
  then show ?thesis
  proof cases
    case 1
    then have "k * C + C \<le> n div C * C" using mult_right_mono [of "k + 1" "n div C" C] assms by (simp add: algebra_simps)
    then have "b + k * C < n" using n r assms by linarith
    then show ?thesis using 1 by simp
  next
    case 2
    have "b + k * C < n \<longleftrightarrow> b < n mod C" unfolding 2 using n by linarith
    then show ?thesis using 2 by simp
  next
    case 3
    then have "n div C * C + C \<le> k * C" using mult_right_mono [of "n div C + 1" k C] assms by (simp add: algebra_simps)
    then have "\<not> b + k * C < n" using n r assms by linarith
    then show ?thesis using 3 by simp
  qed
qed

end
