(* ===== verification/StoreKv.thy ===== *)
theory StoreKv
  imports KvDma
begin

text \<open>
  Storing new keys into the paged KV cache (\<^verbatim>\<open>csrc/attention/store_kv_block\<close>): the host routine
  that groups the slot mapping into runs of consecutive slots, the tiling function, and the kernel
  that copies one run at a time. Capacities of a \<^verbatim>\<open>std::vector\<close> are those of libstdc++: the
  constructor and \<^verbatim>\<open>reserve\<close> allocate exactly what is asked for.
\<close>

section \<open>Grouping the slot mapping\<close>

record pre_state =
  ps_slotmap :: int
  ps_groups :: int
  ps_length :: "int list"
  ps_key_idx :: "int list"
  ps_key_cache_idx :: "int list"
  ps_capacity :: int

definition pre_init :: pre_state where
  "pre_init = \<lparr>ps_slotmap = 0, ps_groups = 0, ps_length = replicate 16 0, ps_key_idx = replicate 16 0,
     ps_key_cache_idx = replicate 16 0, ps_capacity = 16\<rparr>"

text \<open>The inner loop: \<open>j\<close> moves on while the next slot follows the current one inside the block.\<close>

function run_end :: "int list \<Rightarrow> int \<Rightarrow> int \<Rightarrow> int \<Rightarrow> int" where
  "run_end slots block_size block_id j =
     (if 0 \<le> j \<and> j + 1 < int (length slots) \<and> tdiv (slots ! nat j) block_size = block_id \<and>
         slots ! nat (j + 1) = slots ! nat j + 1
      then run_end slots block_size block_id (j + 1) else j)"
  by pat_completeness auto
termination
  by (relation "measure (\<lambda>(slots, block_size, block_id, j). nat (int (length slots) - j))") auto

declare run_end.simps [simp del]

text \<open>Where the group that starts at \<open>idx_slotmap\<close> ends.\<close>

definition group_end :: "int list \<Rightarrow> int \<Rightarrow> int \<Rightarrow> int option" where
  "group_end slots block_size idx_slotmap =
     do {
       s \<leftarrow> vget slots idx_slotmap;
       let current_idx = i32 s;
       block_id \<leftarrow> map_option i32 (cdiv current_idx block_size);
       y \<leftarrow> map_option i32 (cmod current_idx block_size);
       let slot_mapping_len = int (length slots);
       let j = idx_slotmap;
       if j + 1 < slot_mapping_len \<and> slots ! nat (j + 1) \<noteq> slots ! nat j + 1 then Some (j + 1)
       else do {
         let idx_stride = i32 (min (block_size - y) (slot_mapping_len - idx_slotmap) - 1);
         let expected_last = i32 (current_idx + idx_stride);
         let expected_last_idx = i32 (idx_slotmap + (expected_last - current_idx));
         last_slot \<leftarrow> vget slots expected_last_idx;
         if expected_last = last_slot then Some (expected_last_idx + 1)
         else Some (run_end slots block_size block_id j) } }"

text \<open>Doubling the vectors when the next group has no entry.\<close>

definition grow_vectors :: "pre_state \<Rightarrow> pre_state" where
  "grow_vectors st =
     (if ps_groups st \<ge> ps_capacity st
      then (let new_capacity = i32 (ps_capacity st * 2);
                fresh = replicate (nat (new_capacity - ps_groups st)) 0
            in st\<lparr>ps_capacity := new_capacity, ps_length := ps_length st @ fresh,
                  ps_key_idx := ps_key_idx st @ fresh, ps_key_cache_idx := ps_key_cache_idx st @ fresh\<rparr>)
      else st)"

text \<open>One round of the outer loop: a padding slot is skipped, any other slot starts a group.\<close>

definition pre_step :: "int list \<Rightarrow> int \<Rightarrow> pre_state \<Rightarrow> pre_state option" where
  "pre_step slots block_size st =
     do {
       s \<leftarrow> vget slots (ps_slotmap st);
       let current_idx = i32 s;
       if current_idx < 0 then Some (st\<lparr>ps_slotmap := ps_slotmap st + 1\<rparr>)
       else do {
         key_idx \<leftarrow> vset (ps_key_idx st) (ps_groups st) (ps_slotmap st);
         key_cache_idx \<leftarrow> vset (ps_key_cache_idx st) (ps_groups st) current_idx;
         j \<leftarrow> group_end slots block_size (ps_slotmap st);
         len \<leftarrow> vset (ps_length st) (ps_groups st) (j - ps_slotmap st);
         Some (grow_vectors (st\<lparr>ps_slotmap := j, ps_groups := ps_groups st + 1, ps_length := len,
                                ps_key_idx := key_idx, ps_key_cache_idx := key_cache_idx\<rparr>)) } }"

partial_function (option) pre_loop :: "int list \<Rightarrow> int \<Rightarrow> pre_state \<Rightarrow> pre_state option" where
  "pre_loop slots block_size st =
     (if ps_slotmap st < int (length slots)
      then do { st' \<leftarrow> pre_step slots block_size st; pre_loop slots block_size st' }
      else Some st)"

declare pre_loop.simps [code]

text \<open>The three tensors copied to the device: the first \<open>idx_groups\<close> entries of the vectors.\<close>

definition store_kv_block_pre :: "int list \<Rightarrow> int \<Rightarrow> (int list \<times> int list \<times> int list) option" where
  "store_kv_block_pre slot_mapping_list block_size =
     do {
       st \<leftarrow> pre_loop slot_mapping_list block_size pre_init;
       let n = nat (ps_groups st);
       Some (take n (ps_length st), take n (ps_key_idx st), take n (ps_key_cache_idx st)) }"

section \<open>Tiling\<close>

datatype kv_dtype = KV_INT8 | KV_FLOAT16 | KV_BF16 | KV_INT32 | KV_UINT32 | KV_OTHER

record store_kv_context =
  sc_coreNum :: "int option"
    \<comment> \<open>the core number of the platform, absent when there is no platform information\<close>
  sc_libApiWorkSpaceSize :: int
  sc_kShape :: "int list"
  sc_kCacheShape :: "int list"
  sc_groupInfoShape :: "int list"
  sc_block_size :: int
  sc_dtype :: kv_dtype

record store_kv_params =
  sp_numTokens :: int
  sp_numCache :: int
  sp_numHeads :: int
  sp_headSize :: "int list"
  sp_blockTableSize :: int
  sp_typeByte :: int
  sp_tokenSize :: int
  sp_tilingKey :: int
  sp_workspaceSize :: int
  sp_groupInfoLen :: int
  sp_corepernum :: int
  sp_coretail :: int
  sp_sysWorkspaceSize :: int
  sp_coreNum :: int

definition store_kv_params0 :: store_kv_params where
  "store_kv_params0 = \<lparr>sp_numTokens = 0, sp_numCache = 0, sp_numHeads = 1, sp_headSize = [1, 1, 1, 1, 1],
     sp_blockTableSize = 0, sp_typeByte = 0, sp_tokenSize = 1, sp_tilingKey = 0, sp_workspaceSize = 0,
     sp_groupInfoLen = 0, sp_corepernum = 0, sp_coretail = 0, sp_sysWorkspaceSize = 0, sp_coreNum = 0\<rparr>"

abbreviation (input) MAX_UB_USE_SIZE :: int where
  "MAX_UB_USE_SIZE \<equiv> 184320"

text \<open>The loop over the dimensions of the keys.\<close>

definition read_key_dim :: "int list \<Rightarrow> int \<Rightarrow> store_kv_params \<Rightarrow> store_kv_params option" where
  "read_key_dim kShape i p =
     do {
       d \<leftarrow> vget kShape i;
       if i = 0 then Some (p\<lparr>sp_numTokens := u32 d\<rparr>)
       else if i = 1 then Some (p\<lparr>sp_numHeads := u32 d\<rparr>)
       else if u32 d \<noteq> 0
       then do { hs \<leftarrow> vset (sp_headSize p) (i - 2) (u32 d); Some (p\<lparr>sp_headSize := hs\<rparr>) }
       else Some p }"

definition type_bytes :: "kv_dtype \<Rightarrow> (int \<times> int) option" where
  "type_bytes t = (case t of KV_INT8 \<Rightarrow> Some (1, 1) | KV_FLOAT16 \<Rightarrow> Some (2, 2) | KV_BF16 \<Rightarrow> Some (2, 2)
     | KV_INT32 \<Rightarrow> Some (4, 4) | KV_UINT32 \<Rightarrow> Some (4, 4) | KV_OTHER \<Rightarrow> None)"

definition token_size :: "store_kv_params \<Rightarrow> int" where
  "token_size p = fold (\<lambda>h n. u32 (n * h)) (sp_headSize p) (sp_numHeads p)"

definition DoCommonTiling :: "store_kv_context \<Rightarrow> store_kv_params \<Rightarrow> store_kv_params graph_status option" where
  "DoCommonTiling c p =
     (let kDimNum = int (length (sc_kShape c)); kCacheDimNum = int (length (sc_kCacheShape c)) in
      if kDimNum < 2 \<or> kDimNum > 7 then Some GRAPH_FAILED
      else do {
        p1 \<leftarrow> for_opt 0 kDimNum (read_key_dim (sc_kShape c)) p;
        if kCacheDimNum < 2 \<or> kCacheDimNum > 7 then Some GRAPH_FAILED
        else do {
          c0 \<leftarrow> vget (sc_kCacheShape c) 0;
          c1 \<leftarrow> vget (sc_kCacheShape c) 1;
          let p2 = p1\<lparr>sp_numCache := u32 (c0 * c1), sp_tokenSize := token_size p1,
                      sp_blockTableSize := u32 (sc_block_size c)\<rparr>;
          (case type_bytes (sc_dtype c) of None \<Rightarrow> Some GRAPH_FAILED
           | Some (typeByte, tilingKey) \<Rightarrow>
             do {
               g0 \<leftarrow> vget (sc_groupInfoShape c) 0;
               let groupInfoLen = u32 g0;
               corepernum \<leftarrow> cdiv groupInfoLen (sp_coreNum p2);
               coretail \<leftarrow> cmod groupInfoLen (sp_coreNum p2);
               let p3 = p2\<lparr>sp_tilingKey := tilingKey, sp_typeByte := typeByte, sp_groupInfoLen := groupInfoLen,
                           sp_corepernum := u32 corepernum, sp_coretail := u32 coretail\<rparr>;
               if u32 (sp_blockTableSize p3 * sp_tokenSize p3) > MAX_UB_USE_SIZE then Some GRAPH_FAILED
               else Some (GRAPH_SUCCESS p3) }) } })"

record store_kv_tiling =
  st_blockTableSize :: int
  st_typeByte :: int
  st_tokenSize :: int
  st_corePerNum :: int
  st_coreTail :: int
  st_numTokens :: int
  st_numCache :: int
  st_groupInfoLen :: int

text \<open>
  The tiling data is an object of a class generated from the field list; \<open>td0\<close> is its initial
  value. The result is the tiling data, the workspace size, the tiling key and the block dimension.
\<close>

definition StoreKVBlockTilingFunc ::
  "store_kv_tiling \<Rightarrow> store_kv_context \<Rightarrow> (store_kv_tiling \<times> int \<times> int \<times> int) graph_status option" where
  "StoreKVBlockTilingFunc td0 c =
     (case sc_coreNum c of None \<Rightarrow> Some GRAPH_FAILED
      | Some coreNum \<Rightarrow>
        if coreNum = 0 then Some GRAPH_FAILED
        else do {
          ret \<leftarrow> DoCommonTiling c (store_kv_params0\<lparr>sp_coreNum := coreNum, sp_sysWorkspaceSize := sc_libApiWorkSpaceSize c\<rparr>);
          (case ret of GRAPH_FAILED \<Rightarrow> Some GRAPH_FAILED
           | GRAPH_SUCCESS p \<Rightarrow>
             let td = \<lparr>st_blockTableSize = (if sp_blockTableSize p > 0 then sp_blockTableSize p else st_blockTableSize td0),
                       st_typeByte = (if sp_typeByte p > 0 then sp_typeByte p else st_typeByte td0),
                       st_tokenSize = (if sp_tokenSize p > 0 then sp_tokenSize p else st_tokenSize td0),
                       st_corePerNum = (if sp_corepernum p > 0 \<or> sp_coretail p \<noteq> 0 then sp_corepernum p
                                        else st_corePerNum td0),
                       st_coreTail = (if sp_coretail p < 48 then sp_coretail p else st_coreTail td0),
                       st_numTokens = (if sp_numTokens p > 0 then sp_numTokens p else st_numTokens td0),
                       st_numCache = (if sp_numCache p > 0 then sp_numCache p else st_numCache td0),
                       st_groupInfoLen = (if sp_groupInfoLen p > 0 then sp_groupInfoLen p else st_groupInfoLen td0)\<rparr>
             in Some (GRAPH_SUCCESS (td, sp_workspaceSize p + sp_sysWorkspaceSize p, sp_tilingKey p, sp_coreNum p))) })"

section \<open>Kernel\<close>

record store_kv_kernel =
  sk_tokenSize :: int
  sk_tokenByteSize :: int
  sk_blockTableSize :: int
  sk_typeByte :: int
  sk_numTokens :: int
  sk_numCache :: int
  sk_groupInfoLen :: int
  sk_coreId :: int
  sk_coreTail :: int
  sk_corePerNum :: int
  sk_blockNum :: int

record store_kv_gm =
  keyInputGt :: tensor
  keyCacheInputGt :: tensor
  groupLenGt :: tensor
  groupKeyIdxGt :: tensor
  groupKeyCacheIdxGt :: tensor

definition store_kv_Init :: "store_kv_tiling \<Rightarrow> int \<Rightarrow> int \<Rightarrow> store_kv_kernel" where
  "store_kv_Init t blockIdx blockNum =
     \<lparr>sk_tokenSize = st_tokenSize t, sk_tokenByteSize = u32 (st_tokenSize t * st_typeByte t),
      sk_blockTableSize = st_blockTableSize t, sk_typeByte = st_typeByte t, sk_numTokens = st_numTokens t,
      sk_numCache = st_numCache t, sk_groupInfoLen = st_groupInfoLen t, sk_coreId = blockIdx,
      sk_coreTail = st_coreTail t,
      sk_corePerNum = (if blockIdx < st_coreTail t then u32 (st_corePerNum t + 1) else st_corePerNum t),
      sk_blockNum = blockNum\<rparr>"

text \<open>
  One group: a load of its tokens into the token buffer and a store into the cache, of \<open>blockLen\<close>
  bytes each, that is \<open>blockLen div elemSize\<close> elements of \<open>elemSize\<close> bytes. Loading more than the buffer of
  \<open>bufBytes\<close> bytes holds is undefined.
\<close>

definition store_kv_group ::
  "payload_dma \<Rightarrow> int \<Rightarrow> int \<Rightarrow> store_kv_kernel \<Rightarrow> int \<Rightarrow> store_kv_gm \<times> tensor \<Rightarrow> (store_kv_gm \<times> tensor) option" where
  "store_kv_group pd elemSize bufBytes kn i st =
     (case st of (gm, tokenLocal) \<Rightarrow>
      let idx = u32 (sk_coreId kn + u32 (i * sk_blockNum kn));
          blockLen = u32 (groupLenGt gm idx * sk_tokenByteSize kn);
          tokenLocal' = pd_in pd tokenLocal 0 (keyInputGt gm) (u32 (groupKeyIdxGt gm idx * sk_tokenSize kn)) (blockLen div elemSize)
      in if blockLen > bufBytes then None
         else Some (gm\<lparr>keyCacheInputGt := pd_out pd (keyCacheInputGt gm) (u32 (groupKeyCacheIdxGt gm idx * sk_tokenSize kn))
                                           tokenLocal' 0 (blockLen div elemSize)\<rparr>, tokenLocal'))"

text \<open>A token buffer that does not fit the \<open>ubSize\<close> bytes of UB cannot be had.\<close>

definition store_kv_Process ::
  "payload_dma \<Rightarrow> int \<Rightarrow> int \<Rightarrow> store_kv_kernel \<Rightarrow> store_kv_gm \<times> tensor \<Rightarrow> (store_kv_gm \<times> tensor) option" where
  "store_kv_Process pd ubSize elemSize kn st =
     (let bufBytes = u32 (sk_blockTableSize kn * sk_tokenByteSize kn)
      in if bufBytes > ubSize then None
         else for_opt 0 (sk_corePerNum kn) (store_kv_group pd elemSize bufBytes kn) st)"

text \<open>The kernel entry: the tiling key selects the element type, of one, two or four bytes.\<close>

definition store_kv_block ::
  "payload_dma \<Rightarrow> int \<Rightarrow> int \<Rightarrow> store_kv_tiling \<Rightarrow> int \<Rightarrow> int \<Rightarrow> store_kv_gm \<times> tensor \<Rightarrow> (store_kv_gm \<times> tensor) option" where
  "store_kv_block pd ubSize tilingKey t blockIdx blockNum st =
     (let kn = store_kv_Init t blockIdx blockNum
      in if tilingKey = 1 then store_kv_Process pd ubSize 1 kn st
         else if tilingKey = 2 then store_kv_Process pd ubSize 2 kn st
         else if tilingKey = 4 then store_kv_Process pd ubSize 4 kn st
         else Some st)"

text \<open>A launch on the cores of \<open>order\<close>, each with its own UB, finishing in that order.\<close>

definition store_kv_launch ::
  "payload_dma \<Rightarrow> int \<Rightarrow> int \<Rightarrow> store_kv_tiling \<Rightarrow> int \<Rightarrow> int list \<Rightarrow> (int \<Rightarrow> tensor) \<Rightarrow> store_kv_gm \<Rightarrow> store_kv_gm option" where
  "store_kv_launch pd ubSize tilingKey t blockNum order ubs gm =
     fold_opt (\<lambda>b g. map_option fst (store_kv_block pd ubSize tilingKey t b blockNum (g, ubs b))) order gm"

end
