(* ===== verification/StoreKvGroups.thy ===== *)
theory StoreKvGroups
  imports StoreKv
begin

text \<open>
  The grouping of the slot mapping is a faithful encoding of it: the groups list the tokens with a
  slot, in order, each with its own slot, and no group leaves its cache block.
\<close>

section \<open>What the groups stand for\<close>

definition group_pairs :: "int list \<Rightarrow> int list \<Rightarrow> int list \<Rightarrow> (int \<times> int) list" where
  "group_pairs ls ks cs = concat (map (\<lambda>(l, k, c). map (\<lambda>i. (k + i, c + i)) [0..l - 1]) (zip ls (zip ks cs)))"

definition token_slots :: "int list \<Rightarrow> int \<Rightarrow> (int \<times> int) list" where
  "token_slots slots n = map (\<lambda>t. (t, slots ! nat t)) (filter (\<lambda>t. 0 \<le> slots ! nat t) [0..n - 1])"

text \<open>
  The end point of a run decides about the run: when slot \<open>j\<close> is where a run from slot \<open>i\<close> would
  be, the slots between are that run. Slot mappings that increase up to their padding are such.
\<close>

definition honest_runs :: "int list \<Rightarrow> bool" where
  "honest_runs slots \<longleftrightarrow>
     (\<forall>j<length slots. \<forall>i\<le>j. 0 \<le> slots ! i \<and> slots ! j = slots ! i + int (j - i) \<longrightarrow>
        (\<forall>m\<in>{i..j}. slots ! m = slots ! i + int (m - i)))"

definition slots_fit :: "int list \<Rightarrow> int \<Rightarrow> bool" where
  "slots_fit slots block_size \<longleftrightarrow> 0 < block_size \<and> block_size < 2147483648 \<and> length slots < 1073741824 \<and>
     (\<forall>s\<in>set slots. - 2147483648 \<le> s \<and> s + block_size \<le> 2147483648)"

lemma increasing_gap:
  fixes xs :: "int list"
  assumes "sorted_wrt (<) xs" "i \<le> j" "j < length xs"
  shows "xs ! i + int (j - i) \<le> xs ! j"
  using assms(2,3)
proof (induction j rule: dec_induct)
  case (step j)
  have "xs ! j < xs ! Suc j" using assms(1) step by (auto intro: sorted_wrt_nth_less)
  then show ?case using step by (simp add: Suc_diff_le)
qed simp

lemma increasing_honest:
  assumes xs: "sorted_wrt (<) xs" and pads: "\<forall>s\<in>set pads. s < 0"
  shows "honest_runs (xs @ pads)"
  unfolding honest_runs_def
proof (intro allI impI ballI)
  let ?s = "xs @ pads"
  fix j i m assume j: "j < length ?s" "i \<le> j" and h: "0 \<le> ?s ! i \<and> ?s ! j = ?s ! i + int (j - i)" and m: "m \<in> {i..j}"
  have jx: "j < length xs"
  proof (rule ccontr)
    assume "\<not> j < length xs"
    then have "?s ! j \<in> set pads" using j(1) by (simp add: nth_append)
    then show False using pads h by auto
  qed
  then have "xs ! i + int (m - i) \<le> xs ! m" "xs ! m + int (j - m) \<le> xs ! j"
    using increasing_gap [OF xs] m by auto
  then show "?s ! m = ?s ! i + int (m - i)" using h jx m by (auto simp: nth_append)
qed

section \<open>One group\<close>

lemma run_end_spec:
  assumes "0 \<le> j" "j < int (length slots)"
  shows "j \<le> run_end slots bs bid j \<and> run_end slots bs bid j < int (length slots) \<and>
    (\<forall>m. j \<le> m \<and> m \<le> run_end slots bs bid j \<longrightarrow> slots ! nat m = slots ! nat j + (m - j)) \<and>
    (\<forall>m. j \<le> m \<and> m < run_end slots bs bid j \<longrightarrow> tdiv (slots ! nat m) bs = bid)"
  using assms
proof (induction slots bs bid j rule: run_end.induct)
  case (1 slots bs bid j)
  let ?c = "0 \<le> j \<and> j + 1 < int (length slots) \<and> tdiv (slots ! nat j) bs = bid \<and> slots ! nat (j + 1) = slots ! nat j + 1"
  show ?case
  proof (cases ?c)
    case True
    let ?e = "run_end slots bs bid (j + 1)"
    have e: "run_end slots bs bid j = ?e" using True by (subst run_end.simps) (rule if_P)
    have ih: "j + 1 \<le> ?e" "?e < int (length slots)"
      "\<And>m. j + 1 \<le> m \<Longrightarrow> m \<le> ?e \<Longrightarrow> slots ! nat m = slots ! nat (j + 1) + (m - (j + 1))"
      "\<And>m. j + 1 \<le> m \<Longrightarrow> m < ?e \<Longrightarrow> tdiv (slots ! nat m) bs = bid"
    proof -
      have "0 \<le> j + 1" "j + 1 < int (length slots)" using True by linarith+
      note ih = 1(1) [OF True this]
      show "j + 1 \<le> ?e" "?e < int (length slots)" using ih by blast+
      show "\<And>m. j + 1 \<le> m \<Longrightarrow> m \<le> ?e \<Longrightarrow> slots ! nat m = slots ! nat (j + 1) + (m - (j + 1))" using ih by blast
      show "\<And>m. j + 1 \<le> m \<Longrightarrow> m < ?e \<Longrightarrow> tdiv (slots ! nat m) bs = bid" using ih by blast
    qed
    have "slots ! nat m = slots ! nat j + (m - j)" if "j \<le> m" "m \<le> ?e" for m
    proof (cases "m = j")
      case False
      then have "slots ! nat m = slots ! nat (j + 1) + (m - (j + 1))" using ih(3) [of m] that by linarith
      then show ?thesis using True by linarith
    qed simp
    moreover have "tdiv (slots ! nat m) bs = bid" if "j \<le> m" "m < ?e" for m
    proof (cases "m = j")
      case False
      then show ?thesis using ih(4) [of m] that by linarith
    qed (use True in blast)
    ultimately show ?thesis unfolding e using ih(1,2) by (intro conjI allI impI) (linarith, blast+)
  next
    case False
    then have e: "run_end slots bs bid j = j" by (subst run_end.simps) (rule if_not_P)
    show ?thesis unfolding e using "1.prems" by auto
  qed
qed

lemma run_end_moves:
  assumes "0 \<le> j" "j + 1 < int (length slots)" "tdiv (slots ! nat j) bs = bid" "slots ! nat (j + 1) = slots ! nat j + 1"
  shows "j < run_end slots bs bid j"
proof -
  have "run_end slots bs bid j = run_end slots bs bid (j + 1)" using assms by (subst run_end.simps) (rule if_P, simp)
  then show ?thesis using run_end_spec [of "j + 1" slots bs bid] assms by auto
qed

lemma same_block_fits:
  fixes a k bs :: int
  assumes "0 < bs" "0 \<le> k" "(a + k) div bs = a div bs"
  shows "a mod bs + k < bs"
proof -
  have "a + k = a div bs * bs + (a + k) mod bs" using assms(3) by (metis div_mult_mod_eq)
  moreover have "a = a div bs * bs + a mod bs" by simp
  moreover have "(a + k) mod bs < bs" using assms(1) by simp
  ultimately show ?thesis by linarith
qed

lemma group_end_ok:
  assumes fit: "slots_fit slots bs" and honest: "honest_runs slots"
    and i: "0 \<le> i" "i < int (length slots)" "0 \<le> slots ! nat i"
  shows "\<exists>j. group_end slots bs i = Some j \<and> i < j \<and> j \<le> int (length slots) \<and>
    (\<forall>m. i \<le> m \<and> m < j \<longrightarrow> slots ! nat m = slots ! nat i + (m - i)) \<and> slots ! nat i mod bs + (j - i) \<le> bs"
proof -
  let ?s = "slots ! nat i" and ?n = "int (length slots)"
  have I: ?thesis if "group_end slots bs i = Some j" "i < j" "j \<le> ?n" "?s mod bs + (j - i) \<le> bs"
    "\<And>m. i \<le> m \<Longrightarrow> m < j \<Longrightarrow> slots ! nat m = ?s + (m - i)" for j using that by blast
  have bs: "0 < bs" "bs < 2147483648" and n: "?n < 1073741824" using fit by (auto simp: slots_fit_def)
  have s: "?s + bs \<le> 2147483648" using fit i by (simp add: slots_fit_def)
  have md: "0 \<le> ?s mod bs" "?s mod bs < bs" using bs by auto
  have dv: "0 \<le> ?s div bs" "?s div bs \<le> ?s" using bs i(3) zdiv_mono2 [of ?s 1 bs] by (auto simp: pos_imp_zdiv_nonneg_iff)
  have w: "i32 ?s = ?s" "i32 (?s div bs) = ?s div bs" "i32 (?s mod bs) = ?s mod bs"
    using s i(3) bs dv md by (auto intro!: i32_id)
  define d where "d = min (bs - ?s mod bs) (?n - i) - 1"
  have d: "0 \<le> d" "i + d < ?n" "?s mod bs + d < bs" using md i by (auto simp: d_def)
  have wd: "i32 d = d" "i32 (?s + d) = ?s + d" "i32 (i + d) = i + d"
    by (intro i32_id; use d i s md n bs in linarith)+
  have v: "vget slots i = Some ?s" "vget slots (i + d) = Some (slots ! nat (i + d))" using i d by (auto intro: vget_Some)
  have dm: "cdiv ?s bs = Some (?s div bs)" "cmod ?s bs = Some (?s mod bs)" using bs i(3) by (auto intro: cdiv_pos cmod_pos)
  have g: "group_end slots bs i =
      (if i + 1 < ?n \<and> slots ! nat (i + 1) \<noteq> ?s + 1 then Some (i + 1)
       else if ?s + d = slots ! nat (i + d) then Some (i + d + 1) else Some (run_end slots bs (?s div bs) i))"
    unfolding group_end_def Let_def v(1) Option.bind.bind_lunit w(1) dm option.map(2) w(2,3) d_def [symmetric] wd(1,2)
      add_diff_cancel_left' wd(3) v(2) by (rule refl)
  consider (one) "i + 1 < ?n" "slots ! nat (i + 1) \<noteq> ?s + 1"
    | (jump) "\<not> (i + 1 < ?n \<and> slots ! nat (i + 1) \<noteq> ?s + 1)" "?s + d = slots ! nat (i + d)"
    | (walk) "\<not> (i + 1 < ?n \<and> slots ! nat (i + 1) \<noteq> ?s + 1)" "?s + d \<noteq> slots ! nat (i + d)" by blast
  then show ?thesis
  proof cases
    case one
    show ?thesis
    proof (rule I [of "i + 1"])
      show "slots ! nat m = ?s + (m - i)" if "i \<le> m" "m < i + 1" for m
        using that by (cases "m = i") auto
    qed (use one g md in auto)
  next
    case jump
    then have ge: "group_end slots bs i = Some (i + d + 1)" using g by auto
    have run: "slots ! nat m = ?s + (m - i)" if "i \<le> m" "m < i + d + 1" for m
    proof -
      have "nat (i + d) < length slots" "nat i \<le> nat (i + d)" "nat m \<in> {nat i..nat (i + d)}" using d i that by auto
      moreover have "slots ! nat (i + d) = ?s + int (nat (i + d) - nat i)" using jump(2) d(1) i by simp
      ultimately have "slots ! nat m = ?s + int (nat m - nat i)" using honest i(3) unfolding honest_runs_def by blast
      then show ?thesis using that i by simp
    qed
    show ?thesis by (rule I [OF ge _ _ _ run]) (use d in linarith)+
  next
    case walk
    let ?e = "run_end slots bs (?s div bs) i"
    have ge: "group_end slots bs i = Some ?e" using g walk by auto
    have nx: "i + 1 < ?n" "slots ! nat (i + 1) = ?s + 1"
    proof -
      have "d \<noteq> 0" using walk(2) by auto
      then show "i + 1 < ?n" using d by linarith
      then show "slots ! nat (i + 1) = ?s + 1" using walk(1) by simp
    qed
    note e = run_end_spec [OF i(1,2), of bs "?s div bs"]
    have lt: "i < ?e" by (rule run_end_moves [OF i(1) nx(1) _ nx(2)]) (simp add: tdiv_pos i(3) bs)
    have e1: "i \<le> ?e - 1" "?e - 1 \<le> ?e" "?e - 1 < ?e" using lt by linarith+
    have "slots ! nat (?e - 1) = ?s + (?e - 1 - i)" "tdiv (slots ! nat (?e - 1)) bs = ?s div bs" using e e1 by blast+
    then have "(?s + (?e - 1 - i)) div bs = ?s div bs" using i(3) bs lt by (simp add: tdiv_pos)
    then have "?s mod bs + (?e - 1 - i) < bs" using bs lt by (intro same_block_fits) auto
    then have fits: "?s mod bs + (?e - i) \<le> bs" by linarith
    have run: "slots ! nat m = ?s + (m - i)" if "i \<le> m" "m < ?e" for m
      using e that order_less_imp_le [OF that(2)] by blast
    have "?e \<le> ?n" using e by linarith
    then show ?thesis by (rule I [OF ge lt _ fits run])
  qed
qed

section \<open>The loop\<close>

lemma upto_shift: "[n..n + k - 1] = map (\<lambda>i. n + i) [0..k - 1]"
  by (rule nth_equalityI) (auto simp: nth_upto)

lemma group_pairs_snoc:
  assumes "length ks = length ls" "length cs = length ls"
  shows "group_pairs (ls @ [l]) (ks @ [k]) (cs @ [c]) = group_pairs ls ks cs @ map (\<lambda>i. (k + i, c + i)) [0..l - 1]"
  using assms by (simp add: group_pairs_def)

lemma token_slots_run:
  assumes "0 \<le> i" "i < j" "0 \<le> slots ! nat i" "\<And>m. i \<le> m \<Longrightarrow> m < j \<Longrightarrow> slots ! nat m = slots ! nat i + (m - i)"
  shows "token_slots slots j = token_slots slots i @ map (\<lambda>k. (i + k, slots ! nat i + k)) [0..j - i - 1]"
proof -
  have up: "[0..j - 1] = [0..i - 1] @ [i..j - 1]" using assms(1,2) by (intro upto_split1) auto
  have at: "slots ! nat t = slots ! nat i + (t - i)" if "t \<in> set [i..j - 1]" for t
    using that by (intro assms(4)) auto
  have fl: "filter (\<lambda>t. 0 \<le> slots ! nat t) [i..j - 1] = [i..j - 1]"
  proof (intro filter_True ballI)
    fix t assume t: "t \<in> set [i..j - 1]"
    then have "i \<le> t" by simp
    then show "0 \<le> slots ! nat t" using at [OF t] assms(3) by linarith
  qed
  have "map (\<lambda>t. (t, slots ! nat t)) [i..j - 1] = map (\<lambda>t. (t, slots ! nat i + (t - i))) [i..j - 1]"
    by (rule map_cong [OF refl], rule arg_cong [OF at])
  also have "\<dots> = map (\<lambda>k. (i + k, slots ! nat i + k)) [0..j - i - 1]"
    using upto_shift [of i "j - i"] by (simp add: comp_def)
  finally have "map (\<lambda>t. (t, slots ! nat t)) [i..j - 1] = map (\<lambda>k. (i + k, slots ! nat i + k)) [0..j - i - 1]" .
  then show ?thesis unfolding token_slots_def up filter_append fl map_append by simp
qed

lemma token_slots_pad:
  assumes "0 \<le> i" "slots ! nat i < 0"
  shows "token_slots slots (i + 1) = token_slots slots i"
proof -
  have "[0..i] = [0..i - 1] @ [i]" using assms(1) by (simp add: upto_rec2)
  then show ?thesis using assms(2) by (simp add: token_slots_def)
qed

definition pre_inv :: "int list \<Rightarrow> int \<Rightarrow> pre_state \<Rightarrow> bool" where
  "pre_inv slots bs st \<longleftrightarrow>
     0 \<le> ps_slotmap st \<and> ps_slotmap st \<le> int (length slots) \<and> 0 \<le> ps_groups st \<and> ps_groups st \<le> ps_slotmap st \<and>
     ps_groups st < ps_capacity st \<and> int (length (ps_length st)) = ps_capacity st \<and>
     length (ps_key_idx st) = length (ps_length st) \<and> length (ps_key_cache_idx st) = length (ps_length st) \<and>
     group_pairs (take (nat (ps_groups st)) (ps_length st)) (take (nat (ps_groups st)) (ps_key_idx st))
       (take (nat (ps_groups st)) (ps_key_cache_idx st)) = token_slots slots (ps_slotmap st) \<and>
     list_all2 (\<lambda>l c. 1 \<le> l \<and> 0 \<le> c \<and> c mod bs + l \<le> bs)
       (take (nat (ps_groups st)) (ps_length st)) (take (nat (ps_groups st)) (ps_key_cache_idx st))"

lemma take_set: "n < length xs \<Longrightarrow> take (Suc n) (xs[n := v]) = take n xs @ [v]"
  by (simp add: take_Suc_conv_app_nth)

lemma pre_inv_grow:
  assumes g: "1 \<le> ps_groups st" "ps_groups st \<le> ps_capacity st" "ps_groups st < 1073741824"
    and inv: "pre_inv slots bs (st\<lparr>ps_capacity := ps_capacity st + 1, ps_length := ps_length st @ [0],
       ps_key_idx := ps_key_idx st @ [0], ps_key_cache_idx := ps_key_cache_idx st @ [0]\<rparr>)"
  shows "pre_inv slots bs (grow_vectors st)"
proof -
  have len: "int (length (ps_length st)) = ps_capacity st" "length (ps_key_idx st) = length (ps_length st)"
      "length (ps_key_cache_idx st) = length (ps_length st)" using inv by (auto simp: pre_inv_def)
  then have t: "nat (ps_groups st) \<le> length (ps_length st)" using g by linarith
  show ?thesis
  proof (cases "ps_groups st \<ge> ps_capacity st")
    case True
    then have eq: "ps_groups st = ps_capacity st" using g by simp
    have cap: "i32 (ps_capacity st * 2) = ps_capacity st * 2" using g eq by (intro i32_id) auto
    have fresh: "int (length (replicate (nat (ps_capacity st * 2 - ps_groups st)) (0 :: int))) = ps_capacity st" using eq g by simp
    show ?thesis using inv True len t g eq unfolding pre_inv_def grow_vectors_def Let_def cap by simp
  next
    case False
    then show ?thesis using inv len t by (simp add: pre_inv_def grow_vectors_def)
  qed
qed

lemma pre_step_ok:
  assumes fit: "slots_fit slots bs" and honest: "honest_runs slots"
    and inv: "pre_inv slots bs st" and lt: "ps_slotmap st < int (length slots)"
  shows "\<exists>st'. pre_step slots bs st = Some st' \<and> pre_inv slots bs st' \<and> ps_slotmap st < ps_slotmap st'"
proof -
  let ?i = "ps_slotmap st" and ?g = "ps_groups st" let ?s = "slots ! nat ?i"
  have i: "0 \<le> ?i" and g: "0 \<le> ?g" "?g < ps_capacity st" and len: "int (length (ps_length st)) = ps_capacity st"
      "length (ps_key_idx st) = length (ps_length st)" "length (ps_key_cache_idx st) = length (ps_length st)"
    using inv by (auto simp: pre_inv_def)
  have v: "vget slots ?i = Some ?s" using i lt by (intro vget_Some)
  have w: "i32 ?s = ?s"
  proof (rule i32_id)
    have "?s \<in> set slots" using i lt by (simp add: nat_less_iff)
    then show "- 2147483648 \<le> ?s" "?s < 2147483648" using fit by (auto simp: slots_fit_def)
  qed
  show ?thesis
  proof (cases "?s < 0")
    case True
    have "pre_step slots bs st = Some (st\<lparr>ps_slotmap := ?i + 1\<rparr>)" using True by (simp add: pre_step_def v w)
    moreover have "pre_inv slots bs (st\<lparr>ps_slotmap := ?i + 1\<rparr>)"
      using inv lt token_slots_pad [OF i True] by (simp add: pre_inv_def)
    ultimately show ?thesis by (intro exI conjI) (assumption+, simp)
  next
    case False
    obtain j where j: "group_end slots bs ?i = Some j" "?i < j" "j \<le> int (length slots)" "?s mod bs + (j - ?i) \<le> bs"
      and run: "\<And>m. ?i \<le> m \<Longrightarrow> m < j \<Longrightarrow> slots ! nat m = ?s + (m - ?i)"
    proof -
      have "0 \<le> ?s" using False by linarith
      then show thesis using group_end_ok [OF fit honest i lt] that by blast
    qed
    let ?n = "nat ?g"
    let ?st = "st\<lparr>ps_slotmap := j, ps_groups := ?g + 1, ps_length := (ps_length st)[?n := j - ?i],
       ps_key_idx := (ps_key_idx st)[?n := ?i], ps_key_cache_idx := (ps_key_cache_idx st)[?n := ?s]\<rparr>"
    have n: "?n < length (ps_length st)" "nat (?g + 1) = Suc ?n" using g len by auto
    have step: "pre_step slots bs st = Some (grow_vectors ?st)"
      using False g len n by (simp add: pre_step_def v w j(1) vset_Some)
    have pairs: "token_slots slots j = token_slots slots ?i @ map (\<lambda>k. (?i + k, ?s + k)) [0..j - ?i - 1]"
      by (rule token_slots_run [OF i j(2) _ run]) (use False in linarith)
    have "pre_inv slots bs (grow_vectors ?st)"
    proof (rule pre_inv_grow)
      show "pre_inv slots bs (?st\<lparr>ps_capacity := ps_capacity ?st + 1, ps_length := ps_length ?st @ [0],
          ps_key_idx := ps_key_idx ?st @ [0], ps_key_cache_idx := ps_key_cache_idx ?st @ [0]\<rparr>)"
        using inv g len n j False
        by (simp add: pre_inv_def take_set group_pairs_snoc pairs list_all2_appendI)
    qed (use g j inv fit in \<open>auto simp: pre_inv_def slots_fit_def\<close>)
    then show ?thesis using step by (intro exI conjI) (assumption+, simp add: grow_vectors_def Let_def j(2))
  qed
qed

lemma pre_loop_ok:
  assumes fit: "slots_fit slots bs" and honest: "honest_runs slots" and inv: "pre_inv slots bs st"
  shows "\<exists>st'. pre_loop slots bs st = Some st' \<and> pre_inv slots bs st' \<and> ps_slotmap st' = int (length slots)"
  using inv
proof (induction "nat (int (length slots) - ps_slotmap st)" arbitrary: st rule: less_induct)
  case less
  show ?case
  proof (cases "ps_slotmap st < int (length slots)")
    case True
    obtain st' where st': "pre_step slots bs st = Some st'" "pre_inv slots bs st'" "ps_slotmap st < ps_slotmap st'"
      using pre_step_ok [OF fit honest less.prems True] by blast
    have "nat (int (length slots) - ps_slotmap st') < nat (int (length slots) - ps_slotmap st)" using True st'(3) by simp
    from less.hyps [OF this st'(2)] show ?thesis using True st'(1) by (subst pre_loop.simps) simp
  next
    case False
    then have "ps_slotmap st = int (length slots)" using less.prems by (simp add: pre_inv_def)
    then show ?thesis using False less.prems by (subst pre_loop.simps) simp
  qed
qed

lemma pre_inv_init: "pre_inv slots bs pre_init"
  by (simp add: pre_inv_def pre_init_def group_pairs_def token_slots_def)

lemma store_kv_block_pre_ok:
  assumes "slots_fit slots bs" "honest_runs slots"
  shows "\<exists>ls ks cs. store_kv_block_pre slots bs = Some (ls, ks, cs) \<and> length ks = length ls \<and> length cs = length ls \<and>
    length ls \<le> length slots \<and> group_pairs ls ks cs = token_slots slots (int (length slots)) \<and>
    list_all2 (\<lambda>l c. 1 \<le> l \<and> 0 \<le> c \<and> c mod bs + l \<le> bs) ls cs"
proof -
  obtain st where st: "pre_loop slots bs pre_init = Some st" and inv: "pre_inv slots bs st"
    and n: "ps_slotmap st = int (length slots)"
    using pre_loop_ok [OF assms pre_inv_init] by blast
  let ?n = "nat (ps_groups st)"
  have "store_kv_block_pre slots bs = Some (take ?n (ps_length st), take ?n (ps_key_idx st), take ?n (ps_key_cache_idx st))"
    by (simp add: store_kv_block_pre_def st Let_def)
  moreover have "?n \<le> length slots" using inv n by (simp add: pre_inv_def nat_le_iff)
  ultimately show ?thesis using inv n by (simp add: pre_inv_def)
qed

section \<open>Reading the groups\<close>

text \<open>Token \<open>t\<close> and slot \<open>s\<close> belong together exactly when some group has them at the same place.\<close>

lemma group_pairs_mem:
  assumes "length ks = length ls" "length cs = length ls"
  shows "(t, s) \<in> set (group_pairs ls ks cs) \<longleftrightarrow>
    (\<exists>g<length ls. \<exists>i. 0 \<le> i \<and> i < ls ! g \<and> t = ks ! g + i \<and> s = cs ! g + i)"
proof -
  have "set (zip ls (zip ks cs)) = {(ls ! g, ks ! g, cs ! g) |g. g < length ls}"
    using assms by (auto simp: set_zip)
  then have "(t, s) \<in> set (group_pairs ls ks cs) \<longleftrightarrow>
      (\<exists>g<length ls. (t, s) \<in> (\<lambda>i. (ks ! g + i, cs ! g + i)) ` {0..ls ! g - 1})"
    by (auto simp: group_pairs_def)
  then show ?thesis by (auto simp: image_iff)
qed

lemma distinct_concat_nth:
  "distinct (concat xss) \<Longrightarrow> a < b \<Longrightarrow> b < length xss \<Longrightarrow> x \<in> set (xss ! a) \<Longrightarrow> x \<notin> set (xss ! b)"
proof (induction xss arbitrary: a b)
  case (Cons xs xss)
  obtain b' where b: "b = Suc b'" using Cons.prems(2) by (cases b) auto
  show ?case
  proof (cases a)
    case 0
    then have "x \<in> set xs" "set (xss ! b') \<subseteq> set (concat xss)" using Cons.prems b by auto
    then show ?thesis using Cons.prems(1) b by auto
  next
    case (Suc a')
    then show ?thesis using Cons b by simp
  qed
qed simp

lemma groups_apart:
  assumes len: "length ks = length ls" "length cs = length ls" and d: "distinct (map snd (group_pairs ls ks cs))"
    and g: "g < length ls" "h < length ls" and s: "cs ! g \<le> s" "s < cs ! g + ls ! g" "cs ! h \<le> s" "s < cs ! h + ls ! h"
  shows "g = h"
proof -
  let ?xss = "map (\<lambda>(l, k, c). map (\<lambda>i. c + i) [0..l - 1]) (zip ls (zip ks cs))"
  have "map snd (group_pairs ls ks cs) = concat ?xss"
    by (simp add: group_pairs_def map_concat comp_def case_prod_unfold)
  then have dx: "distinct (concat ?xss)" using d by simp
  have at: "s \<in> set (?xss ! x)" if "x < length ls" "cs ! x \<le> s" "s < cs ! x + ls ! x" for x
    using that len by (auto simp: image_iff intro!: bexI [of _ "s - cs ! x"])
  have n: "length ?xss = length ls" using len by simp
  show ?thesis
  proof (rule linorder_cases [of g h])
    assume "g < h"
    then show ?thesis using distinct_concat_nth [OF dx _ _ at] at [OF g(2) s(3,4)] g s n by metis
  next
    assume "h < g"
    then show ?thesis using distinct_concat_nth [OF dx _ _ at] at [OF g(1) s(1,2)] g s n by metis
  qed
qed

end
