(* ===== verification/StoreKvLaunch.thy ===== *)
theory StoreKvLaunch
  imports StoreKvGroups
begin

text \<open>
  A launch of the store kernel on all cores moves every group of tokens into the cache, in whatever
  order the cores finish, and an accepted tiling shares the groups out among the cores.
\<close>

section \<open>Setting\<close>

definition store_kv_wf :: "store_kv_tiling \<Rightarrow> int \<Rightarrow> int \<Rightarrow> int \<Rightarrow> int \<Rightarrow> int \<Rightarrow> bool" where
  "store_kv_wf t C n bs ts sz \<longleftrightarrow>
     st_tokenSize t = ts \<and> st_typeByte t = sz \<and> st_blockTableSize t = bs \<and> st_corePerNum t = n div C \<and>
     st_coreTail t = n mod C \<and> 0 < C \<and> C < U32_LIM \<and> 0 \<le> n \<and> n < U32_LIM \<and> 0 < ts \<and> 0 < bs \<and>
     sz \<in> {1, 2, 4} \<and> bs * (ts * sz) < U32_LIM"

text \<open>The group tensors hold the groups, whose offsets in the keys and the cache are 32-bit numbers.\<close>

definition groups_loaded :: "store_kv_gm \<Rightarrow> int list \<Rightarrow> int list \<Rightarrow> int list \<Rightarrow> bool" where
  "groups_loaded gm ls ks cs \<longleftrightarrow>
     (\<forall>g<length ls. groupLenGt gm (int g) = ls ! g \<and> groupKeyIdxGt gm (int g) = ks ! g \<and>
        groupKeyCacheIdxGt gm (int g) = cs ! g)"

definition groups_fit :: "int list \<Rightarrow> int list \<Rightarrow> int list \<Rightarrow> int \<Rightarrow> int \<Rightarrow> bool" where
  "groups_fit ls ks cs bs ts \<longleftrightarrow> length ks = length ls \<and> length cs = length ls \<and>
     (\<forall>g<length ls. 1 \<le> ls ! g \<and> ls ! g \<le> bs \<and> 0 \<le> ks ! g \<and> ks ! g * ts < U32_LIM \<and>
        0 \<le> cs ! g \<and> cs ! g * ts < U32_LIM)"

abbreviation (input) groups_moved ::
  "int list \<Rightarrow> int list \<Rightarrow> int list \<Rightarrow> int \<Rightarrow> int set \<Rightarrow> tensor \<Rightarrow> tensor \<Rightarrow> tensor \<Rightarrow> bool" where
  "groups_moved ls ks cs ts \<equiv>
     segs_moved (\<lambda>g. ls ! nat g * ts) (\<lambda>g. ks ! nat g * ts) (\<lambda>g. cs ! nat g * ts)"

lemma div_between:
  fixes a b i d :: int
  assumes d: "0 < d" and "a * d \<le> i" "i < b * d"
  shows "a \<le> i div d \<and> i div d < b"
proof
  show "a \<le> i div d" using zdiv_mono1 [OF assms(2) d] d by simp
  have "i div d * d \<le> i" using d by (simp add: div_mult_mod_eq [symmetric] minus_mod_eq_div_mult [symmetric])
  then have "i div d * d < b * d" using assms(3) by linarith
  then show "i div d < b" using d by simp
qed

lemma groups_disjoint:
  assumes fit: "groups_fit ls ks cs bs ts" and ts: "0 < ts" and d: "distinct (map snd (group_pairs ls ks cs))"
  shows "segs_disjoint (\<lambda>g. ls ! nat g * ts) (\<lambda>g. cs ! nat g * ts) {0..<int (length ls)}"
  unfolding segs_disjoint_def
proof (intro ballI allI impI notI)
  fix g h i assume gh: "g \<in> {0..<int (length ls)}" "h \<in> {0..<int (length ls)}" "g \<noteq> h"
    and i: "in_seg (\<lambda>g. ls ! nat g * ts) (\<lambda>g. cs ! nat g * ts) g i" "in_seg (\<lambda>g. ls ! nat g * ts) (\<lambda>g. cs ! nat g * ts) h i"
  have at: "cs ! nat x \<le> i div ts \<and> i div ts < cs ! nat x + ls ! nat x"
    if "in_seg (\<lambda>g. ls ! nat g * ts) (\<lambda>g. cs ! nat g * ts) x i" for x
  proof -
    have "cs ! nat x * ts \<le> i" "i < (cs ! nat x + ls ! nat x) * ts" using that by (auto simp: in_seg_def algebra_simps)
    then show ?thesis using div_between [OF ts] by blast
  qed
  have "nat g = nat h"
    by (rule groups_apart [OF _ _ d, where s = "i div ts"]) (use gh at [OF i(1)] at [OF i(2)] fit in \<open>auto simp: groups_fit_def nat_less_iff\<close>)
  then show False using gh by auto
qed

section \<open>One group\<close>

lemma store_kv_group_moves:
  assumes pd: "payload_copies pd" and wf: "store_kv_wf t C n bs ts sz" and fit: "groups_fit ls ks cs bs ts"
    and ld: "groups_loaded gm ls ks cs" and n: "n = int (length ls)"
    and b: "0 \<le> b" "b < C" and i: "0 \<le> i" "b + i * C < n"
  shows "\<exists>ub' c. store_kv_group pd sz (bs * (ts * sz)) (store_kv_Init t b C) i (gm, ub) = Some (gm\<lparr>keyCacheInputGt := c\<rparr>, ub') \<and>
    (\<forall>x. c x = (let g = nat (b + i * C) in
       if cs ! g * ts \<le> x \<and> x < cs ! g * ts + ls ! g * ts then keyInputGt gm (ks ! g * ts + (x - cs ! g * ts))
       else keyCacheInputGt gm x))"
proof -
  let ?kn = "store_kv_Init t b C" and ?j = "b + i * C" let ?g = "nat (b + i * C)"
  have w: "0 < C" "n < U32_LIM" "0 < ts" "0 < bs" "0 < sz" "bs * (ts * sz) < U32_LIM" using wf by (auto simp: store_kv_wf_def)
  have iC: "0 \<le> i * C" using i w by simp
  have j: "0 \<le> ?j" "?j < n" "int ?g = ?j" "?g < length ls" using b i iC n by linarith+
  have gl: "1 \<le> ls ! ?g" "ls ! ?g \<le> bs" "0 \<le> ks ! ?g" "ks ! ?g * ts < U32_LIM" "0 \<le> cs ! ?g" "cs ! ?g * ts < U32_LIM"
    using fit j(4) by (auto simp: groups_fit_def)
  have gm: "groupLenGt gm ?j = ls ! ?g" "groupKeyIdxGt gm ?j = ks ! ?g" "groupKeyCacheIdxGt gm ?j = cs ! ?g"
    using ld j(3,4) unfolding groups_loaded_def by metis+
  have tsz: "0 < ts * sz" using w by simp
  have le: "1 * (ts * sz) \<le> bs * (ts * sz)" "ls ! ?g * (ts * sz) \<le> bs * (ts * sz)"
    using w gl tsz by (auto intro!: mult_right_mono)
  have ub: "u32 (ts * sz) = ts * sz" by (rule u32_id) (use le w tsz in linarith)+
  have kn: "sk_coreId ?kn = b" "sk_blockNum ?kn = C" "sk_tokenSize ?kn = ts" "sk_tokenByteSize ?kn = ts * sz"
    using wf ub by (simp_all add: store_kv_Init_def store_kv_wf_def)
  have lsz: "0 \<le> ls ! ?g * (ts * sz)" using gl tsz by simp
  have u: "u32 (i * C) = i * C" "u32 ?j = ?j" "u32 (ls ! ?g * (ts * sz)) = ls ! ?g * (ts * sz)"
    "u32 (ks ! ?g * ts) = ks ! ?g * ts" "u32 (cs ! ?g * ts) = cs ! ?g * ts"
    by (rule u32_id; use iC j w le b gl lsz in \<open>(simp; fail)?, linarith?\<close>)+
  have el: "ls ! ?g * (ts * sz) div sz = ls ! ?g * ts" using w by (simp add: mult.assoc [symmetric])
  have pos: "0 < ls ! ?g * ts" using gl w by simp
  let ?ub = "pd_in pd ub 0 (keyInputGt gm) (ks ! ?g * ts) (ls ! ?g * ts)"
  let ?c = "pd_out pd (keyCacheInputGt gm) (cs ! ?g * ts) ?ub 0 (ls ! ?g * ts)"
  have "store_kv_group pd sz (bs * (ts * sz)) ?kn i (gm, ub) = Some (gm\<lparr>keyCacheInputGt := ?c\<rparr>, ?ub)"
    using le(2) by (simp add: store_kv_group_def Let_def kn u gm el)
  then show ?thesis
    unfolding Let_def by (intro exI conjI allI) (assumption, rule payload_copies.move_segment [OF pd pos])
qed

section \<open>All groups\<close>

lemma store_kv_core_moves:
  assumes pd: "payload_copies pd" and wf: "store_kv_wf t C n bs ts sz" and fit: "groups_fit ls ks cs bs ts"
    and ld: "groups_loaded gm ls ks cs" and n: "n = int (length ls)" and ub: "bs * (ts * sz) \<le> ubSize"
    and d: "distinct (map snd (group_pairs ls ks cs))" and b: "0 \<le> b" "b < C" "b \<notin> D"
    and c: "groups_moved ls ks cs ts (stride_items n C D) (keyCacheInputGt gm) (keyInputGt gm) c"
  shows "\<exists>c' ub'. store_kv_block pd ubSize sz t b C (gm\<lparr>keyCacheInputGt := c\<rparr>, ub) = Some (gm\<lparr>keyCacheInputGt := c'\<rparr>, ub') \<and>
    groups_moved ls ks cs ts (stride_items n C (insert b D)) (keyCacheInputGt gm) (keyInputGt gm) c'"
proof -
  let ?kn = "store_kv_Init t b C"
  let ?M = "\<lambda>j. groups_moved ls ks cs ts (stride_done n C D b j) (keyCacheInputGt gm) (keyInputGt gm)"
  have w: "0 < C" "n < U32_LIM" "0 \<le> n" "0 < ts" "0 < bs" "0 < ts * sz" "bs * (ts * sz) < U32_LIM" using wf by (auto simp: store_kv_wf_def)
  have "1 * (ts * sz) \<le> bs * (ts * sz)" using w by (intro mult_right_mono) auto
  then have "u32 (ts * sz) = ts * sz" "u32 (bs * (ts * sz)) = bs * (ts * sz)" using w by (intro u32_id; linarith)+
  then have buf: "u32 (sk_blockTableSize ?kn * sk_tokenByteSize ?kn) = bs * (ts * sz)"
    using wf by (simp add: store_kv_Init_def store_kv_wf_def)
  have cnt: "sk_corePerNum ?kn = n div C + (if b < n mod C then 1 else 0)" (is "_ = ?cnt")
  proof -
    have "0 \<le> n div C" using w by (simp add: pos_imp_zdiv_nonneg_iff)
    moreover have "n div C + 1 < U32_LIM" if "b < n mod C"
    proof -
      have "C \<noteq> 1" using that b by auto
      then have "2 \<le> C" using w by simp
      then have "n div C \<le> n div 2" using w by (intro zdiv_mono2) auto
      then show ?thesis using w by linarith
    qed
    ultimately show ?thesis using wf by (simp add: store_kv_Init_def store_kv_wf_def u32_id)
  qed
  have dis: "segs_disjoint (\<lambda>g. ls ! nat g * ts) (\<lambda>g. cs ! nat g * ts) {0..<n}"
    unfolding n by (rule groups_disjoint [OF fit w(4) d])
  have "\<exists>st. for_opt 0 ?cnt (store_kv_group pd sz (bs * (ts * sz)) ?kn) (gm\<lparr>keyCacheInputGt := c\<rparr>, ub) = Some st \<and>
      (\<exists>c' ub'. st = (gm\<lparr>keyCacheInputGt := c'\<rparr>, ub') \<and> ?M (b + ?cnt * C) c')"
  proof (rule for_opt_inv [where P = "\<lambda>i st. \<exists>c' ub'. st = (gm\<lparr>keyCacheInputGt := c'\<rparr>, ub') \<and> ?M (b + i * C) c'"])
    show "0 \<le> ?cnt" using w by (simp add: pos_imp_zdiv_nonneg_iff)
    show "\<exists>c' ub'. (gm\<lparr>keyCacheInputGt := c\<rparr>, ub) = (gm\<lparr>keyCacheInputGt := c'\<rparr>, ub') \<and> ?M (b + 0 * C) c'"
      using c w by (auto simp: stride_done_start)
  next
    fix i and st :: "store_kv_gm \<times> tensor"
    assume i: "0 \<le> i" "i < ?cnt" and "\<exists>c' ub'. st = (gm\<lparr>keyCacheInputGt := c'\<rparr>, ub') \<and> ?M (b + i * C) c'"
    then obtain c1 ub1 where st: "st = (gm\<lparr>keyCacheInputGt := c1\<rparr>, ub1)" and m: "?M (b + i * C) c1" by blast
    let ?j = "b + i * C"
    have j: "?j < n" using stride_count [OF b(1,2) i(1) w(3)] i(2) by simp
    have j0: "0 \<le> ?j" "?j mod C = b" using b i w by auto
    have ld': "groups_loaded (gm\<lparr>keyCacheInputGt := c1\<rparr>) ls ks cs" using ld by (simp add: groups_loaded_def)
    obtain ub2 c2 where run: "store_kv_group pd sz (bs * (ts * sz)) ?kn i st = Some (gm\<lparr>keyCacheInputGt := c2\<rparr>, ub2)"
      and c2: "\<And>x. c2 x = (if cs ! nat ?j * ts \<le> x \<and> x < cs ! nat ?j * ts + ls ! nat ?j * ts
        then keyInputGt gm (ks ! nat ?j * ts + (x - cs ! nat ?j * ts)) else c1 x)"
      using store_kv_group_moves [OF pd wf fit ld' n b(1,2) i(1) j, of ub1] unfolding st Let_def by auto
    have "groups_moved ls ks cs ts (insert ?j (stride_done n C D b ?j)) (keyCacheInputGt gm) (keyInputGt gm) c2"
      by (rule segs_moved_more [OF m dis stride_done_below _ _ c2]) (use j j0 b(3) in \<open>auto simp: stride_done_fresh\<close>)
    then have "?M (?j + C) c2" unfolding stride_done_step [OF w(1) j0(1) j j0(2)] .
    moreover have "b + (i + 1) * C = ?j + C" by (simp add: algebra_simps)
    ultimately have "?M (b + (i + 1) * C) c2" by (simp only:)
    then show "\<exists>t'. store_kv_group pd sz (bs * (ts * sz)) ?kn i st = Some t' \<and>
        (\<exists>c' ub'. t' = (gm\<lparr>keyCacheInputGt := c'\<rparr>, ub') \<and> ?M (b + (i + 1) * C) c')" using run by blast
  qed
  then obtain c' ub' where run: "for_opt 0 ?cnt (store_kv_group pd sz (bs * (ts * sz)) ?kn) (gm\<lparr>keyCacheInputGt := c\<rparr>, ub) =
      Some (gm\<lparr>keyCacheInputGt := c'\<rparr>, ub')" and m: "?M (b + ?cnt * C) c'" by blast
  have "\<not> b + ?cnt * C < n" using stride_count [OF b(1,2) _ w(3), of ?cnt] w by (simp add: pos_imp_zdiv_nonneg_iff)
  then have "groups_moved ls ks cs ts (stride_items n C (insert b D)) (keyCacheInputGt gm) (keyInputGt gm) c'"
    using m stride_done_end [of n "b + ?cnt * C"] by simp
  moreover have "store_kv_block pd ubSize sz t b C (gm\<lparr>keyCacheInputGt := c\<rparr>, ub) = Some (gm\<lparr>keyCacheInputGt := c'\<rparr>, ub')"
  proof -
    have "store_kv_Process pd ubSize sz ?kn (gm\<lparr>keyCacheInputGt := c\<rparr>, ub) = Some (gm\<lparr>keyCacheInputGt := c'\<rparr>, ub')"
      using ub run unfolding store_kv_Process_def Let_def buf cnt by simp
    moreover have "sz \<in> {1, 2, 4}" using wf by (simp add: store_kv_wf_def)
    ultimately show ?thesis by (auto simp: store_kv_block_def Let_def)
  qed
  ultimately show ?thesis by blast
qed

lemma store_kv_launch_moves:
  assumes pd: "payload_copies pd" and wf: "store_kv_wf t C n bs ts sz" and fit: "groups_fit ls ks cs bs ts"
    and ld: "groups_loaded gm ls ks cs" and n: "n = int (length ls)" and ub: "bs * (ts * sz) \<le> ubSize"
    and d: "distinct (map snd (group_pairs ls ks cs))" and order: "distinct order" "set order = {0..<C}"
  shows "\<exists>c. store_kv_launch pd ubSize sz t C order ubs gm = Some (gm\<lparr>keyCacheInputGt := c\<rparr>) \<and>
    groups_moved ls ks cs ts {0..<n} (keyCacheInputGt gm) (keyInputGt gm) c"
proof -
  let ?M = "\<lambda>D. groups_moved ls ks cs ts (stride_items n C D) (keyCacheInputGt gm) (keyInputGt gm)"
  have "\<exists>g. store_kv_launch pd ubSize sz t C order ubs gm = Some g \<and> (\<exists>c. g = gm\<lparr>keyCacheInputGt := c\<rparr> \<and> ?M (set order) c)"
    unfolding store_kv_launch_def
  proof (rule fold_opt_inv [where P = "\<lambda>bs g. \<exists>c. g = gm\<lparr>keyCacheInputGt := c\<rparr> \<and> ?M (set bs) c"])
    show "\<exists>c. gm = gm\<lparr>keyCacheInputGt := c\<rparr> \<and> ?M (set []) c"
      by (intro exI [of _ "keyCacheInputGt gm"]) (simp add: segs_moved_none)
  next
    fix pre b rest g assume o: "order = pre @ b # rest" and "\<exists>c. g = gm\<lparr>keyCacheInputGt := c\<rparr> \<and> ?M (set pre) c"
    then obtain c where g: "g = gm\<lparr>keyCacheInputGt := c\<rparr>" and c: "?M (set pre) c" by blast
    have b: "0 \<le> b" "b < C" "b \<notin> set pre" using o order by auto
    from store_kv_core_moves [OF pd wf fit ld n ub d b c, of "ubs b"]
    show "\<exists>g'. map_option fst (store_kv_block pd ubSize sz t b C (g, ubs b)) = Some g' \<and>
        (\<exists>c. g' = gm\<lparr>keyCacheInputGt := c\<rparr> \<and> ?M (set (pre @ [b])) c)"
      unfolding g by auto
  qed
  moreover have "stride_items n C (set order) = {0..<n}" using wf order by (intro stride_items_all) (auto simp: store_kv_wf_def)
  ultimately show ?thesis by auto
qed

end
