(* ===== verification/StoreKvProperties.thy ===== *)
theory StoreKvProperties
  imports StoreKvLaunch
begin

text \<open>The properties of storing keys into the paged cache.\<close>

section \<open>Accepted tilings\<close>






definition zero_tiling :: store_kv_tiling where
  "zero_tiling = \<lparr>st_blockTableSize = 0, st_typeByte = 0, st_tokenSize = 0, st_corePerNum = 0, st_coreTail = 0,
     st_numTokens = 0, st_numCache = 0, st_groupInfoLen = 0\<rparr>"



section \<open>Tokens and slots\<close>





lemma store_kv_block_pre_groups:
  assumes "slots_fit slots bs" "honest_runs slots" and pre: "store_kv_block_pre slots bs = Some (ls, ks, cs)"
  shows "length ks = length ls" "length cs = length ls" "length ls \<le> length slots"
    "group_pairs ls ks cs = token_slots slots (int (length slots))"
    "list_all2 (\<lambda>l c. 1 \<le> l \<and> 0 \<le> c \<and> c mod bs + l \<le> bs) ls cs"
proof -
  obtain ls' ks' cs' where r: "store_kv_block_pre slots bs = Some (ls', ks', cs')" "length ks' = length ls'" "length cs' = length ls'"
      "length ls' \<le> length slots" "group_pairs ls' ks' cs' = token_slots slots (int (length slots))"
      "list_all2 (\<lambda>l c. 1 \<le> l \<and> 0 \<le> c \<and> c mod bs + l \<le> bs) ls' cs'"
    using store_kv_block_pre_ok [OF assms(1,2)] by blast
  have e: "ls' = ls" "ks' = ks" "cs' = cs" using pre r(1) by simp_all
  show "length ks = length ls" "length cs = length ls" "length ls \<le> length slots"
    "group_pairs ls ks cs = token_slots slots (int (length slots))"
    "list_all2 (\<lambda>l c. 1 \<le> l \<and> 0 \<le> c \<and> c mod bs + l \<le> bs) ls cs"
    using r(2-6) unfolding e by blast+
qed

section \<open>Properties\<close>


definition store_example_slots :: "int list" where
  "store_example_slots = [4, 5, 6, 9, -1]"

lemma store_example_slots_ok: "slots_fit store_example_slots 8" "honest_runs store_example_slots"
proof -
  show "slots_fit store_example_slots 8" by (simp add: slots_fit_def store_example_slots_def)
  have "honest_runs ([4, 5, 6, 9] @ [-1])" by (rule increasing_honest) auto
  then show "honest_runs store_example_slots" by (simp add: store_example_slots_def)
qed

lemma store_example_groups: "store_kv_block_pre store_example_slots 8 = Some ([2, 1, 1], [0, 2, 3], [4, 6, 9])"
  by code_simp


text \<open>
  No group is empty and none leaves the cache block of its first
  slot, so the token buffer of one block holds the tokens of any group.
\<close>
theorem store_kv_groups_in_block:
  assumes "slots_fit slots bs" "honest_runs slots" "store_kv_block_pre slots bs = Some (ls, ks, cs)" "g < length ls"
  shows "1 \<le> ls ! g \<and> cs ! g mod bs + ls ! g \<le> bs"
  using store_kv_block_pre_groups [OF assms(1-3)] assms(4) by (simp add: list_all2_conv_all_nth)

theorem store_kv_groups_in_block_witness: "(4::int) mod 8 + [2, 1, 1] ! 0 \<le> (8::int)"
  using store_kv_groups_in_block [OF store_example_slots_ok store_example_groups, of 0] by simp


definition store_example_context :: store_kv_context where
  "store_example_context = \<lparr>sc_coreNum = Some 2, sc_libApiWorkSpaceSize = 0, sc_kShape = [5, 1, 16],
     sc_kCacheShape = [2, 8, 1, 16], sc_groupInfoShape = [3], sc_block_size = 8, sc_dtype = KV_FLOAT16\<rparr>"

definition store_example_tiling :: store_kv_tiling where
  "store_example_tiling = \<lparr>st_blockTableSize = 8, st_typeByte = 2, st_tokenSize = 16, st_corePerNum = 1, st_coreTail = 1,
     st_numTokens = 5, st_numCache = 16, st_groupInfoLen = 3\<rparr>"





text \<open>
  The tail of the division of the groups among the cores is only
  passed on when it is less than 48: on a platform with 50 cores, 49 groups are accepted, and no
  core gets a group to store.
\<close>
theorem store_kv_tail_dropped:
  "\<exists>t ws. StoreKVBlockTilingFunc zero_tiling (store_example_context\<lparr>sc_coreNum := Some 50, sc_groupInfoShape := [49]\<rparr>) =
       Some (GRAPH_SUCCESS (t, ws, 2, 50)) \<and> (\<lambda>b. sk_corePerNum (store_kv_Init t b 50)) ` {0..<50} = {0}"
proof -
  have "StoreKVBlockTilingFunc zero_tiling (store_example_context\<lparr>sc_coreNum := Some 50, sc_groupInfoShape := [49]\<rparr>) =
      Some (GRAPH_SUCCESS (store_example_tiling\<lparr>st_corePerNum := 0, st_coreTail := 0, st_groupInfoLen := 49\<rparr>, 0, 2, 50))"
    by code_simp
  moreover have "(\<lambda>b. sk_corePerNum (store_kv_Init (store_example_tiling\<lparr>st_corePerNum := 0, st_coreTail := 0, st_groupInfoLen := 49\<rparr>) b 50)) `
      {0..<50} = (\<lambda>_. 0) ` {0..<50::int}"
    by (rule image_cong) (auto simp: store_kv_Init_def)
  moreover have "(\<lambda>_. 0) ` {0..<50::int} = {0::int}" by (rule image_constant [of 0]) simp
  ultimately show ?thesis by auto
qed

text \<open>
  The tiling compares the number of elements of a block with the
  size of UB in bytes: blocks of 128 tokens with 8 heads of 128 two-byte elements are accepted,
  and their token buffer of 256 KiB does not fit the 192 KiB of UB, on any core and any data.
\<close>
theorem store_kv_buffer_too_large:
  "\<exists>t ws. StoreKVBlockTilingFunc zero_tiling
        (store_example_context\<lparr>sc_kShape := [5, 8, 128], sc_kCacheShape := [2, 128, 8, 128], sc_block_size := 128\<rparr>) =
       Some (GRAPH_SUCCESS (t, ws, 2, 2)) \<and> (\<forall>pd b st. store_kv_block pd 196608 2 t b 2 st = None)"
proof -
  have "StoreKVBlockTilingFunc zero_tiling
        (store_example_context\<lparr>sc_kShape := [5, 8, 128], sc_kCacheShape := [2, 128, 8, 128], sc_block_size := 128\<rparr>) =
      Some (GRAPH_SUCCESS (store_example_tiling\<lparr>st_blockTableSize := 128, st_tokenSize := 1024, st_numCache := 256\<rparr>, 0, 2, 2))"
    by code_simp
  then show ?thesis
    by (auto simp: store_kv_block_def store_kv_Process_def store_kv_Init_def store_example_tiling_def u32_def)
qed

end
