(* ===== verification/Gather.thy ===== *)
theory Gather
  imports KvDma
begin

text \<open>
  Gathering KV cache pages (\<^verbatim>\<open>csrc/attention/kv_cache_block_gather\<close>): the tiling function with
  all its checks, and the kernel that copies one page per (source, destination) pair, tile by tile
  through UB, the pairs shared out among the cores in strides. Element counts are unbounded
  integers: the 64-bit products of the source are exact for tensors that exist.
\<close>

section \<open>Tiling\<close>

datatype gather_dtype = GD_FLOAT | GD_FLOAT16 | GD_BF16 | GD_INT8 | GD_INT32 | GD_OTHER

text \<open>What the tiling context answers; \<^term>\<open>None\<close> stands for a null pointer.\<close>

record gather_context =
  gc_platform :: "int option"
    \<comment> \<open>the number of vector cores\<close>
  gc_srcBlockIdsShape :: "int list option"
  gc_srcPagesShape :: "int list option"
  gc_dstBlockIdsShape :: "int list option"
  gc_outShape :: "int list option"
  gc_srcBlockIdsDtype :: "gather_dtype option"
  gc_srcPagesDtype :: "gather_dtype option"
  gc_dstBlockIdsDtype :: "gather_dtype option"
  gc_outDtype :: "gather_dtype option"
  gc_workspaceSizes :: bool
    \<comment> \<open>whether the workspace size can be set\<close>
  gc_tilingData :: bool
    \<comment> \<open>whether the tiling data exists and can be cleared\<close>

definition gather_GetPlatformInfo :: "gather_context \<Rightarrow> int graph_status" where
  "gather_GetPlatformInfo c =
     (case gc_platform c of None \<Rightarrow> GRAPH_FAILED | Some coreNum \<Rightarrow> if coreNum = 0 then GRAPH_FAILED else GRAPH_SUCCESS coreNum)"

abbreviation (input) WS_SYS_SIZE :: int where
  "WS_SYS_SIZE \<equiv> 16777216"

definition gather_GetWorkspaceSize :: "gather_context \<Rightarrow> int graph_status" where
  "gather_GetWorkspaceSize c = (if gc_workspaceSizes c then GRAPH_SUCCESS WS_SYS_SIZE else GRAPH_FAILED)"

definition gather_GetShapeInfo :: "gather_context \<Rightarrow> (int \<times> int) graph_status option" where
  "gather_GetShapeInfo c =
     (case (gc_srcBlockIdsShape c, gc_srcPagesShape c, gc_dstBlockIdsShape c, gc_outShape c) of
        (Some srcIds, Some srcPages, Some dstIds, Some out) \<Rightarrow>
          if length srcIds \<noteq> 1 then Some GRAPH_FAILED
          else if length dstIds \<noteq> 1 then Some GRAPH_FAILED
          else if length out < 1 then Some GRAPH_FAILED
          else do {
            selectedBlocks \<leftarrow> vget srcIds 0;
            if selectedBlocks \<le> 0 then Some GRAPH_FAILED
            else do {
              d0 \<leftarrow> vget dstIds 0;
              if d0 \<noteq> selectedBlocks then Some GRAPH_FAILED
              else do {
                let outElems = fold (\<lambda>d n. n * d) out 1;
                dstBlocks \<leftarrow> vget out 0;
                if dstBlocks \<le> 0 then Some GRAPH_FAILED
                else if tmod outElems dstBlocks \<noteq> 0 then Some GRAPH_FAILED
                else do {
                  let elemsPerBlock = tdiv outElems dstBlocks;
                  if elemsPerBlock \<le> 0 then Some GRAPH_FAILED
                  else if tmod elemsPerBlock 8 \<noteq> 0 then Some GRAPH_FAILED
                  else do {
                    let srcElems = fold (\<lambda>d n. n * d) srcPages 1;
                    if srcElems < elemsPerBlock then Some GRAPH_FAILED
                    else if tmod srcElems elemsPerBlock \<noteq> 0 then Some GRAPH_FAILED
                    else Some (GRAPH_SUCCESS (selectedBlocks, elemsPerBlock)) } } } } }
      | _ \<Rightarrow> Some GRAPH_FAILED)"

definition IsSupportedPayloadDtype :: "gather_dtype \<Rightarrow> bool" where
  "IsSupportedPayloadDtype dtype \<longleftrightarrow> dtype = GD_FLOAT \<or> dtype = GD_FLOAT16 \<or> dtype = GD_BF16 \<or> dtype = GD_INT8"

definition GetDataCopyAlignmentElems :: "gather_dtype \<Rightarrow> int" where
  "GetDataCopyAlignmentElems dtype =
     (if dtype = GD_FLOAT then 32 div 4 else if dtype = GD_FLOAT16 \<or> dtype = GD_BF16 then 32 div 2 else 32 div 1)"

definition gather_CheckDtypes :: "gather_context \<Rightarrow> gather_dtype graph_status" where
  "gather_CheckDtypes c =
     (case (gc_srcBlockIdsDtype c, gc_srcPagesDtype c, gc_dstBlockIdsDtype c, gc_outDtype c) of
        (Some srcIds, Some payloadDtype, Some dstIds, Some out) \<Rightarrow>
          if srcIds \<noteq> GD_INT32 then GRAPH_FAILED
          else if dstIds \<noteq> GD_INT32 then GRAPH_FAILED
          else if \<not> IsSupportedPayloadDtype payloadDtype then GRAPH_FAILED
          else if out \<noteq> payloadDtype then GRAPH_FAILED
          else GRAPH_SUCCESS payloadDtype
      | _ \<Rightarrow> GRAPH_FAILED)"

definition GetTilingKeyByDtype :: "gather_dtype \<Rightarrow> int" where
  "GetTilingKeyByDtype payloadDtype =
     (if payloadDtype = GD_FLOAT16 then 2 else if payloadDtype = GD_BF16 then 3
      else if payloadDtype = GD_INT8 then 4 else 1)"

record gather_tiling =
  gt_selectedBlocks :: int
  gt_elemsPerBlock :: int
  gt_tileElems :: int

abbreviation (input) DEFAULT_TILE_ELEMS :: int where
  "DEFAULT_TILE_ELEMS \<equiv> 1024"

text \<open>The result is the tiling data, the block dimension, the tiling key and the workspace size.\<close>

definition KvCacheBlockGatherTilingFunc :: "gather_context \<Rightarrow> (gather_tiling \<times> int \<times> int \<times> int) graph_status option" where
  "KvCacheBlockGatherTilingFunc c =
     (case gather_GetPlatformInfo c of GRAPH_FAILED \<Rightarrow> Some GRAPH_FAILED
      | GRAPH_SUCCESS coreNum \<Rightarrow>
     (case gather_CheckDtypes c of GRAPH_FAILED \<Rightarrow> Some GRAPH_FAILED
      | GRAPH_SUCCESS payloadDtype \<Rightarrow>
        do {
          ret \<leftarrow> gather_GetShapeInfo c;
          (case ret of GRAPH_FAILED \<Rightarrow> Some GRAPH_FAILED
           | GRAPH_SUCCESS (selectedBlocks, elemsPerBlock) \<Rightarrow>
             let alignmentElems = GetDataCopyAlignmentElems payloadDtype
             in if tmod elemsPerBlock alignmentElems \<noteq> 0 then Some GRAPH_FAILED
                else (case gather_GetWorkspaceSize c of GRAPH_FAILED \<Rightarrow> Some GRAPH_FAILED
                      | GRAPH_SUCCESS ws \<Rightarrow>
                        if \<not> gc_tilingData c then Some GRAPH_FAILED
                        else let blockDim = min coreNum selectedBlocks
                             in Some (GRAPH_SUCCESS
                                  (\<lparr>gt_selectedBlocks = selectedBlocks, gt_elemsPerBlock = elemsPerBlock,
                                    gt_tileElems = min DEFAULT_TILE_ELEMS elemsPerBlock\<rparr>,
                                   u32 blockDim, GetTilingKeyByDtype payloadDtype, ws)))) }))"

section \<open>Kernel\<close>

record gather_gm =
  srcBlockIdsGM :: tensor
  dstBlockIdsGM :: tensor
  srcPagesGM :: tensor
  outGM :: tensor

record gather_ub =
  inputQueue :: tensor
  outputQueue :: tensor

text \<open>
  The copy loop of a page. A \<^verbatim>\<open>DataCopy\<close> moves whole 32-byte blocks; other sizes have no defined
  result. \<open>elemSize\<close> is the size of the payload type.
\<close>

partial_function (option) CopyBlock_loop ::
  "payload_dma \<Rightarrow> int \<Rightarrow> gather_tiling \<Rightarrow> int \<Rightarrow> int \<Rightarrow> int \<Rightarrow> gather_gm \<times> gather_ub \<Rightarrow> (gather_gm \<times> gather_ub) option" where
  "CopyBlock_loop pd elemSize t srcBase dstBase copied st =
     (if copied < gt_elemsPerBlock t
      then (let remain = gt_elemsPerBlock t - copied;
                copyElems = (if remain < gt_tileElems t then remain else gt_tileElems t)
            in if copyElems * elemSize mod 32 \<noteq> 0 then None
               else (let gm = fst st; ub = snd st;
                         inLocal = pd_in pd (inputQueue ub) 0 (srcPagesGM gm) (srcBase + copied) copyElems;
                         outLocal = pd_local pd (outputQueue ub) inLocal copyElems;
                         out = pd_out pd (outGM gm) (dstBase + copied) outLocal 0 copyElems
                     in CopyBlock_loop pd elemSize t srcBase dstBase (copied + copyElems)
                          (gm\<lparr>outGM := out\<rparr>, ub\<lparr>inputQueue := inLocal, outputQueue := outLocal\<rparr>)))
      else Some st)"

definition CopyBlock ::
  "payload_dma \<Rightarrow> int \<Rightarrow> gather_tiling \<Rightarrow> int \<Rightarrow> gather_gm \<times> gather_ub \<Rightarrow> (gather_gm \<times> gather_ub) option" where
  "CopyBlock pd elemSize t pairIdx st =
     (let srcPageIdx = srcBlockIdsGM (fst st) pairIdx;
          dstPageIdx = dstBlockIdsGM (fst st) pairIdx;
          srcBase = srcPageIdx * gt_elemsPerBlock t;
          dstBase = dstPageIdx * gt_elemsPerBlock t
      in CopyBlock_loop pd elemSize t srcBase dstBase 0 st)"

partial_function (option) gather_Process_loop ::
  "payload_dma \<Rightarrow> int \<Rightarrow> gather_tiling \<Rightarrow> int \<Rightarrow> int \<Rightarrow> gather_gm \<times> gather_ub \<Rightarrow> (gather_gm \<times> gather_ub) option" where
  "gather_Process_loop pd elemSize t blockNum pair st =
     (if pair < gt_selectedBlocks t
      then do { st' \<leftarrow> CopyBlock pd elemSize t pair st; gather_Process_loop pd elemSize t blockNum (pair + blockNum) st' }
      else Some st)"

declare CopyBlock_loop.simps [code] gather_Process_loop.simps [code]

definition gather_Process ::
  "payload_dma \<Rightarrow> int \<Rightarrow> gather_tiling \<Rightarrow> int \<Rightarrow> int \<Rightarrow> gather_gm \<times> gather_ub \<Rightarrow> (gather_gm \<times> gather_ub) option" where
  "gather_Process pd elemSize t blockIdx blockNum st = gather_Process_loop pd elemSize t blockNum blockIdx st"

text \<open>The kernel entry: the tiling key selects the payload type.\<close>

definition kv_cache_block_gather ::
  "payload_dma \<Rightarrow> int \<Rightarrow> gather_tiling \<Rightarrow> int \<Rightarrow> int \<Rightarrow> gather_gm \<times> gather_ub \<Rightarrow> (gather_gm \<times> gather_ub) option" where
  "kv_cache_block_gather pd schMode t blockIdx blockNum st =
     (if schMode = 1 then gather_Process pd 4 t blockIdx blockNum st
      else if schMode = 2 then gather_Process pd 2 t blockIdx blockNum st
      else if schMode = 3 then gather_Process pd 2 t blockIdx blockNum st
      else if schMode = 4 then gather_Process pd 1 t blockIdx blockNum st
      else Some st)"

text \<open>A launch on the cores of \<open>order\<close>, each with its own UB, finishing in that order.\<close>

definition gather_launch ::
  "payload_dma \<Rightarrow> int \<Rightarrow> gather_tiling \<Rightarrow> int \<Rightarrow> int list \<Rightarrow> (int \<Rightarrow> gather_ub) \<Rightarrow> gather_gm \<Rightarrow> gather_gm option" where
  "gather_launch pd schMode t blockNum order ubs gm =
     fold_opt (\<lambda>b g. map_option fst (kv_cache_block_gather pd schMode t b blockNum (g, ubs b))) order gm"

end
