(* ===== verification/GatherProperties.thy ===== *)
theory GatherProperties
  imports Gather
begin

text \<open>Gathering pages is correct: what accepted tilings are like, and what a launch leaves in the output.\<close>

section \<open>One page\<close>

definition tile_ok :: "gather_tiling \<Rightarrow> int \<Rightarrow> bool" where
  "tile_ok t sz \<longleftrightarrow> 0 < gt_tileElems t \<and> 32 dvd gt_tileElems t * sz \<and> 32 dvd gt_elemsPerBlock t * sz"

text \<open>The rest of a page is copied, and nothing else is written.\<close>

lemma CopyBlock_loop_copies:
  assumes pd: "payload_queues pd" and t: "tile_ok t sz" and c: "0 \<le> copied" "copied \<le> gt_elemsPerBlock t" "32 dvd copied * sz"
  shows "\<exists>out ub'. CopyBlock_loop pd sz t sb db copied (gm, ub) = Some (gm\<lparr>outGM := out\<rparr>, ub') \<and>
    (\<forall>i. out i = (if db + copied \<le> i \<and> i < db + gt_elemsPerBlock t then srcPagesGM gm (sb + (i - db)) else outGM gm i))"
  using c
proof (induction "nat (gt_elemsPerBlock t - copied)" arbitrary: copied gm ub rule: less_induct)
  case less
  let ?e = "gt_elemsPerBlock t" and ?n = "if gt_elemsPerBlock t - copied < gt_tileElems t then gt_elemsPerBlock t - copied else gt_tileElems t"
  show ?case
  proof (cases "copied < ?e")
    case True
    have n: "0 < ?n" "copied + ?n \<le> ?e" using True t by (auto simp: tile_ok_def)
    have d: "32 dvd ?n * sz"
    proof (cases "?e - copied < gt_tileElems t")
      case True
      have "32 dvd ?e * sz - copied * sz" using t less.prems(3) by (intro dvd_diff) (auto simp: tile_ok_def)
      then show ?thesis using True by (simp add: left_diff_distrib)
    next
      case False
      then show ?thesis using t by (simp add: tile_ok_def)
    qed
    define inL where "inL = pd_in pd (inputQueue ub) 0 (srcPagesGM gm) (sb + copied) ?n"
    define outL where "outL = pd_local pd (outputQueue ub) inL ?n"
    define out1 where "out1 = pd_out pd (outGM gm) (db + copied) outL 0 ?n"
    let ?gm = "gm\<lparr>outGM := out1\<rparr>" and ?ub = "ub\<lparr>inputQueue := inL, outputQueue := outL\<rparr>"
    have o1: "out1 i = (if db + copied \<le> i \<and> i < db + copied + ?n then srcPagesGM gm (sb + copied + (i - (db + copied))) else outGM gm i)" for i
      unfolding out1_def outL_def inL_def by (rule payload_queues.move_through [OF pd n(1)])
    have step: "CopyBlock_loop pd sz t sb db copied (gm, ub) = CopyBlock_loop pd sz t sb db (copied + ?n) (?gm, ?ub)"
      using True d by (subst CopyBlock_loop.simps) (simp only: Let_def fst_conv snd_conv if_True if_False inL_def outL_def out1_def dvd_imp_mod_0 simp_thms)
    have "32 dvd (copied + ?n) * sz" using less.prems(3) d by (simp only: distrib_right dvd_add)
    then obtain out ub' where run: "CopyBlock_loop pd sz t sb db (copied + ?n) (?gm, ?ub) = Some (?gm\<lparr>outGM := out\<rparr>, ub')"
      and out: "\<And>i. out i = (if db + (copied + ?n) \<le> i \<and> i < db + ?e then srcPagesGM ?gm (sb + (i - db)) else outGM ?gm i)"
      using less.hyps [of "copied + ?n" ?gm ?ub] n less.prems(1) by (auto simp del: if_split)
    have "out i = (if db + copied \<le> i \<and> i < db + ?e then srcPagesGM gm (sb + (i - db)) else outGM gm i)" for i
    proof -
      have s: "sb + copied + (i - (db + copied)) = sb + (i - db)" by simp
      show ?thesis using out [of i] o1 [of i] n unfolding s by (auto simp del: if_split split: if_split)
    qed
    then show ?thesis unfolding step using run by auto
  next
    case False
    then have e: "copied = ?e" using less.prems(2) by simp
    have "CopyBlock_loop pd sz t sb db copied (gm, ub) = Some (gm, ub)" using False by (subst CopyBlock_loop.simps) (simp only: if_False)
    then show ?thesis using e by (intro exI [of _ "outGM gm"] exI [of _ ub]) auto
  qed
qed

section \<open>All pages\<close>

text \<open>The pages of \<open>S\<close> are copied to the output, the rest of the output is as before.\<close>

abbreviation (input) pages_moved :: "gather_tiling \<Rightarrow> gather_gm \<Rightarrow> int set \<Rightarrow> tensor \<Rightarrow> bool" where
  "pages_moved t gm S \<equiv> segs_moved (\<lambda>_. gt_elemsPerBlock t) (\<lambda>p. srcBlockIdsGM gm p * gt_elemsPerBlock t)
     (\<lambda>p. dstBlockIdsGM gm p * gt_elemsPerBlock t) S (outGM gm) (srcPagesGM gm)"

lemma pages_disjoint:
  assumes e: "0 < e" and d: "inj_on dst S"
  shows "segs_disjoint (\<lambda>_. e) (\<lambda>p. dst p * e) (S :: int set)"
  unfolding segs_disjoint_def
proof (intro ballI allI impI notI)
  fix p q i assume pq: "p \<in> S" "q \<in> S" "p \<noteq> q" and i: "in_seg (\<lambda>_. e) (\<lambda>p. dst p * e) p i" "in_seg (\<lambda>_. e) (\<lambda>p. dst p * e) q i"
  have at: "i div e = dst x" if "in_seg (\<lambda>_. e) (\<lambda>p. dst p * e) x i" for x
  proof -
    have "0 \<le> i - dst x * e" "i - dst x * e < e" using that by (auto simp: in_seg_def)
    then have "(dst x * e + (i - dst x * e)) div e = dst x" using e by (subst div_mult_self3) auto
    then show ?thesis by simp
  qed
  then have "dst p = dst q" using i by metis
  then show False using d pq by (auto dest: inj_onD)
qed

lemma gather_Process_loop_moves:
  assumes pd: "payload_queues pd" and t: "tile_ok t sz" "0 < gt_elemsPerBlock t" and C: "0 < C"
    and inj: "inj_on (dstBlockIdsGM gm) {0..<gt_selectedBlocks t}" and b: "0 \<le> pair" "pair mod C = b" "b \<notin> D"
    and m: "pages_moved t gm (stride_done (gt_selectedBlocks t) C D b pair) o1"
  shows "\<exists>o2 ub'. gather_Process_loop pd sz t C pair (gm\<lparr>outGM := o1\<rparr>, ub) = Some (gm\<lparr>outGM := o2\<rparr>, ub') \<and>
    pages_moved t gm (stride_items (gt_selectedBlocks t) C (insert b D)) o2"
  using b m
proof (induction "nat (gt_selectedBlocks t - pair)" arbitrary: pair o1 ub rule: less_induct)
  case less
  let ?n = "gt_selectedBlocks t" and ?e = "gt_elemsPerBlock t"
  show ?case
  proof (cases "pair < ?n")
    case True
    let ?gm = "gm\<lparr>outGM := o1\<rparr>" let ?sb = "srcBlockIdsGM gm pair * ?e" and ?db = "dstBlockIdsGM gm pair * ?e"
    obtain o2 ub2 where cp: "CopyBlock pd sz t pair (?gm, ub) = Some (gm\<lparr>outGM := o2\<rparr>, ub2)"
      and o2: "\<And>i. o2 i = (if ?db \<le> i \<and> i < ?db + ?e then srcPagesGM gm (?sb + (i - ?db)) else o1 i)"
      using CopyBlock_loop_copies [OF pd t(1), of 0 ?sb ?db ?gm ub] t(2) by (auto simp: CopyBlock_def simp del: if_split)
    have "pages_moved t gm (insert pair (stride_done ?n C D b pair)) o2"
      by (rule segs_moved_more [OF less.prems(4) pages_disjoint [OF t(2) inj] stride_done_below _ _ o2])
         (use less.prems True in \<open>auto simp: stride_done_fresh\<close>)
    then have m2: "pages_moved t gm (stride_done ?n C D b (pair + C)) o2"
      unfolding stride_done_step [OF C less.prems(1) True less.prems(2)] .
    have "\<exists>o3 ub'. gather_Process_loop pd sz t C (pair + C) (gm\<lparr>outGM := o2\<rparr>, ub2) = Some (gm\<lparr>outGM := o3\<rparr>, ub') \<and>
        pages_moved t gm (stride_items ?n C (insert b D)) o3"
      by (rule less.hyps [OF _ _ _ less.prems(3) m2]) (use True C less.prems in auto)
    then show ?thesis using True cp by (subst gather_Process_loop.simps) simp
  next
    case False
    then have "pages_moved t gm (stride_items ?n C (insert b D)) o1" using less.prems(4) stride_done_end [of ?n pair] by simp
    then show ?thesis using False by (subst gather_Process_loop.simps) auto
  qed
qed

definition payload_bytes :: "int \<Rightarrow> int" where
  "payload_bytes schMode = (if schMode = 1 then 4 else if schMode = 2 \<or> schMode = 3 then 2 else 1)"

lemma gather_launch_moves:
  assumes pd: "payload_queues pd" and k: "schMode \<in> {1, 2, 3, 4}" and t: "tile_ok t (payload_bytes schMode)" "0 < gt_elemsPerBlock t"
    and C: "0 < C" and inj: "inj_on (dstBlockIdsGM gm) {0..<gt_selectedBlocks t}"
    and order: "distinct order" "set order = {0..<C}"
  shows "\<exists>out. gather_launch pd schMode t C order ubs gm = Some (gm\<lparr>outGM := out\<rparr>) \<and>
    pages_moved t gm {0..<gt_selectedBlocks t} out"
proof -
  let ?n = "gt_selectedBlocks t"
  have "\<exists>g. gather_launch pd schMode t C order ubs gm = Some g \<and>
      (\<exists>out. g = gm\<lparr>outGM := out\<rparr> \<and> pages_moved t gm (stride_items ?n C (set order)) out)"
    unfolding gather_launch_def
  proof (rule fold_opt_inv [where P = "\<lambda>bs g. \<exists>out. g = gm\<lparr>outGM := out\<rparr> \<and> pages_moved t gm (stride_items ?n C (set bs)) out"])
    show "\<exists>out. gm = gm\<lparr>outGM := out\<rparr> \<and> pages_moved t gm (stride_items ?n C (set [])) out"
      by (intro exI [of _ "outGM gm"]) (simp add: segs_moved_none)
  next
    fix pre b rest g assume o: "order = pre @ b # rest"
      and "\<exists>out. g = gm\<lparr>outGM := out\<rparr> \<and> pages_moved t gm (stride_items ?n C (set pre)) out"
    then obtain o1 where g: "g = gm\<lparr>outGM := o1\<rparr>" and m: "pages_moved t gm (stride_items ?n C (set pre)) o1" by blast
    have b: "0 \<le> b" "b < C" "b \<notin> set pre" using o order by auto
    have m': "pages_moved t gm (stride_done ?n C (set pre) b b) o1" using m C by (simp add: stride_done_start)
    obtain o2 ub' where run: "gather_Process_loop pd (payload_bytes schMode) t C b (g, ubs b) = Some (gm\<lparr>outGM := o2\<rparr>, ub')"
      and m2: "pages_moved t gm (stride_items ?n C (insert b (set pre))) o2"
      using gather_Process_loop_moves [OF pd t C inj b(1) _ b(3) m', of "ubs b"] b unfolding g by auto
    have "kv_cache_block_gather pd schMode t b C (g, ubs b) = Some (gm\<lparr>outGM := o2\<rparr>, ub')"
      using run k by (auto simp: kv_cache_block_gather_def gather_Process_def payload_bytes_def)
    then show "\<exists>g'. map_option fst (kv_cache_block_gather pd schMode t b C (g, ubs b)) = Some g' \<and>
        (\<exists>out. g' = gm\<lparr>outGM := out\<rparr> \<and> pages_moved t gm (stride_items ?n C (set (pre @ [b]))) out)"
      using m2 by auto
  qed
  moreover have "stride_items ?n C (set order) = {0..<?n}" using C order by (intro stride_items_all) auto
  ultimately show ?thesis by auto
qed

section \<open>Accepted tilings\<close>

lemma gather_CheckDtypes_cases:
  "gather_CheckDtypes c = GRAPH_SUCCESS d \<Longrightarrow> d \<in> {GD_FLOAT, GD_FLOAT16, GD_BF16, GD_INT8} \<and> gc_srcPagesDtype c = Some d"
  by (auto simp: gather_CheckDtypes_def IsSupportedPayloadDtype_def split: option.splits if_splits)

lemma tdiv_pos_exact:
  assumes "0 < tdiv a b" "tmod a b = 0" "0 < b"
  shows "a = b * tdiv a b"
proof -
  have "0 < a" using assms(1,3) by (auto simp: tdiv_def sgn_if zero_less_mult_iff pos_imp_zdiv_neg_iff split: if_splits)
  then show ?thesis using assms mult_div_mod_eq [of b a] by (simp add: tdiv_pos tmod_pos)
qed

lemma gather_GetShapeInfo_result:
  assumes "gather_GetShapeInfo c = Some (GRAPH_SUCCESS (sel, epb))"
  shows "0 < sel \<and> 0 < epb \<and> gc_srcBlockIdsShape c = Some [sel] \<and> gc_dstBlockIdsShape c = Some [sel] \<and>
    (\<exists>out src n m. gc_outShape c = Some out \<and> gc_srcPagesShape c = Some src \<and> 0 < n \<and> out ! 0 = n \<and>
       fold (\<lambda>d n. n * d) out 1 = n * epb \<and> 0 < m \<and> fold (\<lambda>d n. n * d) src 1 = m * epb)"
proof -
  let ?prod = "\<lambda>xs :: int list. fold (\<lambda>d n. n * d) xs 1"
  obtain ids dst out src where sh: "gc_srcBlockIdsShape c = Some ids" "gc_srcPagesShape c = Some src"
      "gc_dstBlockIdsShape c = Some dst" "gc_outShape c = Some out"
    using assms by (auto simp: gather_GetShapeInfo_def split: option.splits)
  have l: "length ids = 1" "length dst = 1" "\<not> length out < 1"
    using assms by (auto simp: gather_GetShapeInfo_def sh split: if_splits)
  then have v: "vget ids 0 = Some (ids ! 0)" "vget dst 0 = Some (dst ! 0)" "vget out 0 = Some (out ! 0)"
    by (auto simp: vget_def)
  have r: "0 < ids ! 0" "dst ! 0 = ids ! 0" "0 < out ! 0" "tmod (?prod out) (out ! 0) = 0"
    "epb = tdiv (?prod out) (out ! 0)" "0 < epb" "epb \<le> ?prod src" "tmod (?prod src) epb = 0" "sel = ids ! 0"
    using assms by (auto simp: gather_GetShapeInfo_def sh l v Let_def split: if_splits)
  have ids: "ids = [sel]" "dst = [sel]" using l r(2,9) by (cases ids; cases dst; simp)+
  have o: "?prod out = out ! 0 * epb" using tdiv_pos_exact [of "?prod out" "out ! 0"] r by simp
  have "?prod src mod epb = 0" using r by (simp add: tmod_pos)
  then have m: "?prod src = (?prod src div epb) * epb" by (metis add.right_neutral div_mult_mod_eq)
  have "0 < ?prod src div epb" using r by (simp add: pos_imp_zdiv_pos_iff)
  then have "\<exists>out src n m. gc_outShape c = Some out \<and> gc_srcPagesShape c = Some src \<and> 0 < n \<and> out ! 0 = n \<and>
      ?prod out = n * epb \<and> 0 < m \<and> ?prod src = m * epb" using r(3) sh o m by blast
  moreover have "0 < sel" using r(1,9) by simp
  ultimately show ?thesis using r(6) sh unfolding ids by simp
qed

text \<open>What the kernel relies on, as the tiling function establishes it.\<close>

lemma gather_tiling_result:
  assumes "KvCacheBlockGatherTilingFunc c = Some (GRAPH_SUCCESS (t, dim, key, ws))"
  shows "\<exists>coreNum d. gc_platform c = Some coreNum \<and> coreNum \<noteq> 0 \<and> dim = u32 (min coreNum (gt_selectedBlocks t)) \<and>
    gc_srcPagesDtype c = Some d \<and> key = GetTilingKeyByDtype d \<and> key \<in> {1, 2, 3, 4} \<and>
    gather_GetShapeInfo c = Some (GRAPH_SUCCESS (gt_selectedBlocks t, gt_elemsPerBlock t)) \<and>
    gt_tileElems t = min 1024 (gt_elemsPerBlock t) \<and> tile_ok t (payload_bytes key)"
proof -
  obtain coreNum d sel epb where a: "gc_platform c = Some coreNum" "coreNum \<noteq> 0" "gather_CheckDtypes c = GRAPH_SUCCESS d"
    "gather_GetShapeInfo c = Some (GRAPH_SUCCESS (sel, epb))" "tmod epb (GetDataCopyAlignmentElems d) = 0"
    "t = \<lparr>gt_selectedBlocks = sel, gt_elemsPerBlock = epb, gt_tileElems = min 1024 epb\<rparr>"
    "dim = u32 (min coreNum sel)" "key = GetTilingKeyByDtype d"
    using assms by (auto simp: KvCacheBlockGatherTilingFunc_def gather_GetPlatformInfo_def Let_def
        split: graph_status.splits option.splits if_splits Option.bind_splits prod.splits)
  have e: "0 < epb" using gather_GetShapeInfo_result [OF a(4)] by blast
  note d = gather_CheckDtypes_cases [OF a(3)]
  have al: "GetDataCopyAlignmentElems d * payload_bytes key = 32" "0 < GetDataCopyAlignmentElems d" "GetDataCopyAlignmentElems d dvd 1024"
    using d by (auto simp: a(8) GetDataCopyAlignmentElems_def payload_bytes_def GetTilingKeyByDtype_def)
  have dv: "GetDataCopyAlignmentElems d dvd epb" using a(5) e al(2) by (simp add: tmod_pos dvd_eq_mod_eq_0)
  have x: "32 dvd x * payload_bytes key" if "GetDataCopyAlignmentElems d dvd x" for x
    using mult_dvd_mono [OF that dvd_refl, of "payload_bytes key"] al(1) by simp
  have "tile_ok t (payload_bytes key)"
    using e x [OF dv] x [OF al(3)] by (auto simp: tile_ok_def a(6) min_def)
  then show ?thesis using a d by (auto simp: GetTilingKeyByDtype_def)
qed

section \<open>Properties\<close>

text \<open>
  C6. With distinct destination pages, a launch on all cores of an accepted tiling
  ends whatever the order of the cores; every destination page of the output holds the source page
  of its pair, and every element outside those pages is what it was. That it ends includes that
  every transfer is made of whole 32-byte blocks.
\<close>
theorem gather_pages:
  fixes epb sel :: int
  assumes pd: "payload_queues pd" and til: "KvCacheBlockGatherTilingFunc c = Some (GRAPH_SUCCESS (t, dim, key, ws))"
    and cores: "gc_platform c = Some n" "0 < n" "n < U32_LIM"
    and e: "epb = gt_elemsPerBlock t" "sel = gt_selectedBlocks t"
    and inj: "inj_on (dstBlockIdsGM gm) {0..<sel}" and order: "distinct order" "set order = {0..<dim}"
  shows "\<exists>out. gather_launch pd key t dim order ubs gm = Some (gm\<lparr>outGM := out\<rparr>) \<and>
    (\<forall>p. 0 \<le> p \<and> p < sel \<longrightarrow> (\<forall>j. 0 \<le> j \<and> j < epb \<longrightarrow>
       out (dstBlockIdsGM gm p * epb + j) = srcPagesGM gm (srcBlockIdsGM gm p * epb + j))) \<and>
    (\<forall>i. (\<forall>p. 0 \<le> p \<and> p < sel \<longrightarrow> i div epb \<noteq> dstBlockIdsGM gm p) \<longrightarrow> out i = outGM gm i)"
proof -
  have r: "dim = u32 (min n sel)" "key \<in> {1, 2, 3, 4}" "tile_ok t (payload_bytes key)"
      "gather_GetShapeInfo c = Some (GRAPH_SUCCESS (sel, epb))"
    using gather_tiling_result [OF til] cores e by auto
  have pos: "0 < sel" "0 < epb" using gather_GetShapeInfo_result [OF r(4)] by auto
  have dim: "0 < dim" using r(1) cores pos by (simp add: u32_id)
  obtain out where run: "gather_launch pd key t dim order ubs gm = Some (gm\<lparr>outGM := out\<rparr>)" and m: "pages_moved t gm {0..<sel} out"
    using gather_launch_moves [OF pd r(2,3) _ dim _ order, of gm ubs] pos inj e by auto
  have "out (dstBlockIdsGM gm p * epb + j) = srcPagesGM gm (srcBlockIdsGM gm p * epb + j)"
    if p: "0 \<le> p" "p < sel" and j: "0 \<le> j" "j < epb" for p j
    using m p j unfolding segs_moved_def in_seg_def e by auto
  moreover have "out i = outGM gm i" if none: "\<forall>p. 0 \<le> p \<and> p < sel \<longrightarrow> i div epb \<noteq> dstBlockIdsGM gm p" for i
  proof -
    have "\<not> in_seg (\<lambda>_. epb) (\<lambda>p. dstBlockIdsGM gm p * epb) p i" if "p \<in> {0..<sel}" for p
    proof
      assume "in_seg (\<lambda>_. epb) (\<lambda>p. dstBlockIdsGM gm p * epb) p i"
      then have "0 \<le> i - dstBlockIdsGM gm p * epb" "i - dstBlockIdsGM gm p * epb < epb" by (auto simp: in_seg_def)
      then have "(dstBlockIdsGM gm p * epb + (i - dstBlockIdsGM gm p * epb)) div epb = dstBlockIdsGM gm p"
        using pos by (subst div_mult_self3) auto
      then show False using none that by auto
    qed
    then show ?thesis using m unfolding segs_moved_def e by auto
  qed
  ultimately show ?thesis using run by (intro exI [of _ out] conjI allI impI) auto
qed

definition gather_example_context :: gather_context where
  "gather_example_context = \<lparr>gc_platform = Some 2, gc_srcBlockIdsShape = Some [3], gc_srcPagesShape = Some [4, 16],
     gc_dstBlockIdsShape = Some [3], gc_outShape = Some [5, 16], gc_srcBlockIdsDtype = Some GD_INT32,
     gc_srcPagesDtype = Some GD_FLOAT16, gc_dstBlockIdsDtype = Some GD_INT32, gc_outDtype = Some GD_FLOAT16,
     gc_workspaceSizes = True, gc_tilingData = True\<rparr>"

definition gather_example_tiling :: gather_tiling where
  "gather_example_tiling = \<lparr>gt_selectedBlocks = 3, gt_elemsPerBlock = 16, gt_tileElems = 16\<rparr>"

definition gather_example_gm :: gather_gm where
  "gather_example_gm = \<lparr>srcBlockIdsGM = tensor_of [1, 0, 3], dstBlockIdsGM = tensor_of [2, 4, 0],
     srcPagesGM = (\<lambda>i. 100 + i), outGM = (\<lambda>_. 0)\<rparr>"

lemma gather_example_tiling_ok:
  "KvCacheBlockGatherTilingFunc gather_example_context = Some (GRAPH_SUCCESS (gather_example_tiling, 2, 2, 16777216))"
  by code_simp

theorem gather_pages_witness:
  "\<exists>out. gather_launch exact_payload 2 gather_example_tiling 2 [1, 0] (\<lambda>_. \<lparr>inputQueue = \<lambda>_. 0, outputQueue = \<lambda>_. 0\<rparr>)
       gather_example_gm = Some (gather_example_gm\<lparr>outGM := out\<rparr>) \<and> out (4 * 16 + 5) = 100 + 5 \<and> out (3 * 16) = 0"
proof -
  let ?ubs = "\<lambda>_. \<lparr>inputQueue = \<lambda>_. 0, outputQueue = \<lambda>_. 0\<rparr>"
  have h: "gc_platform gather_example_context = Some 2" "(0::int) < 2" "(2::int) < U32_LIM"
      "16 = gt_elemsPerBlock gather_example_tiling" "3 = gt_selectedBlocks gather_example_tiling" "distinct [1, 0 :: int]"
    by (simp_all add: gather_example_context_def gather_example_tiling_def)
  have below: "p = 0 \<or> p = 1 \<or> p = 2" if "0 \<le> p" "p < 3" for p :: int using that by linarith
  have ids: "dstBlockIdsGM gather_example_gm 0 = 2" "dstBlockIdsGM gather_example_gm 1 = 4" "dstBlockIdsGM gather_example_gm 2 = 0"
      "srcBlockIdsGM gather_example_gm 1 = 0"
    by (simp_all add: gather_example_gm_def tensor_of_def)
  have inj: "inj_on (dstBlockIdsGM gather_example_gm) {0..<3}" by (rule inj_onI) (auto dest!: below simp: ids)
  have all: "set [1, 0] = {0..<2 :: int}" by auto
  obtain out where run: "gather_launch exact_payload 2 gather_example_tiling 2 [1, 0] ?ubs gather_example_gm =
      Some (gather_example_gm\<lparr>outGM := out\<rparr>)"
    and copied: "\<forall>p. 0 \<le> p \<and> p < 3 \<longrightarrow> (\<forall>j. 0 \<le> j \<and> j < 16 \<longrightarrow>
       out (dstBlockIdsGM gather_example_gm p * 16 + j) = srcPagesGM gather_example_gm (srcBlockIdsGM gather_example_gm p * 16 + j))"
    and kept: "\<forall>i. (\<forall>p. 0 \<le> p \<and> p < 3 \<longrightarrow> i div 16 \<noteq> dstBlockIdsGM gather_example_gm p) \<longrightarrow> out i = outGM gather_example_gm i"
    using gather_pages [OF exact_pd.payload_queues_axioms gather_example_tiling_ok h(1-5) inj h(6) all, of ?ubs] by blast
  have "out (4 * 16 + 5) = 100 + 5" using copied [rule_format, of 1 5] by (simp add: ids) (simp add: gather_example_gm_def)
  moreover have "out (3 * 16) = outGM gather_example_gm (3 * 16)"
  proof (rule kept [rule_format])
    show "3 * 16 div 16 \<noteq> dstBlockIdsGM gather_example_gm p" if "0 \<le> p \<and> p < 3" for p
      using below [of p] that by (auto simp: ids)
  qed
  ultimately show ?thesis using run by (auto simp: gather_example_gm_def)
qed

text \<open>
  C35. An accepted tiling is fit for the kernel: at least one pair and at
  most one core per pair, tiles that are not empty, no larger than a page and 1024 elements, and
  pages and tiles of whole 32-byte blocks of the payload type the tiling key selects.
\<close>
theorem gather_tiling_aligned:
  assumes "KvCacheBlockGatherTilingFunc c = Some (GRAPH_SUCCESS (t, dim, key, ws))"
    and "gc_platform c = Some n" "0 < n" "n < U32_LIM"
  shows "1 \<le> dim \<and> dim \<le> n \<and> dim \<le> gt_selectedBlocks t \<and> 0 < gt_tileElems t \<and> gt_tileElems t \<le> 1024 \<and>
    gt_tileElems t \<le> gt_elemsPerBlock t \<and> 32 dvd gt_tileElems t * payload_bytes key \<and>
    32 dvd gt_elemsPerBlock t * payload_bytes key"
proof -
  have r: "dim = u32 (min n (gt_selectedBlocks t))" "gt_tileElems t = min 1024 (gt_elemsPerBlock t)"
      "tile_ok t (payload_bytes key)" "gather_GetShapeInfo c = Some (GRAPH_SUCCESS (gt_selectedBlocks t, gt_elemsPerBlock t))"
    using gather_tiling_result [OF assms(1)] assms(2) by auto
  have "0 < gt_selectedBlocks t" using gather_GetShapeInfo_result [OF r(4)] by simp
  then have "dim = min n (gt_selectedBlocks t)" using assms r(1) by (simp add: u32_id)
  then show ?thesis using r \<open>0 < gt_selectedBlocks t\<close> assms by (auto simp: tile_ok_def)
qed

theorem gather_tiling_aligned_witness: "32 dvd gt_tileElems gather_example_tiling * payload_bytes 2"
  using gather_tiling_aligned [OF gather_example_tiling_ok, of 2] by (simp add: gather_example_context_def)

text \<open>
  For an accepted tiling, a pair whose pages are in range reads inside the
  source pages and writes inside the output: both shapes are whole numbers of the page size the
  tiling computed.
\<close>
theorem gather_in_bounds:
  assumes "KvCacheBlockGatherTilingFunc c = Some (GRAPH_SUCCESS (t, dim, key, ws))"
    and "gc_outShape c = Some out" "gc_srcPagesShape c = Some src"
    and "0 \<le> d" "d < hd out" "0 \<le> j" "j < gt_elemsPerBlock t"
  shows "0 \<le> d * gt_elemsPerBlock t + j \<and> d * gt_elemsPerBlock t + j < prod_list out \<and>
    gt_elemsPerBlock t dvd prod_list src \<and> gt_elemsPerBlock t \<le> prod_list src"
proof -
  let ?e = "gt_elemsPerBlock t"
  have r: "gather_GetShapeInfo c = Some (GRAPH_SUCCESS (gt_selectedBlocks t, ?e))" using gather_tiling_result [OF assms(1)] by blast
  have fl: "fold (\<lambda>d n. n * d) xs k = k * prod_list xs" for xs and k :: int
    by (induction xs arbitrary: k) (auto simp: mult.assoc)
  obtain m where e: "0 < ?e" and m: "0 < out ! 0" "prod_list out = out ! 0 * ?e" "0 < m" "prod_list src = m * ?e"
    using gather_GetShapeInfo_result [OF r] assms(2,3) by (auto simp: fl)
  have "out \<noteq> []" using r assms(2) by (auto simp: gather_GetShapeInfo_def split: option.splits if_splits)
  then have "d < out ! 0" using assms(5) by (simp add: hd_conv_nth)
  then have "d * ?e + j < out ! 0 * ?e" by (rule slot_before [OF _ assms(7) e])
  moreover have "1 * ?e \<le> m * ?e" using m e by (intro mult_right_mono) auto
  ultimately show ?thesis using m e assms(4,6) by auto
qed

theorem gather_in_bounds_witness: "4 * gt_elemsPerBlock gather_example_tiling + 15 < prod_list [5, 16]"
  using gather_in_bounds [OF gather_example_tiling_ok, of "[5, 16]" "[4, 16]" 4 15]
  by (simp add: gather_example_context_def gather_example_tiling_def)

definition gather_clash_tiling :: gather_tiling where
  "gather_clash_tiling = \<lparr>gt_selectedBlocks = 2, gt_elemsPerBlock = 8, gt_tileElems = 8\<rparr>"

definition gather_clash_gm :: gather_gm where
  "gather_clash_gm = \<lparr>srcBlockIdsGM = tensor_of [0, 1], dstBlockIdsGM = tensor_of [0, 0], srcPagesGM = (\<lambda>i. i), outGM = (\<lambda>_. 0)\<rparr>"

definition gather_clash_out :: "int list \<Rightarrow> int option" where
  "gather_clash_out order = map_option (\<lambda>g. outGM g 0)
     (gather_launch exact_payload 1 gather_clash_tiling 2 order (\<lambda>_. \<lparr>inputQueue = \<lambda>_. 0, outputQueue = \<lambda>_. 0\<rparr>) gather_clash_gm)"

text \<open>
  Distinct destinations are needed: nothing in the tiling or the
  kernel rejects two pairs with the same destination page, and when they fall to different cores
  the page left in the output is the one of the core that finishes last.
\<close>
theorem gather_duplicate_targets: "gather_clash_out [0, 1] = Some 8 \<and> gather_clash_out [1, 0] = Some 0"
  by code_simp

end
