(* ===== verification/Camem.thy ===== *)
theory Camem
  imports Prelude
begin

text \<open>
  The pluggable device allocator (\<^verbatim>\<open>csrc/camem_allocator.cpp\<close>) and the Python class that drives it
  (\<^verbatim>\<open>vllm_ascend/device_allocator/camem.py\<close>). The ACL runtime is an argument of type \<open>'r acl\<close>, over
  a state \<open>'r\<close> of its own; its calls answer an error code, zero for success. The interpreter's
  callables are an argument too: \<open>call\<close> runs one on an argument and the Python state \<open>'p\<close>, and
  answers \<^term>\<open>None\<close> for an exception. A C++ exception is a result, \<open>Thrown\<close>; \<open>Crashed\<close> is the use of
  a pointer that is not valid or a division by zero. Error messages are constructors;
  \<open>PythonTypeError\<close> is the exception Python raises when a module function returns with an error.
  Small host allocations, of a handle cell or a tuple, do not fail, and the runtime's memory copy,
  which \<open>sleep\<close> and \<open>wake_up\<close> look up, is there.
\<close>

section \<open>The surroundings\<close>

record 'r acl =
  aclrtGetCurrentContext :: "'r \<Rightarrow> int"
  aclrtCreateContext :: "int \<Rightarrow> 'r \<Rightarrow> int \<times> 'r"
  aclrtSetCurrentContext :: "int \<Rightarrow> 'r \<Rightarrow> 'r"
  aclrtMemGetAllocationGranularity :: "int \<Rightarrow> 'r \<Rightarrow> int \<times> int"
    \<comment> \<open>device; error code and granularity\<close>
  aclrtReserveMemAddress :: "int \<Rightarrow> 'r \<Rightarrow> int \<times> int \<times> 'r"
    \<comment> \<open>size; error code and address\<close>
  aclrtMallocPhysical :: "int \<Rightarrow> int \<Rightarrow> 'r \<Rightarrow> int \<times> int \<times> 'r"
    \<comment> \<open>size and device; error code and handle\<close>
  aclrtMapMem :: "int \<Rightarrow> int \<Rightarrow> int \<Rightarrow> 'r \<Rightarrow> int \<times> 'r"
    \<comment> \<open>address, size and handle\<close>
  aclrtUnmapMem :: "int \<Rightarrow> 'r \<Rightarrow> int \<times> 'r"
  aclrtFreePhysical :: "int \<Rightarrow> 'r \<Rightarrow> int \<times> 'r"
  aclrtReleaseMemAddress :: "int \<Rightarrow> 'r \<Rightarrow> int \<times> 'r"

datatype py_object = PyLong int | PyTuple "py_object list" | PyCallable int | PyNone | PyOther

datatype camem_error =
    MallocPhysicalOOM int | MallocPhysicalFailed int | MapMemFailed int | UnmapMemFailed int
  | FreePhysicalFailed int | GranularityFailed int | ReserveOOM int | ReserveFailed int
  | MallocCallbackNotSet | FreeCallbackNotSet | ReleaseFailed int | PythonTypeError

datatype ('s, 'a) outcome = Returned 'a 's | Thrown camem_error 's | Crashed

definition obind :: "('s, 'a) outcome \<Rightarrow> ('a \<Rightarrow> 's \<Rightarrow> ('s, 'b) outcome) \<Rightarrow> ('s, 'b) outcome" where
  "obind m f = (case m of Returned a s \<Rightarrow> f a s | Thrown e s \<Rightarrow> Thrown e s | Crashed \<Rightarrow> Crashed)"

text \<open>
  The state of the process: the runtime, the Python side, the cells allocated for physical memory
  handles, the next free cell, the two global callbacks, how often the interpreter lock is held by
  this code, and whether a Python error is pending.
\<close>

record ('r, 'p) camem =
  cm_rt :: 'r
  cm_py :: 'p
  cm_heap :: "int \<Rightarrow> int option"
  cm_next :: int
  g_python_malloc_callback :: "int option"
  g_python_free_callback :: "int option"
  cm_gil :: int
  cm_error :: bool

abbreviation (input) ACL_ERROR_RT_MEMORY_ALLOCATION :: int where
  "ACL_ERROR_RT_MEMORY_ALLOCATION \<equiv> 207001"

section \<open>Helper functions\<close>

definition ensure_context :: "'r acl \<Rightarrow> int \<Rightarrow> ('r, 'p) camem \<Rightarrow> ('r, 'p) camem" where
  "ensure_context rt device st =
     (if aclrtGetCurrentContext rt (cm_rt st) = 0
      then (let (pctx, r) = aclrtCreateContext rt device (cm_rt st) in st\<lparr>cm_rt := aclrtSetCurrentContext rt pctx r\<rparr>)
      else st)"

definition create_and_map :: "'r acl \<Rightarrow> int \<Rightarrow> int \<Rightarrow> int \<Rightarrow> int \<Rightarrow> ('r, 'p) camem \<Rightarrow> (('r, 'p) camem, unit) outcome" where
  "create_and_map rt device size_arg d_mem p_memHandle st =
     (let st = ensure_context rt device st;
          (error_code, handle, r) = aclrtMallocPhysical rt size_arg device (cm_rt st)
      in if cm_heap st p_memHandle = None then Crashed
         else (let st = st\<lparr>cm_rt := r, cm_heap := (cm_heap st)(p_memHandle \<mapsto> handle)\<rparr>
               in if error_code \<noteq> 0
                  then Thrown (if error_code = ACL_ERROR_RT_MEMORY_ALLOCATION then MallocPhysicalOOM error_code
                               else MallocPhysicalFailed error_code) st
                  else (let (error_code, r) = aclrtMapMem rt d_mem size_arg handle (cm_rt st); st = st\<lparr>cm_rt := r\<rparr>
                        in if error_code \<noteq> 0 then Thrown (MapMemFailed error_code) st else Returned () st)))"

definition unmap_and_release :: "'r acl \<Rightarrow> int \<Rightarrow> int \<Rightarrow> int \<Rightarrow> int \<Rightarrow> ('r, 'p) camem \<Rightarrow> (('r, 'p) camem, unit) outcome" where
  "unmap_and_release rt device size_arg d_mem p_memHandle st =
     (let st = ensure_context rt device st;
          (error_code, r) = aclrtUnmapMem rt d_mem (cm_rt st); st = st\<lparr>cm_rt := r\<rparr>
      in if error_code \<noteq> 0 then Thrown (UnmapMemFailed error_code) st
         else (case cm_heap st p_memHandle of None \<Rightarrow> Crashed
               | Some handle \<Rightarrow>
                 let (error_code, r) = aclrtFreePhysical rt handle (cm_rt st); st = st\<lparr>cm_rt := r\<rparr>
                 in if error_code \<noteq> 0 then Thrown (FreePhysicalFailed error_code) st else Returned () st))"

text \<open>A tuple of four integers, which are reduced to 64 bits by the conversion of the arguments.\<close>

definition create_tuple_from_c_integers :: "int \<Rightarrow> int \<Rightarrow> int \<Rightarrow> int \<Rightarrow> py_object" where
  "create_tuple_from_c_integers a b c d = PyTuple [PyLong (u64 a), PyLong (u64 b), PyLong (u64 c), PyLong (u64 d)]"

text \<open>The size rounded up to the granularity, in 64-bit arithmetic.\<close>

definition aligned_size :: "int \<Rightarrow> int \<Rightarrow> int" where
  "aligned_size size_arg granularity = u64 (u64 (u64 (size_arg + granularity) - 1) div granularity * granularity)"

section \<open>The exported functions\<close>

definition my_malloc ::
  "'r acl \<Rightarrow> (int \<Rightarrow> py_object \<Rightarrow> 'p \<Rightarrow> py_object option \<times> 'p) \<Rightarrow> int \<Rightarrow> int \<Rightarrow> ('r, 'p) camem \<Rightarrow> (('r, 'p) camem, int) outcome" where
  "my_malloc rt call size_arg device st =
     (let st = ensure_context rt (u64 device) st;
          (error_code, granularity) = aclrtMemGetAllocationGranularity rt (u64 device) (cm_rt st)
      in if error_code \<noteq> 0 then Thrown (GranularityFailed error_code) st
         else if granularity = 0 then Crashed
         else (let alignedSize = aligned_size size_arg granularity;
                   (error_code, d_mem, r) = aclrtReserveMemAddress rt alignedSize (cm_rt st);
                   st = st\<lparr>cm_rt := r\<rparr>
               in if error_code \<noteq> 0
                  then Thrown (if error_code = ACL_ERROR_RT_MEMORY_ALLOCATION then ReserveOOM error_code
                               else ReserveFailed error_code) st
                  else (let p_memHandle = cm_next st;
                            st = st\<lparr>cm_heap := (cm_heap st)(p_memHandle \<mapsto> 0), cm_next := cm_next st + 8\<rparr>
                        in (case g_python_malloc_callback st of None \<Rightarrow> Thrown MallocCallbackNotSet st
                            | Some callback \<Rightarrow>
                              let st = st\<lparr>cm_gil := cm_gil st + 1\<rparr>;
                                  arg_tuple = create_tuple_from_c_integers device alignedSize d_mem p_memHandle;
                                  (py_result, py) = call callback arg_tuple (cm_py st);
                                  st = st\<lparr>cm_py := py, cm_gil := cm_gil st - 1\<rparr>
                              in if py_result = None then Returned 0 st
                                 else obind (create_and_map rt (u64 device) alignedSize d_mem p_memHandle st)
                                        (\<lambda>_ st. Returned d_mem st)))))"

text \<open>What \<^verbatim>\<open>PyArg_ParseTuple\<close> gets from a tuple with the format \<^verbatim>\<open>KKKK\<close>.\<close>

definition parse_KKKK :: "py_object list \<Rightarrow> (int \<times> int \<times> int \<times> int) option" where
  "parse_KKKK args = (case args of [PyLong a, PyLong b, PyLong c, PyLong d] \<Rightarrow> Some (u64 a, u64 b, u64 c, u64 d) | _ \<Rightarrow> None)"

definition my_free ::
  "'r acl \<Rightarrow> (int \<Rightarrow> py_object \<Rightarrow> 'p \<Rightarrow> py_object option \<times> 'p) \<Rightarrow> int \<Rightarrow> int \<Rightarrow> int \<Rightarrow> ('r, 'p) camem \<Rightarrow> (('r, 'p) camem, unit) outcome" where
  "my_free rt call ptr size_arg device st =
     (case g_python_free_callback st of None \<Rightarrow> Thrown FreeCallbackNotSet st
      | Some callback \<Rightarrow>
        let st = st\<lparr>cm_gil := cm_gil st + 1\<rparr>;
            (py_result, py) = call callback (PyLong (u64 ptr)) (cm_py st);
            st = st\<lparr>cm_py := py\<rparr>
        in (case py_result of
              Some (PyTuple items) \<Rightarrow>
                if length items \<noteq> 4 then Returned () (st\<lparr>cm_error := True\<rparr>)
                else (case parse_KKKK items of None \<Rightarrow> Returned () (st\<lparr>cm_error := True\<rparr>)
                      | Some (recv_device, recv_size, recv_d_mem, recv_p_memHandle) \<Rightarrow>
                        let st = st\<lparr>cm_gil := cm_gil st - 1\<rparr>
                        in obind (unmap_and_release rt (u64 device) size_arg recv_d_mem recv_p_memHandle st)
                             (\<lambda>_ st. let (error_code, r) = aclrtReleaseMemAddress rt recv_d_mem (cm_rt st); st = st\<lparr>cm_rt := r\<rparr>
                                     in if error_code \<noteq> 0 then Thrown (ReleaseFailed error_code) st
                                        else Returned () (st\<lparr>cm_heap := (cm_heap st)(recv_p_memHandle := None)\<rparr>)))
            | _ \<Rightarrow> Returned () (st\<lparr>cm_error := True\<rparr>)))"

section \<open>The functions of the Python module\<close>

text \<open>A Python function returns an object, or \<^term>\<open>None\<close> with an error pending.\<close>

definition py_init_module :: "py_object list \<Rightarrow> ('r, 'p) camem \<Rightarrow> py_object option \<times> ('r, 'p) camem" where
  "py_init_module args st =
     (case args of
        [malloc_callback, free_callback] \<Rightarrow>
          (case (malloc_callback, free_callback) of
             (PyCallable m, PyCallable f) \<Rightarrow>
               (Some PyNone, st\<lparr>g_python_malloc_callback := Some m, g_python_free_callback := Some f\<rparr>)
           | _ \<Rightarrow> (None, st\<lparr>cm_error := True\<rparr>))
      | _ \<Rightarrow> (None, st\<lparr>cm_error := True\<rparr>))"

definition python_unmap_and_release ::
  "'r acl \<Rightarrow> py_object list \<Rightarrow> ('r, 'p) camem \<Rightarrow> (('r, 'p) camem, py_object option) outcome" where
  "python_unmap_and_release rt args st =
     (if length args \<noteq> 4 then Returned None (st\<lparr>cm_error := True\<rparr>)
      else (case parse_KKKK args of None \<Rightarrow> Returned None (st\<lparr>cm_error := True\<rparr>)
            | Some (recv_device, recv_size, recv_d_mem, recv_p_memHandle) \<Rightarrow>
              obind (unmap_and_release rt recv_device recv_size recv_d_mem recv_p_memHandle st)
                (\<lambda>_ st. Returned (Some PyNone) st)))"

definition python_create_and_map ::
  "'r acl \<Rightarrow> py_object list \<Rightarrow> ('r, 'p) camem \<Rightarrow> (('r, 'p) camem, py_object option) outcome" where
  "python_create_and_map rt args st =
     (if length args \<noteq> 4 then Returned None (st\<lparr>cm_error := True\<rparr>)
      else (case parse_KKKK args of None \<Rightarrow> Returned None (st\<lparr>cm_error := True\<rparr>)
            | Some (recv_device, recv_size, recv_d_mem, recv_p_memHandle) \<Rightarrow>
              obind (create_and_map rt recv_device recv_size recv_d_mem recv_p_memHandle st)
                (\<lambda>_ st. Returned (Some PyNone) st)))"

section \<open>The Python class\<close>

text \<open>
  \<open>pointer_to_data\<close> is a dictionary in insertion order. Of the CPU backup of an allocation only its
  presence is kept; the copies themselves are the runtime's.
\<close>

record alloc_data =
  ad_handle :: "int \<times> int \<times> int \<times> int"
  ad_tag :: string
  ad_backup :: bool

record allocator =
  pointer_to_data :: "(int \<times> alloc_data) list"
  current_tag :: string

abbreviation (input) default_tag :: string where
  "default_tag \<equiv> ''default''"

abbreviation (input) sleep_persistent_tag :: string where
  "sleep_persistent_tag \<equiv> ''sleep_persistent''"

definition handle_args :: "int \<times> int \<times> int \<times> int \<Rightarrow> py_object list" where
  "handle_args h = (case h of (a, b, c, d) \<Rightarrow> [PyLong a, PyLong b, PyLong c, PyLong d])"

definition python_malloc_callback :: "int \<times> int \<times> int \<times> int \<Rightarrow> allocator \<Rightarrow> allocator" where
  "python_malloc_callback allocation_handle py =
     (let py_d_mem = fst (snd (snd allocation_handle));
          data = \<lparr>ad_handle = allocation_handle, ad_tag = current_tag py, ad_backup = False\<rparr>
      in py\<lparr>pointer_to_data :=
           (if py_d_mem \<in> fst ` set (pointer_to_data py)
            then map (\<lambda>(p, d). if p = py_d_mem then (p, data) else (p, d)) (pointer_to_data py)
            else pointer_to_data py @ [(py_d_mem, data)])\<rparr>)"

text \<open>\<^verbatim>\<open>pop\<close> on a pointer that is not in the dictionary raises a \<^verbatim>\<open>KeyError\<close>.\<close>

definition python_free_callback :: "int \<Rightarrow> allocator \<Rightarrow> (int \<times> int \<times> int \<times> int) option \<times> allocator" where
  "python_free_callback ptr py =
     (case map_of (pointer_to_data py) ptr of None \<Rightarrow> (None, py)
      | Some data \<Rightarrow> (Some (ad_handle data), py\<lparr>pointer_to_data := filter (\<lambda>(p, d). p \<noteq> ptr) (pointer_to_data py)\<rparr>))"

text \<open>The callables of the class as the C functions call them.\<close>

definition allocator_call :: "int \<Rightarrow> py_object \<Rightarrow> allocator \<Rightarrow> py_object option \<times> allocator" where
  "allocator_call f arg py =
     (case (f, arg) of
        (f, PyTuple [PyLong a, PyLong b, PyLong c, PyLong d]) \<Rightarrow>
          if f = 1 then (Some PyNone, python_malloc_callback (a, b, c, d) py) else (None, py)
      | (f, PyLong ptr) \<Rightarrow>
          if f = 2 then (case python_free_callback ptr py of
                           (None, py) \<Rightarrow> (None, py)
                         | (Some h, py) \<Rightarrow> (Some (PyTuple (handle_args h)), py))
          else (None, py)
      | _ \<Rightarrow> (None, py))"

definition set_backup :: "int \<Rightarrow> bool \<Rightarrow> ('r, allocator) camem \<Rightarrow> ('r, allocator) camem" where
  "set_backup ptr b st =
     st\<lparr>cm_py := (cm_py st)\<lparr>pointer_to_data :=
        map (\<lambda>(p, d). if p = ptr then (p, d\<lparr>ad_backup := b\<rparr>) else (p, d)) (pointer_to_data (cm_py st))\<rparr>\<rparr>"

text \<open>One allocation of the loop of \<open>sleep\<close>, and of the loop of \<open>wake_up\<close>.\<close>

definition sleep_one :: "'r acl \<Rightarrow> string list \<Rightarrow> int \<times> alloc_data \<Rightarrow> ('r, allocator) camem \<Rightarrow> (('r, allocator) camem, unit) outcome" where
  "sleep_one rt offload_tags entry st =
     (case entry of (ptr, data) \<Rightarrow>
      if ad_tag data = sleep_persistent_tag then Returned () st
      else (let st = (if ad_tag data \<in> set offload_tags then set_backup ptr True st else st)
            in obind (python_unmap_and_release rt (handle_args (ad_handle data)) st)
                 (\<lambda>r st. if r = None then Thrown PythonTypeError st else Returned () st)))"

definition wake_one :: "'r acl \<Rightarrow> string list option \<Rightarrow> int \<times> alloc_data \<Rightarrow> ('r, allocator) camem \<Rightarrow> (('r, allocator) camem, unit) outcome" where
  "wake_one rt tags entry st =
     (case entry of (ptr, data) \<Rightarrow>
      if ad_tag data = sleep_persistent_tag then Returned () st
      else if tags = None \<or> ad_tag data \<in> set (the tags)
      then obind (python_create_and_map rt (handle_args (ad_handle data)) st)
             (\<lambda>r st. if r = None then Thrown PythonTypeError st
                     else Returned () (if ad_backup data then set_backup ptr False st else st))
      else Returned () st)"

primrec each_entry :: "('e \<Rightarrow> 's \<Rightarrow> ('s, unit) outcome) \<Rightarrow> 'e list \<Rightarrow> 's \<Rightarrow> ('s, unit) outcome" where
  "each_entry f [] st = Returned () st"
| "each_entry f (e # es) st = obind (f e st) (\<lambda>_ st. each_entry f es st)"

definition camem_sleep :: "'r acl \<Rightarrow> string list option \<Rightarrow> ('r, allocator) camem \<Rightarrow> (('r, allocator) camem, unit) outcome" where
  "camem_sleep rt offload_tags st =
     each_entry (sleep_one rt (case offload_tags of None \<Rightarrow> [default_tag] | Some ts \<Rightarrow> ts)) (pointer_to_data (cm_py st)) st"

definition camem_wake_up :: "'r acl \<Rightarrow> string list option \<Rightarrow> ('r, allocator) camem \<Rightarrow> (('r, allocator) camem, unit) outcome" where
  "camem_wake_up rt tags st = each_entry (wake_one rt tags) (pointer_to_data (cm_py st)) st"

text \<open>
  The context managers around a block of code \<open>body\<close>: a block left by an exception restores the tag in
  \<open>use_allocation_tag\<close> (\<^verbatim>\<open>finally\<close>) and does not in \<open>use_memory_pool\<close>, where the assignment follows the
  \<^verbatim>\<open>yield\<close>. The pool objects of torch are not part of the state.
\<close>

definition set_tag :: "string \<Rightarrow> ('r, allocator) camem \<Rightarrow> ('r, allocator) camem" where
  "set_tag tag st = st\<lparr>cm_py := (cm_py st)\<lparr>current_tag := tag\<rparr>\<rparr>"

definition use_allocation_tag ::
  "string \<Rightarrow> (('r, allocator) camem \<Rightarrow> (('r, allocator) camem, 'a) outcome) \<Rightarrow> ('r, allocator) camem \<Rightarrow> (('r, allocator) camem, 'a) outcome" where
  "use_allocation_tag tag body st =
     (let old_tag = current_tag (cm_py st)
      in case body (set_tag tag st) of
           Returned x st \<Rightarrow> Returned x (set_tag old_tag st)
         | Thrown e st \<Rightarrow> Thrown e (set_tag old_tag st)
         | Crashed \<Rightarrow> Crashed)"

definition use_memory_pool ::
  "string option \<Rightarrow> (('r, allocator) camem \<Rightarrow> (('r, allocator) camem, 'a) outcome) \<Rightarrow> ('r, allocator) camem \<Rightarrow> (('r, allocator) camem, 'a) outcome" where
  "use_memory_pool tag body st =
     (let tag = (case tag of None \<Rightarrow> default_tag | Some t \<Rightarrow> t);
          old_tag = current_tag (cm_py st);
          st = set_tag tag st
      in case py_init_module [PyCallable 1, PyCallable 2] st of
           (None, st) \<Rightarrow> Thrown PythonTypeError st
         | (Some _, st) \<Rightarrow>
             (case body st of
                Returned x st \<Rightarrow> Returned x (set_tag old_tag st)
              | Thrown e st \<Rightarrow> Thrown e st
              | Crashed \<Rightarrow> Crashed))"

definition get_current_usage :: "allocator \<Rightarrow> int" where
  "get_current_usage py = sum_list (map (\<lambda>(ptr, data). fst (snd (ad_handle data))) (pointer_to_data py))"

end
