(* ===== verification/CamemDriver.thy ===== *)
theory CamemDriver
  imports Camem
begin

text \<open>
  What the allocator relies on from the ACL runtime, as a locale: three tables of the runtime state
  (reserved addresses, physical handles, mapped addresses) and what each call does to them; and the
  effect of the allocator's helper functions on those tables, proved once from the laws.
\<close>

section \<open>The contract\<close>

record acl_view =
  av_reserved :: "int \<Rightarrow> int option"
    \<comment> \<open>the size of a reserved address range\<close>
  av_physical :: "int set"
  av_mapped :: "int \<Rightarrow> int option"
    \<comment> \<open>the handle mapped at an address\<close>

locale acl_driver =
  fixes rt :: "'r acl" and view :: "'r \<Rightarrow> acl_view"
  assumes create_view: "view (snd (aclrtCreateContext rt d r)) = view r"
    and set_view: "view (aclrtSetCurrentContext rt c r) = view r"
    and reserve_ok: "aclrtReserveMemAddress rt n r = (0, a, r') \<Longrightarrow>
      0 < a \<and> a < 18446744073709551616 \<and> av_reserved (view r) a = None \<and>
      view r' = (view r)\<lparr>av_reserved := (av_reserved (view r))(a \<mapsto> n)\<rparr>"
    and reserve_fails: "aclrtReserveMemAddress rt n r = (e, a, r') \<Longrightarrow> e \<noteq> 0 \<Longrightarrow> view r' = view r"
    and malloc_ok: "aclrtMallocPhysical rt n d r = (0, h, r') \<Longrightarrow>
      h \<notin> av_physical (view r) \<and> view r' = (view r)\<lparr>av_physical := insert h (av_physical (view r))\<rparr>"
    and malloc_fails: "aclrtMallocPhysical rt n d r = (e, h, r') \<Longrightarrow> e \<noteq> 0 \<Longrightarrow> view r' = view r"
    and map_ok: "aclrtMapMem rt a n h r = (0, r') \<Longrightarrow>
      av_mapped (view r) a = None \<and> view r' = (view r)\<lparr>av_mapped := (av_mapped (view r))(a \<mapsto> h)\<rparr>"
    and map_fails: "aclrtMapMem rt a n h r = (e, r') \<Longrightarrow> e \<noteq> 0 \<Longrightarrow> view r' = view r"
    and unmap_ok: "aclrtUnmapMem rt a r = (0, r') \<Longrightarrow>
      av_mapped (view r) a \<noteq> None \<and> view r' = (view r)\<lparr>av_mapped := (av_mapped (view r))(a := None)\<rparr>"
    and unmap_fails: "aclrtUnmapMem rt a r = (e, r') \<Longrightarrow> e \<noteq> 0 \<Longrightarrow> view r' = view r"
    and unmap_works: "av_mapped (view r) a \<noteq> None \<Longrightarrow> fst (aclrtUnmapMem rt a r) = 0"
    and free_ok: "aclrtFreePhysical rt h r = (0, r') \<Longrightarrow> view r' = (view r)\<lparr>av_physical := av_physical (view r) - {h}\<rparr>"
    and free_works: "h \<in> av_physical (view r) \<Longrightarrow> h \<notin> ran (av_mapped (view r)) \<Longrightarrow> fst (aclrtFreePhysical rt h r) = 0"
    and release_ok: "aclrtReleaseMemAddress rt a r = (0, r') \<Longrightarrow>
      view r' = (view r)\<lparr>av_reserved := (av_reserved (view r))(a := None)\<rparr>"
    and release_works: "av_reserved (view r) a \<noteq> None \<Longrightarrow> av_mapped (view r) a = None \<Longrightarrow>
      fst (aclrtReleaseMemAddress rt a r) = 0"
begin

text \<open>Providing a context changes none of the tables.\<close>

lemma ensure_effect: "\<exists>r. ensure_context rt d st = st\<lparr>cm_rt := r\<rparr> \<and> view r = view (cm_rt st)"
proof (cases "aclrtGetCurrentContext rt (cm_rt st) = 0")
  case True
  obtain c r where c: "aclrtCreateContext rt d (cm_rt st) = (c, r)" by fastforce
  then have "view (aclrtSetCurrentContext rt c r) = view (cm_rt st)" using create_view [of d "cm_rt st"] by (simp add: set_view)
  then show ?thesis using True c by (auto simp: ensure_context_def)
next
  case False
  then show ?thesis by (intro exI [of _ "cm_rt st"]) (simp add: ensure_context_def)
qed

text \<open>Physical memory is allocated, mapped, and its handle stored in the cell.\<close>

lemma create_effect:
  assumes run: "create_and_map rt d n a p st = Returned () st'"
  shows "\<exists>h r. cm_heap st p \<noteq> None \<and> st' = st\<lparr>cm_rt := r, cm_heap := (cm_heap st)(p \<mapsto> h)\<rparr> \<and>
    h \<notin> av_physical (view (cm_rt st)) \<and> av_mapped (view (cm_rt st)) a = None \<and>
    view r = (view (cm_rt st))\<lparr>av_physical := insert h (av_physical (view (cm_rt st))),
                               av_mapped := (av_mapped (view (cm_rt st)))(a \<mapsto> h)\<rparr>"
proof -
  obtain r0 where e: "ensure_context rt d st = st\<lparr>cm_rt := r0\<rparr>" "view r0 = view (cm_rt st)" using ensure_effect by blast
  obtain e1 h r1 where m: "aclrtMallocPhysical rt n d r0 = (e1, h, r1)" by (metis prod_cases3)
  obtain e2 r2 where p: "aclrtMapMem rt a n h r1 = (e2, r2)" by fastforce
  have z: "cm_heap st p \<noteq> None" "e1 = 0" "e2 = 0" "st' = st\<lparr>cm_rt := r2, cm_heap := (cm_heap st)(p \<mapsto> h)\<rparr>"
    using run by (auto simp: create_and_map_def e m p Let_def split: if_splits)
  show ?thesis using z malloc_ok [of n d r0 h r1] map_ok [of a n h r1 r2] m p e(2) by auto
qed

text \<open>When it fails, the cell may be written, and the addresses are as before.\<close>

lemma create_thrown:
  assumes run: "create_and_map rt d n a p st = Thrown e st'"
  shows "\<exists>h r. st' = st\<lparr>cm_rt := r, cm_heap := (cm_heap st)(p \<mapsto> h)\<rparr> \<and>
    av_reserved (view r) = av_reserved (view (cm_rt st)) \<and> av_mapped (view r) = av_mapped (view (cm_rt st))"
proof -
  obtain r0 where e: "ensure_context rt d st = st\<lparr>cm_rt := r0\<rparr>" "view r0 = view (cm_rt st)" using ensure_effect by blast
  obtain e1 h r1 where m: "aclrtMallocPhysical rt n d r0 = (e1, h, r1)" by (metis prod_cases3)
  obtain e2 r2 where p: "aclrtMapMem rt a n h r1 = (e2, r2)" by fastforce
  consider "e1 \<noteq> 0" "st' = st\<lparr>cm_rt := r1, cm_heap := (cm_heap st)(p \<mapsto> h)\<rparr>"
    | "e1 = 0" "e2 \<noteq> 0" "st' = st\<lparr>cm_rt := r2, cm_heap := (cm_heap st)(p \<mapsto> h)\<rparr>"
    using run by (auto simp: create_and_map_def e m p Let_def split: if_splits)
  then show ?thesis
  proof cases
    case 1
    then show ?thesis using malloc_fails [OF m] e(2) by (intro exI [of _ h] exI [of _ r1]) auto
  next
    case 2
    then show ?thesis using malloc_ok [of n d r0 h r1] map_fails [OF p] m e(2) by (intro exI [of _ h] exI [of _ r2]) auto
  qed
qed

lemma unmap_effect:
  assumes h: "cm_heap st p = Some h" and v: "av_mapped (view (cm_rt st)) a = Some h" "h \<in> av_physical (view (cm_rt st))"
    and only: "\<And>b. av_mapped (view (cm_rt st)) b = Some h \<Longrightarrow> b = a"
  shows "\<exists>r. unmap_and_release rt d n a p st = Returned () (st\<lparr>cm_rt := r\<rparr>) \<and>
    view r = (view (cm_rt st))\<lparr>av_physical := av_physical (view (cm_rt st)) - {h}, av_mapped := (av_mapped (view (cm_rt st)))(a := None)\<rparr>"
proof -
  obtain r0 where e: "ensure_context rt d st = st\<lparr>cm_rt := r0\<rparr>" "view r0 = view (cm_rt st)" using ensure_effect by blast
  obtain r1 where u: "aclrtUnmapMem rt a r0 = (0, r1)" using unmap_works [of r0 a] v(1) e(2) by (metis fst_conv option.distinct(1) prod.exhaust)
  have v1: "view r1 = (view (cm_rt st))\<lparr>av_mapped := (av_mapped (view (cm_rt st)))(a := None)\<rparr>" using unmap_ok [OF u] e(2) by simp
  have "h \<notin> ran (av_mapped (view r1))" using only v1 by (auto simp: ran_def split: if_splits)
  then obtain r2 where f: "aclrtFreePhysical rt h r1 = (0, r2)" using free_works [of h r1] v(2) v1 by (metis acl_view.select_convs(2) acl_view.surjective acl_view.update_convs(3) fst_conv prod.exhaust)
  have "view r2 = (view r1)\<lparr>av_physical := av_physical (view r1) - {h}\<rparr>" by (rule free_ok [OF f])
  then have "view r2 = (view (cm_rt st))\<lparr>av_physical := av_physical (view (cm_rt st)) - {h}, av_mapped := (av_mapped (view (cm_rt st)))(a := None)\<rparr>"
    by (simp add: v1)
  moreover have "unmap_and_release rt d n a p st = Returned () (st\<lparr>cm_rt := r2\<rparr>)"
    by (simp add: unmap_and_release_def e u f h Let_def)
  ultimately show ?thesis by blast
qed

text \<open>An address that is not mapped cannot be unmapped.\<close>

lemma unmap_unmapped:
  assumes "av_mapped (view (cm_rt st)) a = None"
  shows "\<exists>e r. unmap_and_release rt d n a p st = Thrown (UnmapMemFailed e) (st\<lparr>cm_rt := r\<rparr>) \<and> view r = view (cm_rt st)"
proof -
  obtain r0 where e: "ensure_context rt d st = st\<lparr>cm_rt := r0\<rparr>" "view r0 = view (cm_rt st)" using ensure_effect by blast
  obtain e1 r1 where u: "aclrtUnmapMem rt a r0 = (e1, r1)" by fastforce
  have "e1 \<noteq> 0" using unmap_ok [of a r0 r1] u assms e(2) by auto
  then show ?thesis using unmap_fails [OF u] e(2) by (auto simp: unmap_and_release_def e(1) u Let_def)
qed

end

section \<open>A runtime that meets the contract\<close>

text \<open>Addresses and handles are handed out in order; a number of handles can be set as the memory of the device.\<close>

record sim =
  sim_context :: int
  sim_view :: acl_view
  sim_addr :: int
  sim_handle :: int
  sim_limit :: int

definition sim_acl :: "sim acl" where
  "sim_acl =
     \<lparr>aclrtGetCurrentContext = sim_context,
      aclrtCreateContext = (\<lambda>d r. (1, r)),
      aclrtSetCurrentContext = (\<lambda>c r. r\<lparr>sim_context := c\<rparr>),
      aclrtMemGetAllocationGranularity = (\<lambda>d r. (0, 2097152)),
      aclrtReserveMemAddress = (\<lambda>n r.
        if 0 < sim_addr r \<and> sim_addr r < 18446744073709551616 \<and> av_reserved (sim_view r) (sim_addr r) = None
        then (0, sim_addr r, r\<lparr>sim_view := (sim_view r)\<lparr>av_reserved := (av_reserved (sim_view r))(sim_addr r \<mapsto> n)\<rparr>,
                               sim_addr := sim_addr r + n\<rparr>)
        else (207001, 0, r)),
      aclrtMallocPhysical = (\<lambda>n d r.
        if sim_handle r < sim_limit r \<and> sim_handle r \<notin> av_physical (sim_view r)
        then (0, sim_handle r, r\<lparr>sim_view := (sim_view r)\<lparr>av_physical := insert (sim_handle r) (av_physical (sim_view r))\<rparr>,
                                 sim_handle := sim_handle r + 1\<rparr>)
        else (207001, 0, r)),
      aclrtMapMem = (\<lambda>a n h r.
        if av_mapped (sim_view r) a = None
        then (0, r\<lparr>sim_view := (sim_view r)\<lparr>av_mapped := (av_mapped (sim_view r))(a \<mapsto> h)\<rparr>\<rparr>) else (507899, r)),
      aclrtUnmapMem = (\<lambda>a r.
        if av_mapped (sim_view r) a \<noteq> None
        then (0, r\<lparr>sim_view := (sim_view r)\<lparr>av_mapped := (av_mapped (sim_view r))(a := None)\<rparr>\<rparr>) else (507899, r)),
      aclrtFreePhysical = (\<lambda>h r. (0, r\<lparr>sim_view := (sim_view r)\<lparr>av_physical := av_physical (sim_view r) - {h}\<rparr>\<rparr>)),
      aclrtReleaseMemAddress = (\<lambda>a r. (0, r\<lparr>sim_view := (sim_view r)\<lparr>av_reserved := (av_reserved (sim_view r))(a := None)\<rparr>\<rparr>))\<rparr>"

interpretation sim: acl_driver sim_acl sim_view
  by unfold_locales (auto simp: sim_acl_def split: if_splits)

end
