(* ===== verification/CamemTable.thy ===== *)
theory CamemTable
  imports CamemDriver
begin

text \<open>
  The allocation table and the runtime agree: every entry of the table is a reserved address with a
  handle cell of its own, the awake entries are exactly the mapped ones and own exactly the physical
  memory that is in use beyond what was there at the start. Every operation keeps this.
\<close>

section \<open>The invariant\<close>

abbreviation (input) U64_LIM :: int where
  "U64_LIM \<equiv> 18446744073709551616"

definition ad_size :: "alloc_data \<Rightarrow> int" where
  "ad_size d = fst (snd (ad_handle d))"

definition ad_cell :: "alloc_data \<Rightarrow> int" where
  "ad_cell d = snd (snd (snd (ad_handle d)))"

abbreviation (input) cm_table :: "('r, allocator) camem \<Rightarrow> (int \<times> alloc_data) list" where
  "cm_table st \<equiv> pointer_to_data (cm_py st)"

definition handle_of :: "('r, allocator) camem \<Rightarrow> int \<Rightarrow> int" where
  "handle_of st a = the (cm_heap st (ad_cell (the (map_of (pointer_to_data (cm_py st)) a))))"

text \<open>An entry: its handle names its own address, in 64-bit values, and its cell is allocated.\<close>

definition entry_ok :: "acl_view \<Rightarrow> ('r, allocator) camem \<Rightarrow> int \<times> alloc_data \<Rightarrow> bool" where
  "entry_ok v0 st e = (case e of (a, d) \<Rightarrow>
     (case ad_handle d of (dev, n, a', p) \<Rightarrow>
        a' = a \<and> 0 \<le> dev \<and> dev < U64_LIM \<and> 0 \<le> n \<and> n < U64_LIM \<and> 0 < a \<and> a < U64_LIM \<and> 0 \<le> p \<and> p < U64_LIM \<and>
        p < cm_next st \<and> cm_heap st p \<noteq> None \<and> av_reserved v0 a = None \<and> av_mapped v0 a = None))"

text \<open>\<open>v0\<close> is the runtime at the start, \<open>W\<close> the set of awake allocations.\<close>

definition camem_ok :: "('r \<Rightarrow> acl_view) \<Rightarrow> acl_view \<Rightarrow> int set \<Rightarrow> ('r, allocator) camem \<Rightarrow> bool" where
  "camem_ok view v0 W st \<longleftrightarrow>
     g_python_malloc_callback st = Some 1 \<and> g_python_free_callback st = Some 2 \<and> 0 \<le> cm_next st \<and>
     distinct (map fst (cm_table st)) \<and> distinct (map (ad_cell \<circ> snd) (cm_table st)) \<and>
     list_all (entry_ok v0 st) (cm_table st) \<and> W \<subseteq> fst ` set (cm_table st) \<and>
     inj_on (handle_of st) W \<and> handle_of st ` W \<inter> av_physical v0 = {} \<and> ran (av_mapped v0) \<subseteq> av_physical v0 \<and>
     dom (av_mapped v0) \<subseteq> dom (av_reserved v0) \<and>
     view (cm_rt st) =
       \<lparr>av_reserved = (\<lambda>a. case map_of (cm_table st) a of Some d \<Rightarrow> Some (ad_size d) | None \<Rightarrow> av_reserved v0 a),
        av_physical = av_physical v0 \<union> handle_of st ` W,
        av_mapped = (\<lambda>a. if a \<in> W then Some (handle_of st a) else av_mapped v0 a)\<rparr>"

lemma camem_okD:
  assumes "camem_ok view v0 W st"
  shows "g_python_malloc_callback st = Some 1" "g_python_free_callback st = Some 2" "0 \<le> cm_next st"
    "distinct (map fst (cm_table st))" "distinct (map (ad_cell \<circ> snd) (cm_table st))"
    "list_all (entry_ok v0 st) (cm_table st)" "W \<subseteq> fst ` set (cm_table st)"
    "inj_on (handle_of st) W" "handle_of st ` W \<inter> av_physical v0 = {}" "ran (av_mapped v0) \<subseteq> av_physical v0"
    "av_reserved (view (cm_rt st)) = (\<lambda>a. case map_of (cm_table st) a of Some d \<Rightarrow> Some (ad_size d) | None \<Rightarrow> av_reserved v0 a)"
    "av_physical (view (cm_rt st)) = av_physical v0 \<union> handle_of st ` W"
    "av_mapped (view (cm_rt st)) = (\<lambda>a. if a \<in> W then Some (handle_of st a) else av_mapped v0 a)"
    "dom (av_mapped v0) \<subseteq> dom (av_reserved v0)"
  using assms unfolding camem_ok_def by auto

lemma entry_okD:
  assumes "entry_ok v0 st (a, d)"
  obtains dev n p where "ad_handle d = (dev, n, a, p)" "0 \<le> dev" "dev < U64_LIM" "0 \<le> n" "n < U64_LIM" "0 < a" "a < U64_LIM"
    "0 \<le> p" "p < U64_LIM" "p < cm_next st" "cm_heap st p \<noteq> None" "av_reserved v0 a = None" "av_mapped v0 a = None"
    "ad_cell d = p" "ad_size d = n"
  using assms by (cases "ad_handle d") (auto simp: entry_ok_def ad_cell_def ad_size_def)

lemma parse_handle_args:
  "0 \<le> dev \<Longrightarrow> dev < U64_LIM \<Longrightarrow> 0 \<le> n \<Longrightarrow> n < U64_LIM \<Longrightarrow> 0 \<le> a \<Longrightarrow> a < U64_LIM \<Longrightarrow> 0 \<le> p \<Longrightarrow> p < U64_LIM \<Longrightarrow>
    parse_KKKK (handle_args (dev, n, a, p)) = Some (dev, n, a, p)"
  by (simp add: parse_KKKK_def handle_args_def u64_id)

lemma handle_args_length [simp]: "length (handle_args h) = 4"
  by (cases h) (simp add: handle_args_def)

text \<open>The cell of one entry is not that of another.\<close>

lemma cells_apart:
  assumes d: "distinct (map (ad_cell \<circ> snd) t)" and ab: "map_of t a = Some da" "map_of t b = Some db" "a \<noteq> b"
  shows "ad_cell da \<noteq> ad_cell db"
proof
  assume "ad_cell da = ad_cell db"
  moreover have "(a, da) \<in> set t" "(b, db) \<in> set t" using ab by (auto dest: map_of_SomeD)
  moreover have "inj_on (ad_cell \<circ> snd) (set t)" using d by (simp add: distinct_map)
  ultimately show False using ab(3) inj_onD [of "ad_cell \<circ> snd" "set t" "(a, da)" "(b, db)"] by simp
qed

lemma entry_of:
  assumes ok: "camem_ok view v0 W st" and a: "map_of (cm_table st) a = Some d"
  shows "entry_ok v0 st (a, d)"
  using camem_okD(6) [OF ok] map_of_SomeD [OF a] by (simp add: list_all_iff)

lemma awake_entry:
  assumes ok: "camem_ok view v0 W st" and a: "a \<in> W"
  obtains d where "map_of (cm_table st) a = Some d"
  using camem_okD(7) [OF ok] a by (metis in_mono map_of_eq_None_iff not_Some_eq that)

section \<open>The tables under change of one cell or one entry\<close>

text \<open>A new handle in the cell of \<open>a\<close> changes the handle of \<open>a\<close> only.\<close>

lemma handle_of_cell:
  assumes d: "distinct (map (ad_cell \<circ> snd) (cm_table st))" and a: "map_of (cm_table st) a = Some da"
    and st': "cm_table st' = cm_table st" "cm_heap st' = (cm_heap st)(ad_cell da \<mapsto> h)"
  shows "handle_of st' a = h" and "map_of (cm_table st) b = Some db \<Longrightarrow> b \<noteq> a \<Longrightarrow> handle_of st' b = handle_of st b"
proof -
  show "handle_of st' a = h" using a by (simp add: handle_of_def st')
  show "handle_of st' b = handle_of st b" if "map_of (cm_table st) b = Some db" "b \<noteq> a"
    using cells_apart [OF d that(1) a that(2)] that(1) by (simp add: handle_of_def st')
qed

lemma map_of_update:
  "map_of (map (\<lambda>(q, d). if q = p then (q, f d) else (q, d)) t) a = map_option (\<lambda>d. if a = p then f d else d) (map_of t a)"
  by (induction t) auto

lemma set_backup_ok:
  assumes "camem_ok view v0 W st"
  shows "camem_ok view v0 W (set_backup p b st)"
proof -
  let ?f = "\<lambda>(q :: int, d :: alloc_data). if q = p then (q, d\<lparr>ad_backup := b\<rparr>) else (q, d)"
  let ?st = "set_backup p b st"
  have t: "cm_table ?st = map ?f (cm_table st)" by (simp add: set_backup_def)
  have same: "cm_rt ?st = cm_rt st" "cm_heap ?st = cm_heap st" "cm_next ?st = cm_next st"
    "g_python_malloc_callback ?st = g_python_malloc_callback st" "g_python_free_callback ?st = g_python_free_callback st"
    by (simp_all add: set_backup_def)
  have cell: "ad_cell (d\<lparr>ad_backup := b\<rparr>) = ad_cell d" "ad_size (d\<lparr>ad_backup := b\<rparr>) = ad_size d" for d :: alloc_data
    by (simp_all add: ad_cell_def ad_size_def)
  have keys: "map fst (map ?f t) = map fst t" "map (ad_cell \<circ> snd) (map ?f t) = map (ad_cell \<circ> snd) t" for t
    by (induction t) (auto simp: cell)
  have img: "fst ` set (map ?f t) = fst ` set t" for t using arg_cong [OF keys(1) [of t], of set] by (simp only: set_map)
  have all: "list_all (entry_ok v0 ?st) (map ?f t) = list_all (entry_ok v0 st) t" for t
  proof -
    have "entry_ok v0 ?st (?f e) = entry_ok v0 st e" for e by (cases e) (simp add: entry_ok_def same)
    then show ?thesis by (simp add: list_all_iff)
  qed
  have h: "handle_of ?st a = handle_of st a" if aW: "a \<in> W" for a
  proof -
    obtain d where "map_of (cm_table st) a = Some d" by (rule awake_entry [OF assms aW])
    then show ?thesis by (simp add: handle_of_def t same map_of_update cell)
  qed
  have hW: "handle_of ?st ` W = handle_of st ` W" "inj_on (handle_of ?st) W = inj_on (handle_of st) W"
    using h by (simp_all cong: image_cong inj_on_cong)
  have res: "(case map_of (cm_table ?st) a of Some d \<Rightarrow> Some (ad_size d) | None \<Rightarrow> av_reserved v0 a) =
      (case map_of (cm_table st) a of Some d \<Rightarrow> Some (ad_size d) | None \<Rightarrow> av_reserved v0 a)" for a
    by (simp add: t map_of_update cell split: option.splits)
  have m: "(\<lambda>a. if a \<in> W then Some (handle_of ?st a) else av_mapped v0 a) = (\<lambda>a. if a \<in> W then Some (handle_of st a) else av_mapped v0 a)"
    using h by auto
  show ?thesis using assms unfolding camem_ok_def res hW m unfolding t same keys img all .
qed

lemma entry_ok_mono:
  assumes "entry_ok v0 st e" "cm_next st \<le> cm_next st'" "\<And>p. cm_heap st p \<noteq> None \<Longrightarrow> cm_heap st' p \<noteq> None"
  shows "entry_ok v0 st' e"
proof -
  obtain a d where e: "e = (a, d)" by fastforce
  obtain dev n p where "ad_handle d = (dev, n, a, p)" "0 \<le> dev" "dev < U64_LIM" "0 \<le> n" "n < U64_LIM" "0 < a" "a < U64_LIM"
    "0 \<le> p" "p < U64_LIM" "p < cm_next st" "cm_heap st p \<noteq> None" "av_reserved v0 a = None" "av_mapped v0 a = None"
    using entry_okD assms(1) unfolding e by metis
  then show ?thesis using assms(2) assms(3) [of p] by (simp add: e entry_ok_def)
qed

section \<open>Operations\<close>

context acl_driver
begin

text \<open>The physical memory of an awake allocation is given back.\<close>

lemma unmap_awake:
  assumes ok: "camem_ok view v0 W st" and a: "a \<in> W" "map_of (cm_table st) a = Some d"
  shows "\<exists>r. unmap_and_release rt dev n a (ad_cell d) st = Returned () (st\<lparr>cm_rt := r\<rparr>) \<and>
    camem_ok view v0 (W - {a}) (st\<lparr>cm_rt := r\<rparr>)"
proof -
  note D = camem_okD [OF ok]
  have e: "cm_heap st (ad_cell d) \<noteq> None" "av_mapped v0 a = None"
    using entry_okD [OF entry_of [OF ok a(2)]] by metis+
  let ?h = "handle_of st a"
  have h: "cm_heap st (ad_cell d) = Some ?h" using e(1) a(2) by (auto simp: handle_of_def)
  have m: "av_mapped (view (cm_rt st)) a = Some ?h" "?h \<in> av_physical (view (cm_rt st))" using a D(12,13) by auto
  have only: "b = a" if "av_mapped (view (cm_rt st)) b = Some ?h" for b
  proof (cases "b \<in> W")
    case True
    then show ?thesis using that a(1) D(8,13) by (auto dest: inj_onD)
  next
    case False
    then have "?h \<in> av_physical v0" using that D(10,13) by (auto simp: ran_def)
    then show ?thesis using D(9) a(1) by auto
  qed
  obtain r where r: "unmap_and_release rt dev n a (ad_cell d) st = Returned () (st\<lparr>cm_rt := r\<rparr>)"
    and v: "view r = (view (cm_rt st))\<lparr>av_physical := av_physical (view (cm_rt st)) - {?h},
       av_mapped := (av_mapped (view (cm_rt st)))(a := None)\<rparr>"
    using unmap_effect [OF h m only] by blast
  have hs: "handle_of (st\<lparr>cm_rt := r\<rparr>) = handle_of st" by (simp add: handle_of_def fun_eq_iff)
  have ent: "entry_ok v0 (st\<lparr>cm_rt := r\<rparr>) = entry_ok v0 st" by (simp add: entry_ok_def fun_eq_iff)
  have ph: "av_physical v0 \<union> handle_of st ` W - {?h} = av_physical v0 \<union> handle_of st ` (W - {a})"
    using D(8,9) a(1) by (auto dest: inj_onD)
  have mp: "(\<lambda>b. if b \<in> W then Some (handle_of st b) else av_mapped v0 b)(a := None) =
      (\<lambda>b. if b \<in> W - {a} then Some (handle_of st b) else av_mapped v0 b)" using e(2) by auto
  have "camem_ok view v0 (W - {a}) (st\<lparr>cm_rt := r\<rparr>)"
    unfolding camem_ok_def hs ent using D v ph mp by (auto simp: inj_on_diff)
  then show ?thesis using r by blast
qed

text \<open>An allocation gets physical memory, whose handle is stored in its cell.\<close>

lemma create_awake:
  assumes ok: "camem_ok view v0 W st" and a: "a \<notin> W" "map_of (cm_table st) a = Some d"
    and run: "create_and_map rt dev n a (ad_cell d) st = Returned () st'"
  shows "camem_ok view v0 (insert a W) st' \<and> (\<exists>r h. st' = st\<lparr>cm_rt := r, cm_heap := (cm_heap st)(ad_cell d \<mapsto> h)\<rparr>)"
proof -
  note D = camem_okD [OF ok]
  obtain h r where st': "st' = st\<lparr>cm_rt := r, cm_heap := (cm_heap st)(ad_cell d \<mapsto> h)\<rparr>" and hp: "h \<notin> av_physical (view (cm_rt st))"
    and v: "view r = (view (cm_rt st))\<lparr>av_physical := insert h (av_physical (view (cm_rt st))),
       av_mapped := (av_mapped (view (cm_rt st)))(a \<mapsto> h)\<rparr>"
    using create_effect [OF run] by blast
  have tab: "cm_table st' = cm_table st" "cm_heap st' = (cm_heap st)(ad_cell d \<mapsto> h)" by (simp_all add: st')
  note hc = handle_of_cell [OF D(5) a(2) tab]
  have hW: "handle_of st' b = handle_of st b" if bW: "b \<in> W" for b
  proof -
    obtain db where "map_of (cm_table st) b = Some db" by (rule awake_entry [OF ok bW])
    then show ?thesis using hc(2) [of b db] bW a(1) by blast
  qed
  then have img: "handle_of st' ` W = handle_of st ` W" by auto
  have ent: "list_all (entry_ok v0 st') (cm_table st)"
    by (rule list.pred_mono_strong [OF D(6)]) (auto intro: entry_ok_mono simp: st')
  have "h \<notin> handle_of st ` W" "h \<notin> av_physical v0" using hp D(12) by auto
  moreover have "inj_on (handle_of st') W" using D(8) hW by (simp cong: inj_on_cong)
  ultimately have inj: "inj_on (handle_of st') (insert a W)" using a(1) hc(1) by (auto simp: img)
  have mp: "(\<lambda>b. if b \<in> W then Some (handle_of st b) else av_mapped v0 b)(a \<mapsto> h) =
      (\<lambda>b. if b \<in> insert a W then Some (handle_of st' b) else av_mapped v0 b)" using hW hc(1) by auto
  have im: "handle_of st' ` insert a W = insert h (handle_of st ` W)" by (simp add: img hc(1))
  have fields: "g_python_malloc_callback st' = Some 1" "g_python_free_callback st' = Some 2" "cm_next st' = cm_next st" "cm_rt st' = r"
    using D(1,2) by (simp_all add: st')
  have view': "view r = \<lparr>av_reserved = (\<lambda>a. case map_of (cm_table st) a of Some d \<Rightarrow> Some (ad_size d) | None \<Rightarrow> av_reserved v0 a),
        av_physical = av_physical v0 \<union> insert h (handle_of st ` W),
        av_mapped = (\<lambda>b. if b \<in> insert a W then Some (handle_of st' b) else av_mapped v0 b)\<rparr>"
    unfolding v mp [symmetric] D(13) [symmetric] using D(11,12) by (intro acl_view.equality) simp_all
  have "a \<in> fst ` set (cm_table st)" using a(2) by (force dest: map_of_SomeD)
  then have "camem_ok view v0 (insert a W) st'"
    unfolding camem_ok_def im fields view' tab(1)
    using D(3-5,7,9,10,14) ent inj \<open>h \<notin> av_physical v0\<close> by simp
  then show ?thesis using st' by blast
qed

end

end
