(* ===== verification/CamemOps.thy ===== *)
theory CamemOps
  imports CamemTable
begin

text \<open>
  The allocator's operations on the allocation table: allocation, freeing, sleep and wake-up keep the
  agreement of table and runtime, and change the set of awake allocations as they should.
\<close>

section \<open>New and removed entries\<close>

lemma map_of_other: "a \<noteq> b \<Longrightarrow> map_of (filter (\<lambda>(p, d). p \<noteq> a) t) b = map_of t b"
  by (induction t) auto

lemma map_of_removed: "map_of (filter (\<lambda>(p, d). p \<noteq> a) t) a = None"
  by (induction t) auto

text \<open>A reserved address is entered with a new cell, asleep.\<close>

lemma enter_asleep:
  assumes ok: "camem_ok view v0 W st" and fresh: "av_reserved (view (cm_rt st)) a = None" and a: "0 < a" "a < U64_LIM"
    and v: "view r = (view (cm_rt st))\<lparr>av_reserved := (av_reserved (view (cm_rt st)))(a \<mapsto> n)\<rparr>"
    and d: "ad_handle d = (dev, n, a, cm_next st)" "0 \<le> dev" "dev < U64_LIM" "0 \<le> n" "n < U64_LIM" "cm_next st < U64_LIM"
  shows "a \<notin> fst ` set (cm_table st)" and "camem_ok view v0 W (st\<lparr>cm_rt := r, cm_heap := (cm_heap st)(cm_next st \<mapsto> 0),
      cm_next := cm_next st + 8, cm_py := (cm_py st)\<lparr>pointer_to_data := cm_table st @ [(a, d)]\<rparr>\<rparr>)"
proof -
  note D = camem_okD [OF ok]
  let ?p = "cm_next st"
  let ?st = "st\<lparr>cm_rt := r, cm_heap := (cm_heap st)(?p \<mapsto> 0), cm_next := ?p + 8, cm_py := (cm_py st)\<lparr>pointer_to_data := cm_table st @ [(a, d)]\<rparr>\<rparr>"
  have none: "map_of (cm_table st) a = None" "av_reserved v0 a = None" using fresh D(11) by (auto split: option.splits)
  then show new: "a \<notin> fst ` set (cm_table st)" by (simp add: map_of_eq_None_iff)
  have v0: "av_mapped v0 a = None" using D(14) none(2) by (auto simp: dom_def)
  have cells: "ad_cell e < ?p" if "(b, e) \<in> set (cm_table st)" for b e
    using D(6) that entry_okD [of v0 st b e] by (metis list_all_iff)
  have at: "map_of (cm_table st @ [(a, d)]) b = Some e" if "map_of (cm_table st) b = Some e" for b e
    using that by (simp add: map_add_def)
  have h: "handle_of ?st b = handle_of st b" if bW: "b \<in> W" for b
  proof -
    obtain e where e: "map_of (cm_table st) b = Some e" by (rule awake_entry [OF ok bW])
    then have "ad_cell e \<noteq> ?p" using cells map_of_SomeD by fastforce
    then show ?thesis using at [OF e] e by (simp add: handle_of_def)
  qed
  have img: "handle_of ?st ` W = handle_of st ` W" "inj_on (handle_of ?st) W" using h D(8) by (simp_all cong: image_cong inj_on_cong)
  have m: "(\<lambda>b. if b \<in> W then Some (handle_of ?st b) else av_mapped v0 b) = (\<lambda>b. if b \<in> W then Some (handle_of st b) else av_mapped v0 b)"
    using h by auto
  have "list_all (entry_ok v0 ?st) (cm_table st)"
    by (rule list.pred_mono_strong [OF D(6)]) (auto intro: entry_ok_mono)
  moreover have "entry_ok v0 ?st (a, d)" using a d D(3) none(2) v0 by (simp add: entry_ok_def)
  ultimately have ent: "list_all (entry_ok v0 ?st) (cm_table ?st)" by simp
  have cd: "ad_cell d = ?p" "ad_size d = n" using d(1) by (simp_all add: ad_cell_def ad_size_def)
  have cells': "distinct (map (ad_cell \<circ> snd) (cm_table ?st))" using D(5) cells cd by fastforce
  have keys: "distinct (map fst (cm_table ?st))" using D(4) new by auto
  have res: "(av_reserved (view (cm_rt st)))(a \<mapsto> n) =
      (\<lambda>b. case map_of (cm_table ?st) b of Some d \<Rightarrow> Some (ad_size d) | None \<Rightarrow> av_reserved v0 b)"
    using none cd by (auto simp: D(11) fun_eq_iff map_add_def split: option.splits)
  have view': "view (cm_rt ?st) = \<lparr>av_reserved = (\<lambda>b. case map_of (cm_table ?st) b of Some d \<Rightarrow> Some (ad_size d) | None \<Rightarrow> av_reserved v0 b),
        av_physical = av_physical v0 \<union> handle_of ?st ` W,
        av_mapped = (\<lambda>b. if b \<in> W then Some (handle_of ?st b) else av_mapped v0 b)\<rparr>"
    unfolding res [symmetric] img m using v D(12,13) by (intro acl_view.equality) simp_all
  have "W \<subseteq> fst ` set (cm_table ?st)" using D(7) by auto
  then show "camem_ok view v0 W ?st"
    unfolding camem_ok_def view' using D(1-3,9,10,14) keys cells' ent img by simp
qed

text \<open>The entry of a sleeping allocation is removed with its reservation and its cell.\<close>

lemma remove_asleep:
  assumes ok: "camem_ok view v0 W st" and a: "a \<notin> W" "map_of (cm_table st) a = Some d"
    and v: "view r = (view (cm_rt st))\<lparr>av_reserved := (av_reserved (view (cm_rt st)))(a := None)\<rparr>"
  shows "camem_ok view v0 W (st\<lparr>cm_rt := r, cm_heap := (cm_heap st)(ad_cell d := None),
      cm_py := (cm_py st)\<lparr>pointer_to_data := filter (\<lambda>(p, d). p \<noteq> a) (cm_table st)\<rparr>\<rparr>)" (is "camem_ok view v0 W ?st")
proof -
  note D = camem_okD [OF ok]
  let ?t = "filter (\<lambda>(p, d). p \<noteq> a) (cm_table st)"
  have none: "av_reserved v0 a = None" using entry_okD [OF entry_of [OF ok a(2)]] by metis
  have t: "cm_table ?st = ?t" by simp
  have other: "map_of ?t b = map_of (cm_table st) b" if "b \<noteq> a" for b using map_of_other [of a b] that by simp
  have h: "handle_of ?st b = handle_of st b" if bW: "b \<in> W" for b
  proof -
    obtain e where e: "map_of (cm_table st) b = Some e" by (rule awake_entry [OF ok bW])
    have "b \<noteq> a" using bW a(1) by blast
    then show ?thesis using cells_apart [OF D(5) e a(2)] e other by (simp add: handle_of_def)
  qed
  have img: "handle_of ?st ` W = handle_of st ` W" "inj_on (handle_of ?st) W" using h D(8) by (simp_all cong: image_cong inj_on_cong)
  have m: "(\<lambda>b. if b \<in> W then Some (handle_of ?st b) else av_mapped v0 b) = (\<lambda>b. if b \<in> W then Some (handle_of st b) else av_mapped v0 b)"
    using h by auto
  have ent: "list_all (entry_ok v0 ?st) ?t"
    unfolding list_all_iff
  proof
    fix x assume x: "x \<in> set ?t"
    obtain b e where be: "x = (b, e)" "b \<noteq> a" "(b, e) \<in> set (cm_table st)" using x by auto
    then have "map_of (cm_table st) b = Some e" using D(4) by (simp add: map_of_eq_Some_iff)
    then have "ad_cell e \<noteq> ad_cell d" "entry_ok v0 st (b, e)" using cells_apart [OF D(5) _ a(2) be(2)] entry_of [OF ok] by auto
    then show "entry_ok v0 ?st x" unfolding be(1) by (auto simp: entry_ok_def ad_cell_def split: prod.splits)
  qed
  have sub: "W \<subseteq> fst ` set ?t" using D(7) a(1) by force
  have keys: "distinct (map fst ?t)" "distinct (map (ad_cell \<circ> snd) ?t)" using D(4,5) by (auto intro: distinct_map_filter)
  have res: "(av_reserved (view (cm_rt st)))(a := None) =
      (\<lambda>b. case map_of ?t b of Some d \<Rightarrow> Some (ad_size d) | None \<Rightarrow> av_reserved v0 b)"
  proof
    fix b show "((av_reserved (view (cm_rt st)))(a := None)) b = (case map_of ?t b of Some d \<Rightarrow> Some (ad_size d) | None \<Rightarrow> av_reserved v0 b)"
      using none by (cases "b = a") (auto simp: D(11) map_of_removed other)
  qed
  have view': "view (cm_rt ?st) = \<lparr>av_reserved = (\<lambda>b. case map_of ?t b of Some d \<Rightarrow> Some (ad_size d) | None \<Rightarrow> av_reserved v0 b),
        av_physical = av_physical v0 \<union> handle_of ?st ` W,
        av_mapped = (\<lambda>b. if b \<in> W then Some (handle_of ?st b) else av_mapped v0 b)\<rparr>"
    unfolding res [symmetric] img m using v D(12,13) by (intro acl_view.equality) simp_all
  show ?thesis unfolding camem_ok_def view' t using D(1-3,9,10,14) keys ent sub img by simp
qed

section \<open>Allocation and freeing\<close>

lemma u64_range [simp]: "0 \<le> u64 x" "u64 x < 18446744073709551616"
  by (simp_all add: u64_def)

lemma aligned_size_range [simp]: "0 \<le> aligned_size n g" "aligned_size n g < 18446744073709551616"
  by (simp_all add: aligned_size_def)

definition new_data :: "('r, allocator) camem \<Rightarrow> int \<Rightarrow> int \<Rightarrow> int \<Rightarrow> alloc_data" where
  "new_data st dev n a = \<lparr>ad_handle = (dev, n, a, cm_next st), ad_tag = current_tag (cm_py st), ad_backup = False\<rparr>"

text \<open>The state when an address is reserved and entered, before physical memory is asked for.\<close>

definition entered :: "('r, allocator) camem \<Rightarrow> int \<Rightarrow> int \<Rightarrow> int \<Rightarrow> 'r \<Rightarrow> ('r, allocator) camem" where
  "entered st dev n a r = st\<lparr>cm_rt := r, cm_heap := (cm_heap st)(cm_next st \<mapsto> 0), cm_next := cm_next st + 8,
     cm_py := (cm_py st)\<lparr>pointer_to_data := pointer_to_data (cm_py st) @ [(a, new_data st dev n a)]\<rparr>\<rparr>"

context acl_driver
begin

lemma my_malloc_stages:
  assumes ok: "camem_ok view v0 W st" and p: "cm_next st < U64_LIM"
    and run: "my_malloc rt allocator_call n dev st = res"
  shows "(\<exists>e r. res = Thrown e (st\<lparr>cm_rt := r\<rparr>) \<and> view r = view (cm_rt st)) \<or> res = Crashed \<or>
    (\<exists>g a r r0. aclrtMemGetAllocationGranularity rt (u64 dev) r0 = (0, g) \<and> g \<noteq> 0 \<and>
       a \<notin> fst ` set (cm_table st) \<and> camem_ok view v0 W (entered st (u64 dev) (aligned_size n g) a r) \<and>
       res = obind (create_and_map rt (u64 dev) (aligned_size n g) a (cm_next st) (entered st (u64 dev) (aligned_size n g) a r))
               (\<lambda>_ s. Returned a s))"
proof -
  note D = camem_okD [OF ok]
  obtain r0 where e: "ensure_context rt (u64 dev) st = st\<lparr>cm_rt := r0\<rparr>" "view r0 = view (cm_rt st)" using ensure_effect by blast
  obtain e1 g where g: "aclrtMemGetAllocationGranularity rt (u64 dev) r0 = (e1, g)" by fastforce
  let ?n = "aligned_size n g"
  obtain e2 a r1 where rv: "aclrtReserveMemAddress rt ?n r0 = (e2, a, r1)" by (metis prod_cases3)
  consider "e1 \<noteq> 0" | "e1 = 0" "g = 0" | "e1 = 0" "g \<noteq> 0" "e2 \<noteq> 0" | "e1 = 0" "g \<noteq> 0" "e2 = 0" by blast
  then show ?thesis
  proof cases
    case 1
    then have "res = Thrown (GranularityFailed e1) (st\<lparr>cm_rt := r0\<rparr>)" using run by (simp add: my_malloc_def e(1) g Let_def)
    then show ?thesis using e(2) by blast
  next
    case 2
    then show ?thesis using run by (simp add: my_malloc_def e(1) g Let_def)
  next
    case 3
    then have "\<exists>x. res = Thrown x (st\<lparr>cm_rt := r1\<rparr>)" using run by (auto simp: my_malloc_def e(1) g rv Let_def)
    then show ?thesis using reserve_fails [OF rv 3(3)] e(2) by auto
  next
    case 4
    have a: "0 < a" "a < U64_LIM" "av_reserved (view (cm_rt st)) a = None"
      and v: "view r1 = (view (cm_rt st))\<lparr>av_reserved := (av_reserved (view (cm_rt st)))(a \<mapsto> ?n)\<rparr>"
      using reserve_ok [of ?n r0 a r1] rv 4(3) e(2) by auto
    have d: "ad_handle (new_data st (u64 dev) ?n a) = (u64 dev, ?n, a, cm_next st)" by (simp add: new_data_def)
    note enter = enter_asleep [OF ok a(3,1,2) v d u64_range aligned_size_range p]
    have w: "u64 ?n = ?n" "u64 a = a" "u64 (cm_next st) = cm_next st" using a p D(3) by (auto intro!: u64_id)
    have cb: "python_malloc_callback (u64 dev, ?n, a, cm_next st) (cm_py st) =
        (cm_py st)\<lparr>pointer_to_data := cm_table st @ [(a, new_data st (u64 dev) ?n a)]\<rparr>"
      using enter(1) by (simp add: python_malloc_callback_def new_data_def)
    have "res = obind (create_and_map rt (u64 dev) ?n a (cm_next st) (entered st (u64 dev) ?n a r1)) (\<lambda>_ s. Returned a s)"
      using run 4 D(1)
      by (simp add: my_malloc_def e(1) g rv Let_def allocator_call_def create_tuple_from_c_integers_def w cb entered_def)
    then show ?thesis using enter g 4 unfolding entered_def by blast
  qed
qed

lemma my_malloc_ok:
  assumes ok: "camem_ok view v0 W st" and p: "cm_next st < U64_LIM"
    and run: "my_malloc rt allocator_call n dev st = Returned a st'"
  shows "\<exists>g r0. aclrtMemGetAllocationGranularity rt (u64 dev) r0 = (0, g) \<and> g \<noteq> 0 \<and> a \<notin> fst ` set (cm_table st) \<and>
    camem_ok view v0 (insert a W) st' \<and> cm_table st' = cm_table st @ [(a, new_data st (u64 dev) (aligned_size n g) a)] \<and>
    current_tag (cm_py st') = current_tag (cm_py st) \<and> cm_gil st' = cm_gil st \<and> cm_next st' = cm_next st + 8 \<and>
    (\<exists>h. cm_heap st' = (cm_heap st)(cm_next st \<mapsto> h))"
proof -
  from my_malloc_stages [OF ok p run] obtain g b r r0
    where g: "aclrtMemGetAllocationGranularity rt (u64 dev) r0 = (0, g)" "g \<noteq> 0" and b: "b \<notin> fst ` set (cm_table st)"
      and ok1: "camem_ok view v0 W (entered st (u64 dev) (aligned_size n g) b r)"
      and r: "Returned a st' = obind (create_and_map rt (u64 dev) (aligned_size n g) b (cm_next st)
           (entered st (u64 dev) (aligned_size n g) b r)) (\<lambda>_ s. Returned b s)" by auto
  let ?st = "entered st (u64 dev) (aligned_size n g) b r" and ?d = "new_data st (u64 dev) (aligned_size n g) b"
  have ab: "a = b" "create_and_map rt (u64 dev) (aligned_size n g) b (cm_next st) ?st = Returned () st'"
    using r by (auto simp: obind_def split: outcome.splits)
  have tab: "cm_table ?st = cm_table st @ [(b, ?d)]" "ad_cell ?d = cm_next st" by (simp_all add: entered_def ad_cell_def new_data_def)
  have at: "map_of (cm_table ?st) b = Some ?d" using b by (simp add: tab map_add_def map_of_eq_None_iff [symmetric])
  have "b \<notin> W" using camem_okD(7) [OF ok] b by blast
  from create_awake [OF ok1 this at] ab(2) have "camem_ok view v0 (insert b W) st'"
      "\<exists>r' h. st' = ?st\<lparr>cm_rt := r', cm_heap := (cm_heap ?st)(cm_next st \<mapsto> h)\<rparr>" unfolding tab(2) by blast+
  then obtain r' h where ok': "camem_ok view v0 (insert b W) st'" and st': "st' = ?st\<lparr>cm_rt := r', cm_heap := (cm_heap ?st)(cm_next st \<mapsto> h)\<rparr>" by blast
  have "cm_heap st' = (cm_heap st)(cm_next st \<mapsto> h)" by (simp add: st' entered_def)
  then show ?thesis using g b ok' unfolding ab(1) by (intro exI [of _ g] exI [of _ r0]) (auto simp: st' entered_def)
qed

text \<open>When physical memory or its mapping fails, the entry is already in the table and stays there.\<close>

lemma my_malloc_thrown:
  assumes ok: "camem_ok view v0 W st" and p: "cm_next st < U64_LIM"
    and run: "my_malloc rt allocator_call n dev st = Thrown e st'"
  shows "cm_table st' = cm_table st \<and> view (cm_rt st') = view (cm_rt st) \<or>
    (\<exists>a d. a \<notin> fst ` set (cm_table st) \<and> cm_table st' = cm_table st @ [(a, d)] \<and> ad_tag d = current_tag (cm_py st) \<and>
       ad_handle d = (u64 dev, ad_size d, a, cm_next st) \<and> 0 < a \<and> a < U64_LIM \<and> 0 \<le> ad_size d \<and> ad_size d < U64_LIM \<and>
       av_reserved (view (cm_rt st')) a = Some (ad_size d) \<and> av_mapped (view (cm_rt st')) a = None)"
proof -
  from my_malloc_stages [OF ok p run] consider r where "st' = st\<lparr>cm_rt := r\<rparr>" "view r = view (cm_rt st)"
    | g a r where "a \<notin> fst ` set (cm_table st)" "camem_ok view v0 W (entered st (u64 dev) (aligned_size n g) a r)"
      "Thrown e st' = obind (create_and_map rt (u64 dev) (aligned_size n g) a (cm_next st)
         (entered st (u64 dev) (aligned_size n g) a r)) (\<lambda>_ s. Returned a s)" by auto
  then show ?thesis
  proof cases
    case 1
    then show ?thesis by simp
  next
    case 2
    let ?st = "entered st (u64 dev) (aligned_size n g) a r" and ?d = "new_data st (u64 dev) (aligned_size n g) a"
    have "create_and_map rt (u64 dev) (aligned_size n g) a (cm_next st) ?st = Thrown e st'"
      using 2(3) by (auto simp: obind_def split: outcome.splits)
    from create_thrown [OF this] obtain h r' where st': "st' = ?st\<lparr>cm_rt := r', cm_heap := (cm_heap ?st)(cm_next st \<mapsto> h)\<rparr>"
      and v: "av_reserved (view r') = av_reserved (view (cm_rt ?st))" "av_mapped (view r') = av_mapped (view (cm_rt ?st))" by blast
    have tab: "cm_table ?st = cm_table st @ [(a, ?d)]" by (simp add: entered_def)
    have at: "map_of (cm_table ?st) a = Some ?d" using 2(1) by (simp add: tab map_add_def map_of_eq_None_iff [symmetric])
    have "a \<notin> W" using camem_okD(7) [OF ok] 2(1) by blast
    moreover have e: "0 < a" "a < U64_LIM" "av_mapped v0 a = None" using entry_okD [OF entry_of [OF 2(2) at]] by metis+
    ultimately have "av_mapped (view (cm_rt st')) a = None" "av_reserved (view (cm_rt st')) a = Some (ad_size ?d)"
      using v camem_okD(11,13) [OF 2(2)] at by (simp_all add: st')
    moreover have "cm_table st' = cm_table st @ [(a, ?d)]" by (simp add: st' tab)
    moreover have "ad_tag ?d = current_tag (cm_py st)" "ad_handle ?d = (u64 dev, ad_size ?d, a, cm_next st)"
      "0 \<le> ad_size ?d" "ad_size ?d < U64_LIM" by (simp_all add: new_data_def ad_size_def)
    ultimately show ?thesis using 2(1) e by blast
  qed
qed

end

end
