(* ===== verification/CamemSleep.thy ===== *)
theory CamemSleep
  imports CamemOps
begin

text \<open>Freeing an allocation, and the loops of sleep and wake-up over the allocation table.\<close>

section \<open>Freeing\<close>

lemma unmap_frame:
  "unmap_and_release rt d n a p (st\<lparr>cm_py := q\<rparr>) =
     (case unmap_and_release rt d n a p st of Returned u s \<Rightarrow> Returned u (s\<lparr>cm_py := q\<rparr>)
      | Thrown e s \<Rightarrow> Thrown e (s\<lparr>cm_py := q\<rparr>) | Crashed \<Rightarrow> Crashed)"
proof -
  have ens: "ensure_context rt d (st\<lparr>cm_py := q\<rparr>) = (ensure_context rt d st)\<lparr>cm_py := q\<rparr>"
    by (simp add: ensure_context_def split: prod.split)
  show ?thesis by (simp add: unmap_and_release_def Let_def ens split: prod.split option.split)
qed

context acl_driver
begin

lemma my_free_ok:
  assumes ok: "camem_ok view v0 W st" and a: "a \<in> W"
  shows "\<exists>st'. my_free rt allocator_call a n dev st = Returned () st' \<and> camem_ok view v0 (W - {a}) st' \<and>
    cm_table st' = filter (\<lambda>(p, d). p \<noteq> a) (cm_table st) \<and> current_tag (cm_py st') = current_tag (cm_py st) \<and>
    cm_gil st' = cm_gil st \<and> cm_next st' = cm_next st \<and> cm_error st' = cm_error st \<and>
    (\<forall>d. map_of (cm_table st) a = Some d \<longrightarrow> cm_heap st' = (cm_heap st)(ad_cell d := None))"
proof -
  note D = camem_okD [OF ok]
  obtain d where d: "map_of (cm_table st) a = Some d" by (rule awake_entry [OF ok a])
  obtain dev' n' p where e: "ad_handle d = (dev', n', a, p)" "0 \<le> dev'" "dev' < U64_LIM" "0 \<le> n'" "n' < U64_LIM" "0 < a" "a < U64_LIM"
    "0 \<le> p" "p < U64_LIM" "ad_cell d = p"
    by (rule entry_okD [OF entry_of [OF ok d]], rule that)
  have pk: "parse_KKKK (handle_args (dev', n', a, p)) = Some (dev', n', a, p)" by (rule parse_handle_args) (use e in auto)
  let ?q = "(cm_py st)\<lparr>pointer_to_data := filter (\<lambda>(p, d). p \<noteq> a) (cm_table st)\<rparr>"
  have call: "allocator_call 2 (PyLong (u64 a)) (cm_py st) = (Some (PyTuple (handle_args (dev', n', a, p))), ?q)"
    using e by (simp add: allocator_call_def u64_id python_free_callback_def d)
  obtain r where r: "unmap_and_release rt (u64 dev) n a p st = Returned () (st\<lparr>cm_rt := r\<rparr>)"
    and ok1: "camem_ok view v0 (W - {a}) (st\<lparr>cm_rt := r\<rparr>)" using unmap_awake [OF ok a d] e(10) by blast
  have "av_reserved (view r) a \<noteq> None" "av_mapped (view r) a = None"
    using camem_okD(11,13) [OF ok1] d entry_okD [OF entry_of [OF ok d]] by auto
  then obtain r' where rel: "aclrtReleaseMemAddress rt a r = (0, r')" using release_works [of r a] by (metis fst_conv prod.exhaust)
  have v: "view r' = (view (cm_rt (st\<lparr>cm_rt := r\<rparr>)))\<lparr>av_reserved := (av_reserved (view (cm_rt (st\<lparr>cm_rt := r\<rparr>))))(a := None)\<rparr>"
    using release_ok [OF rel] by simp
  let ?st = "st\<lparr>cm_rt := r', cm_heap := (cm_heap st)(p := None), cm_py := ?q\<rparr>"
  have ok2: "camem_ok view v0 (W - {a}) ?st" using remove_asleep [OF ok1 _ _ v] d e(10) by simp
  have "my_free rt allocator_call a n dev st = Returned () ?st"
    using D(2) by (simp add: my_free_def call Let_def pk obind_def unmap_frame r rel)
  then show ?thesis using ok2 d e(10) by (intro exI [of _ ?st]) simp
qed

text \<open>A pointer that is not in the table: an error is left pending, and the interpreter lock taken.\<close>

lemma my_free_unknown:
  assumes ok: "camem_ok view v0 W st" and a: "0 \<le> a" "a < U64_LIM" "a \<notin> fst ` set (cm_table st)"
  shows "my_free rt allocator_call a n dev st = Returned () (st\<lparr>cm_gil := cm_gil st + 1, cm_error := True\<rparr>)"
proof -
  have "map_of (cm_table st) a = None" using a(3) by (simp add: map_of_eq_None_iff)
  then have "allocator_call 2 (PyLong (u64 a)) (cm_py st) = (None, cm_py st)"
    using a by (simp add: allocator_call_def u64_id python_free_callback_def)
  then show ?thesis using camem_okD(2) [OF ok] by (simp add: my_free_def Let_def)
qed

text \<open>A sleeping allocation: its entry is gone when the runtime refuses to unmap it.\<close>

lemma my_free_asleep:
  assumes ok: "camem_ok view v0 W st" and a: "a \<notin> W" and d: "map_of (cm_table st) a = Some d"
  shows "\<exists>e st'. my_free rt allocator_call a n dev st = Thrown (UnmapMemFailed e) st' \<and>
    cm_table st' = filter (\<lambda>(p, d). p \<noteq> a) (cm_table st) \<and> view (cm_rt st') = view (cm_rt st) \<and>
    av_reserved (view (cm_rt st')) a = Some (ad_size d)"
proof -
  note D = camem_okD [OF ok]
  obtain dev' n' p where e: "ad_handle d = (dev', n', a, p)" "0 \<le> dev'" "dev' < U64_LIM" "0 \<le> n'" "n' < U64_LIM" "0 < a" "a < U64_LIM"
    "0 \<le> p" "p < U64_LIM" "av_mapped v0 a = None"
    by (rule entry_okD [OF entry_of [OF ok d]], rule that)
  have pk: "parse_KKKK (handle_args (dev', n', a, p)) = Some (dev', n', a, p)" by (rule parse_handle_args) (use e in auto)
  let ?q = "(cm_py st)\<lparr>pointer_to_data := filter (\<lambda>(p, d). p \<noteq> a) (cm_table st)\<rparr>"
  let ?st = "st\<lparr>cm_py := ?q\<rparr>"
  have call: "allocator_call 2 (PyLong (u64 a)) (cm_py st) = (Some (PyTuple (handle_args (dev', n', a, p))), ?q)"
    using e by (simp add: allocator_call_def u64_id python_free_callback_def d)
  have "av_mapped (view (cm_rt ?st)) a = None" using D(13) a e(10) by simp
  from unmap_unmapped [OF this, of "u64 dev" n p] obtain x r
    where "unmap_and_release rt (u64 dev) n a p ?st = Thrown (UnmapMemFailed x) (?st\<lparr>cm_rt := r\<rparr>)" "view r = view (cm_rt st)" by auto
  moreover from this(1) have "my_free rt allocator_call a n dev st = Thrown (UnmapMemFailed x) (?st\<lparr>cm_rt := r\<rparr>)"
    using D(2) by (simp add: my_free_def call Let_def pk obind_def)
  ultimately show ?thesis using D(11) d by (intro exI [of _ x] exI [of _ "?st\<lparr>cm_rt := r\<rparr>"]) simp
qed

end

section \<open>Sleep and wake-up\<close>

text \<open>What the loops do not change: pointers, handles and tags of the table.\<close>

definition table_shape :: "(int \<times> alloc_data) list \<Rightarrow> (int \<times> (int \<times> int \<times> int \<times> int) \<times> string) list" where
  "table_shape t = map (\<lambda>(a, d). (a, ad_handle d, ad_tag d)) t"

lemma set_backup_shape: "table_shape (pointer_to_data (cm_py (set_backup p b st))) = table_shape (pointer_to_data (cm_py st))"
  by (auto simp: set_backup_def table_shape_def)

lemma set_backup_rt [simp]: "cm_rt (set_backup p b st) = cm_rt st"
  by (simp add: set_backup_def)

lemma table_shape_lookup:
  assumes "table_shape t = table_shape t'" "map_of t a = Some d"
  shows "\<exists>d'. map_of t' a = Some d' \<and> ad_handle d' = ad_handle d \<and> ad_tag d' = ad_tag d"
proof -
  have m: "map_of (table_shape u) a = map_option (\<lambda>d. (ad_handle d, ad_tag d)) (map_of u a)" for u
    by (induction u) (auto simp: table_shape_def)
  show ?thesis using assms(2) m [of t] m [of t'] unfolding assms(1) by auto
qed

definition sleepers :: "(int \<times> alloc_data) list \<Rightarrow> int set" where
  "sleepers t = {a. \<exists>d. (a, d) \<in> set t \<and> ad_tag d \<noteq> sleep_persistent_tag}"

definition wakers :: "string list option \<Rightarrow> (int \<times> alloc_data) list \<Rightarrow> int set" where
  "wakers tags t = {a. \<exists>d. (a, d) \<in> set t \<and> ad_tag d \<noteq> sleep_persistent_tag \<and> (tags = None \<or> ad_tag d \<in> set (the tags))}"

definition same_process :: "('r, allocator) camem \<Rightarrow> ('r, allocator) camem \<Rightarrow> bool" where
  "same_process st st' \<longleftrightarrow> table_shape (pointer_to_data (cm_py st')) = table_shape (pointer_to_data (cm_py st)) \<and>
     current_tag (cm_py st') = current_tag (cm_py st) \<and> cm_gil st' = cm_gil st \<and> cm_next st' = cm_next st"

text \<open>The loops run over the entries as they were at the start; the table still has them.\<close>

definition snapshot :: "(int \<times> alloc_data) list \<Rightarrow> ('r, allocator) camem \<Rightarrow> bool" where
  "snapshot es st \<longleftrightarrow> (\<forall>(a, d)\<in>set es. \<exists>d'. map_of (pointer_to_data (cm_py st)) a = Some d' \<and> ad_handle d' = ad_handle d)"

lemma snapshot_self: "distinct (map fst (cm_table st)) \<Longrightarrow> snapshot (cm_table st) st"
  by (auto simp: snapshot_def map_of_eq_Some_iff)

lemma snapshot_kept:
  assumes "snapshot (e # es) st" "same_process st st1"
  shows "snapshot es st1"
  unfolding snapshot_def
proof (intro ballI)
  fix x assume x: "x \<in> set es"
  obtain b db where b: "x = (b, db)" by fastforce
  obtain d' where "map_of (cm_table st) b = Some d'" "ad_handle d' = ad_handle db"
    using assms(1) x unfolding b snapshot_def by auto
  then show "case x of (b, d) \<Rightarrow> \<exists>d'. map_of (cm_table st1) b = Some d' \<and> ad_handle d' = ad_handle d"
    using table_shape_lookup [of "cm_table st" "cm_table st1" b d'] assms(2) unfolding b same_process_def by auto
qed

lemma set_backup_same: "same_process st (set_backup p b st)"
  by (simp add: same_process_def set_backup_shape) (simp add: set_backup_def)

context acl_driver
begin

lemma sleep_one_ok:
  assumes ok: "camem_ok view v0 W st" and d: "map_of (cm_table st) a = Some d'" "ad_handle d' = ad_handle d" and a: "a \<in> W"
    and t: "ad_tag d \<noteq> sleep_persistent_tag"
  shows "\<exists>st'. sleep_one rt ts (a, d) st = Returned () st' \<and> camem_ok view v0 (W - {a}) st' \<and> same_process st st'"
proof -
  define st1 where "st1 = (if ad_tag d \<in> set ts then set_backup a True st else st)"
  have ok1: "camem_ok view v0 W st1" using set_backup_ok [OF ok] ok by (simp add: st1_def)
  have s1: "same_process st st1" using set_backup_same [of st] by (simp add: st1_def same_process_def)
  obtain d1 where d1: "map_of (cm_table st1) a = Some d1" "ad_handle d1 = ad_handle d"
    using table_shape_lookup [of "cm_table st" "cm_table st1", OF _ d(1)] s1 d(2) by (auto simp: same_process_def)
  obtain dev n p where e: "ad_handle d1 = (dev, n, a, p)" "0 \<le> dev" "dev < U64_LIM" "0 \<le> n" "n < U64_LIM" "0 < a" "a < U64_LIM"
    "0 \<le> p" "p < U64_LIM" "ad_cell d1 = p"
    by (rule entry_okD [OF entry_of [OF ok1 d1(1)]], rule that)
  have pk: "parse_KKKK (handle_args (dev, n, a, p)) = Some (dev, n, a, p)" by (rule parse_handle_args) (use e in auto)
  have hd: "ad_handle d = (dev, n, a, p)" using d1(2) e(1) by simp
  obtain r where r: "unmap_and_release rt dev n a p st1 = Returned () (st1\<lparr>cm_rt := r\<rparr>)"
    and ok2: "camem_ok view v0 (W - {a}) (st1\<lparr>cm_rt := r\<rparr>)" using unmap_awake [OF ok1 a d1(1)] e(10) by blast
  have "sleep_one rt ts (a, d) st = Returned () (st1\<lparr>cm_rt := r\<rparr>)"
    using t by (simp add: sleep_one_def Let_def st1_def [symmetric] python_unmap_and_release_def hd pk r obind_def)
  moreover have "same_process st (st1\<lparr>cm_rt := r\<rparr>)" using s1 by (simp add: same_process_def)
  ultimately show ?thesis using ok2 by blast
qed

lemma sleep_loop:
  assumes "camem_ok view v0 W st" "snapshot es st" and "sleepers es \<subseteq> W" "distinct (map fst es)"
  shows "\<exists>st'. each_entry (sleep_one rt ts) es st = Returned () st' \<and> camem_ok view v0 (W - sleepers es) st' \<and> same_process st st'"
  using assms
proof (induction es arbitrary: st W)
  case Nil
  then show ?case by (simp add: sleepers_def same_process_def)
next
  case (Cons e es)
  obtain a d where e: "e = (a, d)" by fastforce
  have fresh: "a \<notin> sleepers es" using Cons.prems(4) by (force simp: e sleepers_def)
  have split: "sleepers (e # es) = (if ad_tag d = sleep_persistent_tag then {} else {a}) \<union> sleepers es"
    by (auto simp: e sleepers_def)
  have "\<exists>st1. sleep_one rt ts e st = Returned () st1 \<and>
      camem_ok view v0 (W - (if ad_tag d = sleep_persistent_tag then {} else {a})) st1 \<and> same_process st st1"
  proof (cases "ad_tag d = sleep_persistent_tag")
    case True
    then show ?thesis using Cons.prems(1) by (simp add: e sleep_one_def same_process_def)
  next
    case False
    obtain d' where "map_of (cm_table st) a = Some d'" "ad_handle d' = ad_handle d" using Cons.prems(2) by (auto simp: e snapshot_def)
    then show ?thesis using sleep_one_ok [OF Cons.prems(1)] Cons.prems(3) False unfolding e split [unfolded e] by auto
  qed
  then obtain st1 where st1: "sleep_one rt ts e st = Returned () st1"
    "camem_ok view v0 (W - (if ad_tag d = sleep_persistent_tag then {} else {a})) st1" "same_process st st1" by blast
  have sub: "sleepers es \<subseteq> W - (if ad_tag d = sleep_persistent_tag then {} else {a})" using Cons.prems(3) fresh unfolding split by auto
  have "distinct (map fst es)" using Cons.prems(4) by simp
  then obtain st' where "each_entry (sleep_one rt ts) es st1 = Returned () st'"
    "camem_ok view v0 (W - (if ad_tag d = sleep_persistent_tag then {} else {a}) - sleepers es) st'" "same_process st1 st'"
    using Cons.IH [OF st1(2) snapshot_kept [OF Cons.prems(2) st1(3)] sub] by blast
  then show ?case using st1 unfolding split by (simp add: obind_def same_process_def Diff_eq Int_assoc)
qed

lemma camem_sleep_ok:
  assumes ok: "camem_ok view v0 W st" and awake: "sleepers (cm_table st) \<subseteq> W"
  shows "\<exists>st'. camem_sleep rt ts st = Returned () st' \<and> camem_ok view v0 (W - sleepers (cm_table st)) st' \<and> same_process st st'"
  unfolding camem_sleep_def
  by (rule sleep_loop [OF ok snapshot_self [OF camem_okD(4) [OF ok]] awake camem_okD(4) [OF ok]])

lemma wake_one_ok:
  assumes ok: "camem_ok view v0 W st" and d: "map_of (cm_table st) a = Some d'" "ad_handle d' = ad_handle d"
    and t: "ad_tag d \<noteq> sleep_persistent_tag" "tags = None \<or> ad_tag d \<in> set (the tags)"
    and run: "wake_one rt tags (a, d) st = Returned () st'"
  shows "a \<notin> W \<and> camem_ok view v0 (insert a W) st' \<and> same_process st st'"
proof -
  obtain dev n p where e: "ad_handle d' = (dev, n, a, p)" "0 \<le> dev" "dev < U64_LIM" "0 \<le> n" "n < U64_LIM" "0 < a" "a < U64_LIM"
    "0 \<le> p" "p < U64_LIM" "ad_cell d' = p"
    by (rule entry_okD [OF entry_of [OF ok d(1)]], rule that)
  have pk: "parse_KKKK (handle_args (dev, n, a, p)) = Some (dev, n, a, p)" by (rule parse_handle_args) (use e in auto)
  have hd: "ad_handle d = (dev, n, a, p)" using d(2) e(1) by simp
  obtain st1 where c: "create_and_map rt dev n a (ad_cell d') st = Returned () st1"
    and st': "st' = (if ad_backup d then set_backup a False st1 else st1)"
    using run t by (auto simp: wake_one_def python_create_and_map_def hd pk e(10) obind_def split: outcome.splits)
  have aW: "a \<notin> W" using create_effect [OF c] camem_okD(13) [OF ok] by (auto split: if_splits)
  from create_awake [OF ok aW d(1) c] obtain r h where ok1: "camem_ok view v0 (insert a W) st1"
    and st1: "st1 = st\<lparr>cm_rt := r, cm_heap := (cm_heap st)(ad_cell d' \<mapsto> h)\<rparr>" by blast
  have "same_process st st1" by (simp add: st1 same_process_def)
  then have "same_process st st'" using set_backup_same [of st1 a False] by (auto simp: st' same_process_def)
  then show ?thesis using aW ok1 set_backup_ok [OF ok1] by (simp add: st')
qed

lemma wake_loop:
  assumes "camem_ok view v0 W st" "snapshot es st" "distinct (map fst es)"
    and "each_entry (wake_one rt tags) es st = Returned () st'"
  shows "camem_ok view v0 (W \<union> wakers tags es) st' \<and> wakers tags es \<inter> W = {} \<and> same_process st st'"
  using assms
proof (induction es arbitrary: st W)
  case Nil
  then show ?case by (simp add: wakers_def same_process_def)
next
  case (Cons e es)
  obtain a d where e: "e = (a, d)" by fastforce
  let ?sel = "ad_tag d \<noteq> sleep_persistent_tag \<and> (tags = None \<or> ad_tag d \<in> set (the tags))"
  let ?A = "if ?sel then {a} else {}"
  have split: "wakers tags (e # es) = ?A \<union> wakers tags es" by (auto simp: e wakers_def)
  obtain st1 where st1: "wake_one rt tags e st = Returned () st1" "each_entry (wake_one rt tags) es st1 = Returned () st'"
    using Cons.prems(4) by (auto simp: obind_def split: outcome.splits)
  have one: "camem_ok view v0 (?A \<union> W) st1 \<and> ?A \<inter> W = {} \<and> same_process st st1"
  proof (cases ?sel)
    case True
    obtain d' where "map_of (cm_table st) a = Some d'" "ad_handle d' = ad_handle d" using Cons.prems(2) by (auto simp: e snapshot_def)
    then have "a \<notin> W \<and> camem_ok view v0 (insert a W) st1 \<and> same_process st st1"
      using wake_one_ok [OF Cons.prems(1) _ _ _ _ st1(1) [unfolded e]] True by blast
    then show ?thesis using True by simp
  next
    case False
    then have "st1 = st" using st1(1) by (auto simp: e wake_one_def split: if_splits)
    moreover have "?A = {}" using False by (simp only: if_False)
    ultimately show ?thesis using Cons.prems(1) by (simp only: Un_empty_left Int_empty_left same_process_def simp_thms)
  qed
  have dist: "distinct (map fst es)" using Cons.prems(3) by simp
  have snap: "snapshot es st1" using snapshot_kept [OF Cons.prems(2)] one by blast
  have "camem_ok view v0 (?A \<union> W) st1" using one by blast
  note ih = Cons.IH [OF this snap dist st1(2)]
  have "?A \<union> wakers tags es \<union> W = ?A \<union> W \<union> wakers tags es" by blast
  then show ?case using ih one unfolding split by (auto simp: same_process_def Un_commute Un_left_commute)
qed

lemma camem_wake_up_ok:
  assumes ok: "camem_ok view v0 W st" and run: "camem_wake_up rt tags st = Returned () st'"
  shows "camem_ok view v0 (W \<union> wakers tags (cm_table st)) st' \<and> wakers tags (cm_table st) \<inter> W = {} \<and> same_process st st'"
  by (rule wake_loop [OF ok snapshot_self [OF camem_okD(4) [OF ok]] camem_okD(4) [OF ok]])
     (use run in \<open>simp add: camem_wake_up_def\<close>)

section \<open>An entry without memory stops the sleep loop\<close>

lemma unmap_returned:
  assumes "unmap_and_release rt d n a p st = Returned () st'"
  shows "av_mapped (view (cm_rt st)) a \<noteq> None \<and> av_mapped (view (cm_rt st')) = (av_mapped (view (cm_rt st)))(a := None)"
proof -
  obtain r0 where e: "ensure_context rt d st = st\<lparr>cm_rt := r0\<rparr>" "view r0 = view (cm_rt st)" using ensure_effect by blast
  obtain e1 r1 where u: "aclrtUnmapMem rt a r0 = (e1, r1)" by fastforce
  obtain h r2 where f: "aclrtFreePhysical rt h r1 = (0, r2)" "st' = st\<lparr>cm_rt := r2\<rparr>" "e1 = 0"
    using assms by (auto simp: unmap_and_release_def e(1) u Let_def split: if_splits option.splits prod.splits)
  show ?thesis using unmap_ok [of a r0 r1] u f free_ok [OF f(1)] e(2) by auto
qed

lemma sleep_loop_stuck:
  assumes "(a, d) \<in> set es" "ad_tag d \<noteq> sleep_persistent_tag" "parse_KKKK (handle_args (ad_handle d)) = Some (dev, n, a, p)"
    and "av_mapped (view (cm_rt st)) a = None"
  shows "each_entry (sleep_one rt ts) es st \<noteq> Returned () st'"
  using assms(1,4)
proof (induction es arbitrary: st)
  case (Cons e es)
  show ?case
  proof
    assume "each_entry (sleep_one rt ts) (e # es) st = Returned () st'"
    then obtain st1 where st1: "sleep_one rt ts e st = Returned () st1" "each_entry (sleep_one rt ts) es st1 = Returned () st'"
      by (auto simp: obind_def split: outcome.splits)
    obtain b db where e: "e = (b, db)" by fastforce
    have kept: "cm_rt st1 = cm_rt st \<or> (\<exists>d1 n1 a1 p1 s. parse_KKKK (handle_args (ad_handle db)) = Some (d1, n1, a1, p1) \<and>
        cm_rt s = cm_rt st \<and> unmap_and_release rt d1 n1 a1 p1 s = Returned () st1 \<and> ad_tag db \<noteq> sleep_persistent_tag)"
    proof (cases "ad_tag db = sleep_persistent_tag")
      case False
      let ?s = "if ad_tag db \<in> set ts then set_backup b True st else st"
      have "\<exists>d1 n1 a1 p1. parse_KKKK (handle_args (ad_handle db)) = Some (d1, n1, a1, p1) \<and>
          unmap_and_release rt d1 n1 a1 p1 ?s = Returned () st1"
        using st1(1) False unfolding e sleep_one_def Let_def
        by (auto simp: python_unmap_and_release_def obind_def split: outcome.splits option.splits if_splits)
      moreover have "cm_rt ?s = cm_rt st" by simp
      ultimately show ?thesis using False by blast
    qed (use st1(1) in \<open>simp add: e sleep_one_def\<close>)
    then have "av_mapped (view (cm_rt st1)) a = None" using unmap_returned Cons.prems(2) by fastforce
    then have "(a, d) \<notin> set es" using Cons.IH [of st1] st1(2) by blast
    then have "e = (a, d)" using Cons.prems(1) by simp
    then show False using st1(1) assms(2,3) Cons.prems(2)
      by (auto simp: sleep_one_def Let_def python_unmap_and_release_def obind_def split: outcome.splits if_splits dest!: unmap_returned)
  qed
qed simp

end

end
