(* ===== verification/CamemPool.thy ===== *)
theory CamemPool
  imports CamemSleep
begin

text \<open>
  What the allocator promises, as a pool of allocations that are awake or asleep, and that every call
  that returns is a step of the pool.
\<close>

section \<open>Operations and the abstract pool\<close>

datatype camem_op =
    Malloc int int | Free int int int | Sleep "string list option" | WakeUp "string list option" | UseTag string

definition camem_exec :: "'r acl \<Rightarrow> camem_op \<Rightarrow> ('r, allocator) camem \<Rightarrow> (('r, allocator) camem, int) outcome" where
  "camem_exec rt p st =
     (case p of
        Malloc n dev \<Rightarrow> my_malloc rt allocator_call n dev st
      | Free a n dev \<Rightarrow> obind (my_free rt allocator_call a n dev st) (\<lambda>_ s. Returned 0 s)
      | Sleep ts \<Rightarrow> obind (camem_sleep rt ts st) (\<lambda>_ s. Returned 0 s)
      | WakeUp ts \<Rightarrow> obind (camem_wake_up rt ts st) (\<lambda>_ s. Returned 0 s)
      | UseTag t \<Rightarrow> Returned 0 (set_tag t st))"

text \<open>Pointers are 64-bit numbers, and so are the addresses of handle cells.\<close>

definition op_ok :: "camem_op \<Rightarrow> ('r, allocator) camem \<Rightarrow> bool" where
  "op_ok p st = (case p of Malloc n dev \<Rightarrow> cm_next st < U64_LIM | Free a n dev \<Rightarrow> 0 \<le> a \<and> a < U64_LIM | _ \<Rightarrow> True)"

text \<open>The pool: for each address the size, the tag, and whether the allocation is awake.\<close>

record pool =
  pl_allocs :: "int \<Rightarrow> (int \<times> string \<times> bool) option"
  pl_tag :: string

definition pool_of :: "('r \<Rightarrow> acl_view) \<Rightarrow> ('r, allocator) camem \<Rightarrow> pool" where
  "pool_of view st =
     \<lparr>pl_allocs = (\<lambda>a. map_option (\<lambda>d. (ad_size d, ad_tag d, av_mapped (view (cm_rt st)) a \<noteq> None))
                         (map_of (pointer_to_data (cm_py st)) a)),
      pl_tag = current_tag (cm_py st)\<rparr>"

definition pool_sleeps :: "int \<times> string \<times> bool \<Rightarrow> int \<times> string \<times> bool" where
  "pool_sleeps x = (case x of (n, t, w) \<Rightarrow> (n, t, w \<and> t = sleep_persistent_tag))"

definition pool_selected :: "string list option \<Rightarrow> string \<Rightarrow> bool" where
  "pool_selected tags t \<longleftrightarrow> t \<noteq> sleep_persistent_tag \<and> (tags = None \<or> t \<in> set (the tags))"

definition pool_wakes :: "string list option \<Rightarrow> int \<times> string \<times> bool \<Rightarrow> int \<times> string \<times> bool" where
  "pool_wakes tags x = (case x of (n, t, w) \<Rightarrow> (n, t, w \<or> pool_selected tags t))"

inductive pool_step :: "camem_op \<Rightarrow> pool \<Rightarrow> pool \<Rightarrow> bool" where
  alloc: "pl_allocs q a = None \<Longrightarrow> g \<noteq> 0 \<Longrightarrow>
    pool_step (Malloc n dev) q (q\<lparr>pl_allocs := (pl_allocs q)(a \<mapsto> (aligned_size n g, pl_tag q, True))\<rparr>)"
| free: "pl_allocs q a = Some (n', t, True) \<Longrightarrow> pool_step (Free a n dev) q (q\<lparr>pl_allocs := (pl_allocs q)(a := None)\<rparr>)"
| free_unknown: "pl_allocs q a = None \<Longrightarrow> pool_step (Free a n dev) q q"
| sleep: "(\<And>a n t w. pl_allocs q a = Some (n, t, w) \<Longrightarrow> t \<noteq> sleep_persistent_tag \<Longrightarrow> w) \<Longrightarrow>
    pool_step (Sleep ts) q (q\<lparr>pl_allocs := map_option pool_sleeps \<circ> pl_allocs q\<rparr>)"
| wake: "(\<And>a n t w. pl_allocs q a = Some (n, t, w) \<Longrightarrow> pool_selected tags t \<Longrightarrow> \<not> w) \<Longrightarrow>
    pool_step (WakeUp tags) q (q\<lparr>pl_allocs := map_option (pool_wakes tags) \<circ> pl_allocs q\<rparr>)"
| use_tag: "pool_step (UseTag t) q (q\<lparr>pl_tag := t\<rparr>)"

section \<open>The pool of a state\<close>

lemma awake_iff:
  assumes ok: "camem_ok view v0 W st" and d: "map_of (cm_table st) a = Some d"
  shows "av_mapped (view (cm_rt st)) a \<noteq> None \<longleftrightarrow> a \<in> W"
proof -
  have "av_mapped v0 a = None" by (rule entry_okD [OF entry_of [OF ok d]])
  then show ?thesis using camem_okD(13) [OF ok] by simp
qed

lemma pool_of_ok:
  assumes "camem_ok view v0 W st"
  shows "pool_of view st = \<lparr>pl_allocs = (\<lambda>a. map_option (\<lambda>d. (ad_size d, ad_tag d, a \<in> W)) (map_of (cm_table st) a)),
    pl_tag = current_tag (cm_py st)\<rparr>"
proof -
  have "map_option (\<lambda>d. (ad_size d, ad_tag d, av_mapped (view (cm_rt st)) a \<noteq> None)) (map_of (cm_table st) a) =
      map_option (\<lambda>d. (ad_size d, ad_tag d, a \<in> W)) (map_of (cm_table st) a)" for a
    using awake_iff [OF assms, of a] by (cases "map_of (cm_table st) a") simp_all
  then show ?thesis by (simp add: pool_of_def)
qed

lemma camem_ok_cong:
  assumes ok: "camem_ok view v0 W st" and same: "cm_rt st' = cm_rt st" "cm_heap st' = cm_heap st" "cm_next st' = cm_next st"
    "g_python_malloc_callback st' = g_python_malloc_callback st" "g_python_free_callback st' = g_python_free_callback st"
    "cm_table st' = cm_table st"
  shows "camem_ok view v0 W st'"
proof -
  have "entry_ok v0 st' = entry_ok v0 st" "handle_of st' = handle_of st" by (simp_all add: fun_eq_iff entry_ok_def handle_of_def same)
  then show ?thesis using ok unfolding camem_ok_def by (simp only: same)
qed

lemma shape_lookup:
  assumes "same_process st st'"
  shows "map_option (\<lambda>d. (ad_size d, ad_tag d, b)) (map_of (cm_table st') a) = map_option (\<lambda>d. (ad_size d, ad_tag d, b)) (map_of (cm_table st) a)"
proof (cases "map_of (cm_table st) a")
  case None
  then have "map_of (cm_table st') a = None"
    using table_shape_lookup [of "cm_table st'" "cm_table st" a] assms by (cases "map_of (cm_table st') a") (auto simp: same_process_def)
  then show ?thesis using None by simp
next
  case (Some d)
  then obtain d' where "map_of (cm_table st') a = Some d'" "ad_handle d' = ad_handle d" "ad_tag d' = ad_tag d"
    using table_shape_lookup [of "cm_table st" "cm_table st'" a d] assms by (auto simp: same_process_def)
  then show ?thesis using Some by (simp add: ad_size_def)
qed

lemma table_mem_iff:
  assumes "camem_ok view v0 W st" "map_of (cm_table st) a = Some d"
  shows "(\<exists>d'. (a, d') \<in> set (cm_table st) \<and> P d') \<longleftrightarrow> P d"
proof -
  have "(a, d') \<in> set (cm_table st) \<longleftrightarrow> d' = d" for d'
    using map_of_eq_Some_iff [OF camem_okD(4) [OF assms(1)], of a d'] assms(2) by auto
  then show ?thesis by simp
qed

lemma sleepers_iff:
  assumes "camem_ok view v0 W st" "map_of (cm_table st) a = Some d"
  shows "a \<in> sleepers (cm_table st) \<longleftrightarrow> ad_tag d \<noteq> sleep_persistent_tag"
  unfolding sleepers_def mem_Collect_eq table_mem_iff [OF assms] ..

lemma wakers_iff:
  assumes "camem_ok view v0 W st" "map_of (cm_table st) a = Some d"
  shows "a \<in> wakers tags (cm_table st) \<longleftrightarrow> pool_selected tags (ad_tag d)"
  unfolding wakers_def mem_Collect_eq table_mem_iff [OF assms] pool_selected_def ..

context acl_driver
begin

lemma sleep_returned_awake:
  assumes ok: "camem_ok view v0 W st" and run: "camem_sleep rt ts st = Returned () st'"
  shows "sleepers (cm_table st) \<subseteq> W"
proof
  fix a assume "a \<in> sleepers (cm_table st)"
  then obtain d where d: "(a, d) \<in> set (cm_table st)" "ad_tag d \<noteq> sleep_persistent_tag" by (auto simp: sleepers_def)
  then have m: "map_of (cm_table st) a = Some d" using camem_okD(4) [OF ok] by (simp add: map_of_eq_Some_iff)
  obtain dev n p where e: "ad_handle d = (dev, n, a, p)" "0 \<le> dev" "dev < U64_LIM" "0 \<le> n" "n < U64_LIM" "0 < a" "a < U64_LIM"
    "0 \<le> p" "p < U64_LIM" by (rule entry_okD [OF entry_of [OF ok m]], rule that)
  have "parse_KKKK (handle_args (ad_handle d)) = Some (dev, n, a, p)" unfolding e(1) by (rule parse_handle_args) (use e in auto)
  then have "av_mapped (view (cm_rt st)) a \<noteq> None"
    using sleep_loop_stuck [OF d] run unfolding camem_sleep_def by blast
  then show "a \<in> W" using awake_iff [OF ok m] by blast
qed

lemma malloc_refines:
  assumes ok: "camem_ok view v0 W st" and p: "op_ok (Malloc n dev) st" and run: "camem_exec rt (Malloc n dev) st = Returned x st'"
  shows "pool_step (Malloc n dev) (pool_of view st) (pool_of view st') \<and> (\<exists>W'. camem_ok view v0 W' st')"
proof -
  obtain g where g: "g \<noteq> 0" and new: "x \<notin> fst ` set (cm_table st)" and ok': "camem_ok view v0 (insert x W) st'"
    and t: "cm_table st' = cm_table st @ [(x, new_data st (u64 dev) (aligned_size n g) x)]"
    and tag: "current_tag (cm_py st') = current_tag (cm_py st)"
    using my_malloc_ok [OF ok, of n dev x st'] p run by (auto simp: camem_exec_def op_ok_def)
  have none: "map_of (cm_table st) x = None" using new by (simp add: map_of_eq_None_iff)
  have "pool_of view st' = (pool_of view st)\<lparr>pl_allocs := (pl_allocs (pool_of view st))(x \<mapsto> (aligned_size n g, pl_tag (pool_of view st), True))\<rparr>"
    unfolding pool_of_ok [OF ok] pool_of_ok [OF ok'] t tag using none
    by (auto simp: fun_eq_iff map_add_def ad_size_def new_data_def split: option.splits)
  moreover have "pl_allocs (pool_of view st) x = None" using none by (simp add: pool_of_def)
  ultimately show ?thesis using pool_step.alloc [OF _ g] ok' by metis
qed

lemma free_refines:
  assumes ok: "camem_ok view v0 W st" and p: "op_ok (Free a n dev) st" and run: "camem_exec rt (Free a n dev) st = Returned x st'"
  shows "pool_step (Free a n dev) (pool_of view st) (pool_of view st') \<and> (\<exists>W'. camem_ok view v0 W' st')"
proof -
  have f: "my_free rt allocator_call a n dev st = Returned () st'" using run by (auto simp: camem_exec_def obind_def split: outcome.splits)
  show ?thesis
  proof (cases "map_of (cm_table st) a")
    case None
    then have "a \<notin> fst ` set (cm_table st)" by (simp add: map_of_eq_None_iff)
    then have st': "st' = st\<lparr>cm_gil := cm_gil st + 1, cm_error := True\<rparr>" using my_free_unknown [OF ok] p f by (simp add: op_ok_def)
    have "pool_of view st' = pool_of view st" by (simp add: st' pool_of_def)
    moreover have "pl_allocs (pool_of view st) a = None" using None by (simp add: pool_of_def)
    moreover have "camem_ok view v0 W st'" by (rule camem_ok_cong [OF ok]) (simp_all add: st')
    ultimately show ?thesis using pool_step.free_unknown by metis
  next
    case (Some d)
    then have aW: "a \<in> W" using my_free_asleep [OF ok _ Some, of n dev] f by auto
    have ok': "camem_ok view v0 (W - {a}) st'" and t: "cm_table st' = filter (\<lambda>(p, d). p \<noteq> a) (cm_table st)"
      and tag: "current_tag (cm_py st') = current_tag (cm_py st)" using my_free_ok [OF ok aW, of n dev] f by auto
    have "pool_of view st' = (pool_of view st)\<lparr>pl_allocs := (pl_allocs (pool_of view st))(a := None)\<rparr>"
      unfolding pool_of_ok [OF ok] pool_of_ok [OF ok'] t tag by (auto simp: fun_eq_iff map_of_removed map_of_other)
    moreover have "pl_allocs (pool_of view st) a = Some (ad_size d, ad_tag d, True)" using Some aW by (simp add: pool_of_ok [OF ok])
    ultimately show ?thesis using pool_step.free ok' by metis
  qed
qed

lemma sleep_refines:
  assumes ok: "camem_ok view v0 W st" and p: "op_ok (Sleep ts) st" and run: "camem_exec rt (Sleep ts) st = Returned x st'"
  shows "pool_step (Sleep ts) (pool_of view st) (pool_of view st') \<and> (\<exists>W'. camem_ok view v0 W' st')"
proof -
  have r: "camem_sleep rt ts st = Returned () st'" using run by (auto simp: camem_exec_def obind_def split: outcome.splits)
  note awake = sleep_returned_awake [OF ok r]
  obtain ok': "camem_ok view v0 (W - sleepers (cm_table st)) st'" and same: "same_process st st'"
    using camem_sleep_ok [OF ok awake, of ts] r by auto
  have "pool_of view st' = (pool_of view st)\<lparr>pl_allocs := map_option pool_sleeps \<circ> pl_allocs (pool_of view st)\<rparr>"
    unfolding pool_of_ok [OF ok] pool_of_ok [OF ok'] shape_lookup [OF same] using same sleepers_iff [OF ok]
    by (auto simp: fun_eq_iff same_process_def pool_sleeps_def option.map_comp intro!: option.map_cong)
  moreover have "w" if "pl_allocs (pool_of view st) a = Some (n, t, w)" "t \<noteq> sleep_persistent_tag" for a n t w
    using that awake sleepers_iff [OF ok] by (auto simp: pool_of_ok [OF ok])
  ultimately show ?thesis using pool_step.sleep [of "pool_of view st" ts] ok' by metis
qed

lemma wake_refines:
  assumes ok: "camem_ok view v0 W st" and p: "op_ok (WakeUp tags) st" and run: "camem_exec rt (WakeUp tags) st = Returned x st'"
  shows "pool_step (WakeUp tags) (pool_of view st) (pool_of view st') \<and> (\<exists>W'. camem_ok view v0 W' st')"
proof -
  have r: "camem_wake_up rt tags st = Returned () st'" using run by (auto simp: camem_exec_def obind_def split: outcome.splits)
  have ok': "camem_ok view v0 (W \<union> wakers tags (cm_table st)) st'" and asleep: "wakers tags (cm_table st) \<inter> W = {}"
    and same: "same_process st st'" using camem_wake_up_ok [OF ok r] by auto
  have "pool_of view st' = (pool_of view st)\<lparr>pl_allocs := map_option (pool_wakes tags) \<circ> pl_allocs (pool_of view st)\<rparr>"
    unfolding pool_of_ok [OF ok] pool_of_ok [OF ok'] shape_lookup [OF same] using same wakers_iff [OF ok]
    by (auto simp: fun_eq_iff same_process_def pool_wakes_def option.map_comp intro!: option.map_cong)
  moreover have "\<not> w" if "pl_allocs (pool_of view st) a = Some (n, t, w)" "pool_selected tags t" for a n t w
    using that asleep wakers_iff [OF ok] by (auto simp: pool_of_ok [OF ok])
  ultimately show ?thesis using pool_step.wake [of "pool_of view st" tags] ok' by metis
qed

lemma use_tag_refines:
  assumes ok: "camem_ok view v0 W st" and p: "op_ok (UseTag t) st" and run: "camem_exec rt (UseTag t) st = Returned x st'"
  shows "pool_step (UseTag t) (pool_of view st) (pool_of view st') \<and> (\<exists>W'. camem_ok view v0 W' st')"
proof -
  have st': "st' = st\<lparr>cm_py := (cm_py st)\<lparr>current_tag := t\<rparr>\<rparr>" using run by (simp add: camem_exec_def set_tag_def)
  have "camem_ok view v0 W st'" by (rule camem_ok_cong [OF ok]) (simp_all add: st')
  moreover have "pool_of view st' = (pool_of view st)\<lparr>pl_tag := t\<rparr>" by (simp add: st' pool_of_def)
  ultimately show ?thesis using pool_step.use_tag by metis
qed

lemma exec_refines:
  assumes "camem_ok view v0 W st" "op_ok p st" "camem_exec rt p st = Returned x st'"
  shows "pool_step p (pool_of view st) (pool_of view st') \<and> (\<exists>W'. camem_ok view v0 W' st')"
proof (cases p)
  case (Malloc n dev)
  show ?thesis using assms unfolding Malloc by (rule malloc_refines)
next
  case (Free a n dev)
  show ?thesis using assms unfolding Free by (rule free_refines)
next
  case (Sleep ts)
  show ?thesis using assms unfolding Sleep by (rule sleep_refines)
next
  case (WakeUp tags)
  show ?thesis using assms unfolding WakeUp by (rule wake_refines)
next
  case (UseTag t)
  show ?thesis using assms unfolding UseTag by (rule use_tag_refines)
qed

end

end
