(* ===== verification/CamemProperties.thy ===== *)
theory CamemProperties
  imports CamemPool
begin

text \<open>
  The properties of the device allocator: runs of calls that return are runs of the pool, they account
  for every address and every piece of physical memory, and what happens when a call does not return.
\<close>

section \<open>Runs\<close>

text \<open>A sequence of calls from a state; \<^term>\<open>None\<close> when one of them does not return.\<close>

primrec camem_run :: "'r acl \<Rightarrow> camem_op list \<Rightarrow> ('r, allocator) camem \<Rightarrow> ('r, allocator) camem option" where
  "camem_run rt [] st = Some st"
| "camem_run rt (p # ps) st =
     (if op_ok p st then (case camem_exec rt p st of Returned x st' \<Rightarrow> camem_run rt ps st' | _ \<Rightarrow> None) else None)"

inductive pool_run :: "camem_op list \<Rightarrow> pool \<Rightarrow> pool \<Rightarrow> bool" where
  stop: "pool_run [] q q"
| step: "pool_step p q q' \<Longrightarrow> pool_run ps q' q'' \<Longrightarrow> pool_run (p # ps) q q''"

text \<open>The process at the start: the module initialised, no allocation made.\<close>

definition camem_start :: "('r \<Rightarrow> acl_view) \<Rightarrow> ('r, allocator) camem \<Rightarrow> bool" where
  "camem_start view st \<longleftrightarrow>
     g_python_malloc_callback st = Some 1 \<and> g_python_free_callback st = Some 2 \<and> 0 \<le> cm_next st \<and> pointer_to_data (cm_py st) = [] \<and>
     ran (av_mapped (view (cm_rt st))) \<subseteq> av_physical (view (cm_rt st)) \<and>
     dom (av_mapped (view (cm_rt st))) \<subseteq> dom (av_reserved (view (cm_rt st)))"

lemma camem_start_ok: "camem_start view st \<Longrightarrow> camem_ok view (view (cm_rt st)) {} st"
  by (simp add: camem_start_def camem_ok_def)

text \<open>The addresses of the allocations that are awake.\<close>

definition pool_awake :: "pool \<Rightarrow> int set" where
  "pool_awake q = {a. \<exists>n t. pl_allocs q a = Some (n, t, True)}"

lemma pool_awake_ok:
  assumes "camem_ok view v0 W st"
  shows "pool_awake (pool_of view st) = W"
proof -
  have "\<exists>d. map_of (cm_table st) a = Some d" if "a \<in> W" for a by (rule awake_entry [OF assms that], rule exI)
  then show ?thesis by (force simp: pool_awake_def pool_of_ok [OF assms])
qed

context acl_driver
begin

lemma run_refines:
  assumes "camem_ok view v0 W st" "camem_run rt ps st = Some st'"
  shows "pool_run ps (pool_of view st) (pool_of view st') \<and> (\<exists>W'. camem_ok view v0 W' st')"
  using assms
proof (induction ps arbitrary: st W)
  case Nil
  then show ?case by (auto intro: pool_run.stop)
next
  case (Cons p ps)
  obtain x st1 where r: "op_ok p st" "camem_exec rt p st = Returned x st1" "camem_run rt ps st1 = Some st'"
    using Cons.prems(2) by (auto split: if_splits outcome.splits)
  obtain W1 where s: "pool_step p (pool_of view st) (pool_of view st1)" "camem_ok view v0 W1 st1"
    using exec_refines [OF Cons.prems(1) r(1,2)] by blast
  then show ?case using Cons.IH [OF s(2) r(3)] by (blast intro: pool_run.step)
qed

lemma run_accounts:
  assumes ok: "camem_ok view v0 W st"
  shows "av_reserved (view (cm_rt st)) = av_reserved v0 ++ (map_option fst \<circ> pl_allocs (pool_of view st))"
    and "bij_betw (the \<circ> av_mapped (view (cm_rt st))) (pool_awake (pool_of view st)) (av_physical (view (cm_rt st)) - av_physical v0)"
proof -
  note D = camem_okD [OF ok]
  show "av_reserved (view (cm_rt st)) = av_reserved v0 ++ (map_option fst \<circ> pl_allocs (pool_of view st))"
    unfolding D(11) pool_of_ok [OF ok] by (auto simp: fun_eq_iff map_add_def split: option.splits)
  have "(the \<circ> av_mapped (view (cm_rt st))) a = handle_of st a" if "a \<in> W" for a using that by (simp add: D(13))
  then have "bij_betw (the \<circ> av_mapped (view (cm_rt st))) W (handle_of st ` W)" using D(8) by (simp add: bij_betw_def cong: inj_on_cong image_cong)
  moreover have "av_physical (view (cm_rt st)) - av_physical v0 = handle_of st ` W" unfolding D(12) using D(9) by blast
  ultimately show "bij_betw (the \<circ> av_mapped (view (cm_rt st))) (pool_awake (pool_of view st)) (av_physical (view (cm_rt st)) - av_physical v0)"
    unfolding pool_awake_ok [OF ok] by simp
qed

lemma no_entry_view:
  assumes ok: "camem_ok view v0 W st" and t: "cm_table st = []"
  shows "view (cm_rt st) = v0"
proof -
  have "W = {}" using camem_okD(7) [OF ok] t by simp
  then show ?thesis using ok t unfolding camem_ok_def by simp
qed

end

section \<open>A process to run\<close>

definition sim_start :: "int \<Rightarrow> (sim, allocator) camem" where
  "sim_start limit =
     \<lparr>cm_rt = \<lparr>sim_context = 0, sim_view = \<lparr>av_reserved = Map.empty, av_physical = {}, av_mapped = Map.empty\<rparr>,
               sim_addr = 4096, sim_handle = 1, sim_limit = limit\<rparr>,
      cm_py = \<lparr>pointer_to_data = [], current_tag = ''default''\<rparr>, cm_heap = Map.empty, cm_next = 8,
      g_python_malloc_callback = Some 1, g_python_free_callback = Some 2, cm_gil = 0, cm_error = False\<rparr>"

lemma sim_start_start: "camem_start sim_view (sim_start limit)"
  by (simp add: camem_start_def sim_start_def)

definition sim_ops :: "camem_op list" where
  "sim_ops = [UseTag ''weights'', Malloc 3000000 0, UseTag ''sleep_persistent'', Malloc 64 0, Sleep (Some [''weights'']),
     WakeUp None, Free 4096 3000000 0]"

definition some_state :: "'a option \<Rightarrow> bool" where
  "some_state x = (case x of None \<Rightarrow> False | Some _ \<Rightarrow> True)"

lemma some_state_the: "some_state x \<Longrightarrow> x = Some (the x)"
  by (auto simp: some_state_def split: option.splits)

lemma sim_ops_run: "some_state (camem_run sim_acl sim_ops (sim_start 10))"
  by code_simp


lemma sleepers_shape: "sleepers t = set (map fst (filter (\<lambda>x. snd (snd x) \<noteq> sleep_persistent_tag) (table_shape t)))"
proof -
  have "map fst (filter (\<lambda>x. snd (snd x) \<noteq> sleep_persistent_tag) (table_shape t)) = map fst (filter (\<lambda>x. ad_tag (snd x) \<noteq> sleep_persistent_tag) t)"
    by (induction t) (auto simp: table_shape_def)
  then show ?thesis unfolding sleepers_def by force
qed

text \<open>An outcome that returned.\<close>

definition returned :: "('s, 'a) outcome \<Rightarrow> bool" where
  "returned m = (case m of Returned _ _ \<Rightarrow> True | _ \<Rightarrow> False)"

definition value_of :: "('s, 'a) outcome \<Rightarrow> 'a" where
  "value_of m = (case m of Returned x _ \<Rightarrow> x)"

definition state_of :: "('s, 'a) outcome \<Rightarrow> 's" where
  "state_of m = (case m of Returned _ s \<Rightarrow> s | Thrown _ s \<Rightarrow> s)"

lemma returned_eq: "returned m \<Longrightarrow> m = Returned (value_of m) (state_of m)"
  by (auto simp: returned_def value_of_def state_of_def split: outcome.splits)

lemma returned_unit: "returned m \<Longrightarrow> m = Returned () (state_of m)"
  by (auto simp: returned_def state_of_def split: outcome.splits)

section \<open>Refinement and accounting\<close>

text \<open>
  C3. On a runtime that meets its contract, every sequence of calls (allocate, free, sleep, wake up, change
  the tag) that return is a run of the abstract pool: an allocation is new and awake with its size
  rounded up and the tag of the moment, sleep takes the memory of everything but the persistent
  tag, wake-up returns it to the selected tags, and freeing removes the allocation.
\<close>

theorem camem_refines:
  assumes "acl_driver rt view" "camem_start view st" "camem_run rt ps st = Some st'"
  shows "pool_run ps \<lparr>pl_allocs = Map.empty, pl_tag = current_tag (cm_py st)\<rparr> (pool_of view st')"
proof -
  have "pool_of view st = \<lparr>pl_allocs = Map.empty, pl_tag = current_tag (cm_py st)\<rparr>"
    using assms(2) by (simp add: camem_start_def pool_of_def)
  then show ?thesis using acl_driver.run_refines [OF assms(1) camem_start_ok [OF assms(2)] assms(3)] by simp
qed

theorem camem_refines_witness:
  "\<exists>st'. camem_run sim_acl sim_ops (sim_start 10) = Some st' \<and>
     pool_run sim_ops \<lparr>pl_allocs = Map.empty, pl_tag = ''default''\<rparr> (pool_of sim_view st')"
  using camem_refines [OF sim.acl_driver_axioms sim_start_start some_state_the [OF sim_ops_run]] some_state_the [OF sim_ops_run]
  by (auto simp: sim_start_def)

text \<open>
  C12. After any run from the start, the reserved addresses are those from before and those of the
  allocation table, with the aligned sizes, and the physical memory in use beyond what was in use
  before corresponds one to one to the allocations that are awake, each mapped at its address.
\<close>

theorem camem_accounts:
  assumes "acl_driver rt view" "camem_start view st" "camem_run rt ps st = Some st'"
  shows "av_reserved (view (cm_rt st')) = av_reserved (view (cm_rt st)) ++ (map_option fst \<circ> pl_allocs (pool_of view st')) \<and>
    bij_betw (the \<circ> av_mapped (view (cm_rt st'))) (pool_awake (pool_of view st'))
      (av_physical (view (cm_rt st')) - av_physical (view (cm_rt st)))"
  using acl_driver.run_refines [OF assms(1) camem_start_ok [OF assms(2)] assms(3)] acl_driver.run_accounts [OF assms(1)] by blast

theorem camem_accounts_witness:
  "\<exists>st'. camem_run sim_acl sim_ops (sim_start 10) = Some st' \<and>
    bij_betw (the \<circ> av_mapped (sim_view (cm_rt st'))) (pool_awake (pool_of sim_view st')) (av_physical (sim_view (cm_rt st')) - {})"
  using camem_accounts [OF sim.acl_driver_axioms sim_start_start some_state_the [OF sim_ops_run]] some_state_the [OF sim_ops_run]
  by (auto simp: sim_start_def)

text \<open>
  C15. A run that ends with an empty allocation table has given back every address and all physical memory:
  the runtime's tables are those of the start, however often the allocator slept in between.
\<close>

theorem camem_no_leak:
  assumes "acl_driver rt view" "camem_start view st" "camem_run rt ps st = Some st'" "pointer_to_data (cm_py st') = []"
  shows "view (cm_rt st') = view (cm_rt st)"
  using acl_driver.run_refines [OF assms(1) camem_start_ok [OF assms(2)] assms(3)] acl_driver.no_entry_view [OF assms(1) _ assms(4)] by blast

lemma sim_ops_freed:
  "some_state (camem_run sim_acl (sim_ops @ [Free 4198400 64 0]) (sim_start 10))"
  "pointer_to_data (cm_py (the (camem_run sim_acl (sim_ops @ [Free 4198400 64 0]) (sim_start 10)))) = []"
  by code_simp+

theorem camem_no_leak_witness:
  "\<exists>st'. camem_run sim_acl (sim_ops @ [Free 4198400 64 0]) (sim_start 10) = Some st' \<and>
     sim_view (cm_rt st') = sim_view (cm_rt (sim_start 10))"
  using camem_no_leak [OF sim.acl_driver_axioms sim_start_start some_state_the [OF sim_ops_freed(1)] sim_ops_freed(2)]
    some_state_the [OF sim_ops_freed(1)] by blast

section \<open>Round trips\<close>

text \<open>
  Freeing what \<open>my_malloc\<close> returned succeeds and undoes the allocation: the runtime's tables, the
  allocation table, the handle cells and the hold on the interpreter lock are as before.
\<close>

theorem camem_malloc_free:
  assumes drv: "acl_driver rt view" and ok: "camem_ok view v0 W st" and next_cell: "cm_next st < 2 ^ 64" "cm_heap st (cm_next st) = None"
    and run: "my_malloc rt allocator_call n dev st = Returned a st1"
  shows "\<exists>st2. my_free rt allocator_call a n' dev' st1 = Returned () st2 \<and> view (cm_rt st2) = view (cm_rt st) \<and>
    pointer_to_data (cm_py st2) = pointer_to_data (cm_py st) \<and> cm_heap st2 = cm_heap st \<and> cm_gil st2 = cm_gil st"
proof -
  have nx: "cm_next st < U64_LIM" using next_cell(1) by simp
  obtain g h where a: "a \<notin> fst ` set (cm_table st)" and ok1: "camem_ok view v0 (insert a W) st1"
    and t1: "cm_table st1 = cm_table st @ [(a, new_data st (u64 dev) (aligned_size n g) a)]" and gil: "cm_gil st1 = cm_gil st"
    and h1: "cm_heap st1 = (cm_heap st)(cm_next st \<mapsto> h)" using acl_driver.my_malloc_ok [OF drv ok nx run] by blast
  have at: "map_of (cm_table st1) a = Some (new_data st (u64 dev) (aligned_size n g) a)"
    using a by (simp add: t1 map_add_def map_of_eq_None_iff [symmetric])
  obtain st2 where f: "my_free rt allocator_call a n' dev' st1 = Returned () st2" and ok2: "camem_ok view v0 (insert a W - {a}) st2"
    and t2: "cm_table st2 = filter (\<lambda>(p, d). p \<noteq> a) (cm_table st1)" and gil2: "cm_gil st2 = cm_gil st1"
    and h2: "cm_heap st2 = (cm_heap st1)(ad_cell (new_data st (u64 dev) (aligned_size n g) a) := None)"
    using acl_driver.my_free_ok [OF drv ok1, of a n' dev'] at by blast
  have tab: "cm_table st2 = cm_table st" unfolding t2 t1 using a by (force simp: filter_id_conv)
  have heap: "cm_heap st2 = cm_heap st" using next_cell(2) by (auto simp: h1 h2 ad_cell_def new_data_def)
  have "a \<notin> W" using camem_okD(7) [OF ok] a by blast
  then have W: "insert a W - {a} = W" by blast
  have hs: "handle_of st2 = handle_of st" by (simp add: fun_eq_iff handle_of_def tab heap)
  have "view (cm_rt st2) = view (cm_rt st)" using ok ok2 unfolding camem_ok_def W tab hs by simp
  then show ?thesis using f tab heap gil gil2 by auto
qed

lemma sim_malloc: "returned (my_malloc sim_acl allocator_call 100 0 (sim_start 10))"
  by code_simp

theorem camem_malloc_free_witness:
  "\<exists>st2. my_free sim_acl allocator_call (value_of (my_malloc sim_acl allocator_call 100 0 (sim_start 10))) 100 0
      (state_of (my_malloc sim_acl allocator_call 100 0 (sim_start 10))) = Returned () st2 \<and> sim_view (cm_rt st2) = sim_view (cm_rt (sim_start 10))"
  using camem_malloc_free [OF sim.acl_driver_axioms camem_start_ok [OF sim_start_start] _ _ returned_eq [OF sim_malloc]]
  by (auto simp: sim_start_def)

text \<open>
  C27. A sleep followed by a wake-up without tags restores the pool: every allocation has its address, size,
  tag and memory state again, whatever tags were offloaded.
\<close>

theorem camem_sleep_wake:
  assumes drv: "acl_driver rt view" and ok: "camem_ok view v0 W st"
    and runs: "camem_sleep rt ts st = Returned () st1" "camem_wake_up rt None st1 = Returned () st2"
  shows "pool_of view st2 = pool_of view st \<and> av_reserved (view (cm_rt st2)) = av_reserved (view (cm_rt st))"
proof -
  note awake = acl_driver.sleep_returned_awake [OF drv ok runs(1)]
  obtain ok1: "camem_ok view v0 (W - sleepers (cm_table st)) st1" and s1: "same_process st st1"
    using acl_driver.camem_sleep_ok [OF drv ok awake, of ts] runs(1) by auto
  have ok2: "camem_ok view v0 (W - sleepers (cm_table st) \<union> wakers None (cm_table st1)) st2" and s2: "same_process st1 st2"
    using acl_driver.camem_wake_up_ok [OF drv ok1 runs(2)] by auto
  have s: "same_process st st2" using s1 s2 by (simp add: same_process_def)
  have "wakers None (cm_table st1) = sleepers (cm_table st1)" by (simp add: wakers_def sleepers_def)
  also have "\<dots> = sleepers (cm_table st)" using s1 by (simp add: sleepers_shape same_process_def)
  finally have "wakers None (cm_table st1) = sleepers (cm_table st)" .
  then have ok2: "camem_ok view v0 W st2" using ok2 awake by (simp add: Un_absorb2 Diff_partition Un_commute)
  have "pool_of view st2 = pool_of view st"
    unfolding pool_of_ok [OF ok] pool_of_ok [OF ok2] shape_lookup [OF s] using s by (simp add: same_process_def)
  then show ?thesis using acl_driver.run_accounts(1) [OF drv ok] acl_driver.run_accounts(1) [OF drv ok2] by simp
qed

definition sim_awake :: "(sim, allocator) camem" where
  "sim_awake = the (camem_run sim_acl (take 4 sim_ops) (sim_start 10))"

lemma sim_asleep:
  "some_state (camem_run sim_acl (take 4 sim_ops) (sim_start 10))"
  "returned (camem_sleep sim_acl (Some [''weights'']) sim_awake)"
  "returned (camem_wake_up sim_acl None (state_of (camem_sleep sim_acl (Some [''weights'']) sim_awake)))"
  by code_simp+

lemma sim_run_ok: "\<exists>W. camem_ok sim_view (sim_view (cm_rt (sim_start 10))) W sim_awake"
  using sim.run_refines [OF camem_start_ok [OF sim_start_start] some_state_the [OF sim_asleep(1)]] by (auto simp: sim_awake_def)

theorem camem_sleep_wake_witness:
  "\<exists>st st1 st2. camem_sleep sim_acl (Some [''weights'']) st = Returned () st1 \<and> camem_wake_up sim_acl None st1 = Returned () st2 \<and>
     pool_of sim_view st2 = pool_of sim_view st"
  using sim_run_ok camem_sleep_wake [OF sim.acl_driver_axioms _ returned_unit [OF sim_asleep(2)] returned_unit [OF sim_asleep(3)]]
    returned_unit [OF sim_asleep(2)] returned_unit [OF sim_asleep(3)] by blast

section \<open>Liveness\<close>

text \<open>
  C28. An allocator whose allocations are all awake can sleep: the call returns, only the persistent
  allocations keep their memory, and all addresses stay reserved and in the usage count.
\<close>

theorem camem_sleep_returns:
  assumes drv: "acl_driver rt view" and ok: "camem_ok view v0 W st"
    and awake: "fst ` set (pointer_to_data (cm_py st)) \<subseteq> pool_awake (pool_of view st)"
  shows "\<exists>st'. camem_sleep rt ts st = Returned () st' \<and>
    pool_awake (pool_of view st') = {a. \<exists>n w. pl_allocs (pool_of view st) a = Some (n, sleep_persistent_tag, w)} \<and>
    av_reserved (view (cm_rt st')) = av_reserved (view (cm_rt st)) \<and> get_current_usage (cm_py st') = get_current_usage (cm_py st)"
proof -
  have W: "W = fst ` set (cm_table st)" using awake camem_okD(7) [OF ok] unfolding pool_awake_ok [OF ok] by blast
  have sub: "sleepers (cm_table st) \<subseteq> W" unfolding W by (force simp: sleepers_def)
  obtain st' where r: "camem_sleep rt ts st = Returned () st'" and ok': "camem_ok view v0 (W - sleepers (cm_table st)) st'"
    and same: "same_process st st'" using acl_driver.camem_sleep_ok [OF drv ok sub] by blast
  have "a \<in> W - sleepers (cm_table st) \<longleftrightarrow> (\<exists>n w. pl_allocs (pool_of view st) a = Some (n, sleep_persistent_tag, w))" for a
  proof (cases "map_of (cm_table st) a")
    case None
    then have "a \<notin> W" unfolding W by (simp add: map_of_eq_None_iff)
    then show ?thesis using None by (simp add: pool_of_def)
  next
    case (Some d)
    then have "a \<in> W" unfolding W by (force dest: map_of_SomeD)
    then show ?thesis using sleepers_iff [OF ok Some] Some by (auto simp: pool_of_def)
  qed
  then have p: "pool_awake (pool_of view st') = {a. \<exists>n w. pl_allocs (pool_of view st) a = Some (n, sleep_persistent_tag, w)}"
    unfolding pool_awake_ok [OF ok'] by blast
  have "map_option fst \<circ> pl_allocs (pool_of view st') = map_option fst \<circ> pl_allocs (pool_of view st)"
    using arg_cong [OF shape_lookup [OF same, of False], of "map_option fst"] by (simp add: fun_eq_iff pool_of_def option.map_comp comp_def)
  then have res: "av_reserved (view (cm_rt st')) = av_reserved (view (cm_rt st))"
    using acl_driver.run_accounts(1) [OF drv ok] acl_driver.run_accounts(1) [OF drv ok'] by simp
  have "get_current_usage q = sum_list (map (\<lambda>(a, h, t). fst (snd h)) (table_shape (pointer_to_data q)))" for q
    by (auto simp: get_current_usage_def table_shape_def intro!: arg_cong [of _ _ sum_list])
  then have "get_current_usage (cm_py st') = get_current_usage (cm_py st)" using same by (simp add: same_process_def)
  then show ?thesis using r p res by blast
qed

lemma sim_all_awake:
  "fst ` set (pointer_to_data (cm_py sim_awake)) = {4096, 4198400}"
  "pl_allocs (pool_of sim_view sim_awake) 4096 = Some (4194304, ''weights'', True)"
  "pl_allocs (pool_of sim_view sim_awake) 4198400 = Some (2097152, ''sleep_persistent'', True)"
  by code_simp+

theorem camem_sleep_returns_witness:
  "\<exists>st'. camem_sleep sim_acl (Some []) sim_awake = Returned () st' \<and>
     get_current_usage (cm_py st') = get_current_usage (cm_py sim_awake)"
proof -
  have "fst ` set (pointer_to_data (cm_py sim_awake)) \<subseteq>
      pool_awake (pool_of sim_view sim_awake)"
    unfolding sim_all_awake(1) by (simp add: pool_awake_def sim_all_awake(2,3))
  moreover obtain W where "camem_ok sim_view (sim_view (cm_rt (sim_start 10))) W sim_awake" using sim_run_ok by blast
  ultimately show ?thesis using camem_sleep_returns [OF sim.acl_driver_axioms, of _ W sim_awake "Some []"] by blast
qed

section \<open>Sizes\<close>

text \<open>
  As long as size and granularity together fit 64 bits, the aligned size is the least multiple of the
  granularity that holds the requested size.
\<close>

theorem camem_aligned_size:
  assumes "0 < g" "0 \<le> n" "n + g \<le> 2 ^ 64"
  shows "aligned_size n g mod g = 0 \<and> n \<le> aligned_size n g \<and> aligned_size n g < n + g"
proof -
  let ?m = "(n + g - 1) div g * g"
  have "?m = n + g - 1 - (n + g - 1) mod g" by (simp add: minus_mod_eq_div_mult)
  then have m: "?m \<le> n + g - 1" "n \<le> ?m" using pos_mod_bound [OF assms(1), of "n + g - 1"] pos_mod_sign [OF assms(1), of "n + g - 1"] by linarith+
  have "u64 (u64 (n + g) - 1) = n + g - 1" using assms by (simp add: u64_def mod_diff_left_eq)
  then have "aligned_size n g = ?m" unfolding aligned_size_def using m assms by (simp add: u64_id)
  then show ?thesis using m by simp
qed

theorem camem_aligned_size_witness:
  "aligned_size 3000000 2097152 mod 2097152 = 0 \<and> 3000000 \<le> aligned_size 3000000 2097152 \<and> aligned_size 3000000 2097152 < 3000000 + 2097152"
  using camem_aligned_size [of 2097152 3000000] by simp

section \<open>Calls that fail\<close>

context acl_driver
begin

text \<open>Physical memory is asked for after the entry is in the table.\<close>

lemma my_malloc_oom_entry:
  assumes ok: "camem_ok view v0 W st" and p: "cm_next st < U64_LIM"
    and run: "my_malloc rt allocator_call n dev st = Thrown (MallocPhysicalOOM c) st'"
  shows "cm_table st' \<noteq> cm_table st"
proof -
  obtain r0 where e: "ensure_context rt (u64 dev) st = st\<lparr>cm_rt := r0\<rparr>" "view r0 = view (cm_rt st)" using ensure_effect by blast
  obtain e1 g where g: "aclrtMemGetAllocationGranularity rt (u64 dev) r0 = (e1, g)" by fastforce
  obtain e2 a r1 where rv: "aclrtReserveMemAddress rt (aligned_size n g) r0 = (e2, a, r1)" by (metis prod_cases3)
  have "cm_next st' = cm_next st + 8"
    using run camem_okD(1) [OF ok]
    by (auto simp: my_malloc_def e(1) g rv Let_def create_and_map_def obind_def ensure_context_def split: if_splits option.splits prod.splits outcome.splits)
  moreover from my_malloc_stages [OF ok p run] consider r where "st' = st\<lparr>cm_rt := r\<rparr>"
    | g a r where "Thrown (MallocPhysicalOOM c) st' = obind (create_and_map rt (u64 dev) (aligned_size n g) a (cm_next st)
        (entered st (u64 dev) (aligned_size n g) a r)) (\<lambda>_ s. Returned a s)" by auto
  then have "cm_next st' = cm_next st \<or> cm_table st' \<noteq> cm_table st"
  proof cases
    case 2
    then have "create_and_map rt (u64 dev) (aligned_size n g) a (cm_next st) (entered st (u64 dev) (aligned_size n g) a r) =
        Thrown (MallocPhysicalOOM c) st'" by (auto simp: obind_def split: outcome.splits)
    from create_thrown [OF this] show ?thesis by (auto simp: entered_def)
  qed simp
  ultimately show ?thesis by simp
qed

end



definition thrown :: "('s, 'a) outcome \<Rightarrow> camem_error option" where
  "thrown m = (case m of Thrown e _ \<Rightarrow> Some e | _ \<Rightarrow> None)"

lemma thrown_eq: "thrown m = Some e \<Longrightarrow> m = Thrown e (state_of m)"
  by (auto simp: thrown_def state_of_def split: outcome.splits)



text \<open>
  Freeing an allocation that is asleep throws after its entry has left the allocation table: the address
  stays reserved, and neither a wake-up nor another free can reach it any more.
\<close>

theorem camem_free_asleep:
  assumes drv: "acl_driver rt view" and ok: "camem_ok view v0 W st"
    and asleep: "pl_allocs (pool_of view st) a = Some (size_arg, t, False)"
  shows "\<exists>e st'. my_free rt allocator_call a n dev st = Thrown (UnmapMemFailed e) st' \<and>
    pl_allocs (pool_of view st') a = None \<and> av_reserved (view (cm_rt st')) a = Some size_arg"
proof -
  obtain d where d: "map_of (cm_table st) a = Some d" "ad_size d = size_arg" "a \<notin> W"
    using asleep unfolding pool_of_ok [OF ok] by auto
  obtain e st' where f: "my_free rt allocator_call a n dev st = Thrown (UnmapMemFailed e) st'"
    "cm_table st' = filter (\<lambda>(p, d). p \<noteq> a) (cm_table st)" "av_reserved (view (cm_rt st')) a = Some (ad_size d)"
    using acl_driver.my_free_asleep [OF drv ok d(3,1)] by blast
  have "pl_allocs (pool_of view st') a = None" unfolding pool_of_def by (simp add: f(2) map_of_eq_None_iff) force
  then show ?thesis using f d(2) by blast
qed

definition sim_sleeping :: "(sim, allocator) camem" where
  "sim_sleeping = the (camem_run sim_acl (take 5 sim_ops) (sim_start 10))"

lemma sim_sleeping_run:
  "some_state (camem_run sim_acl (take 5 sim_ops) (sim_start 10))"
  "pl_allocs (pool_of sim_view sim_sleeping) 4096 = Some (4194304, ''weights'', False)"
  by code_simp+

theorem camem_free_asleep_witness:
  "\<exists>e st'. my_free sim_acl allocator_call 4096 3000000 0 sim_sleeping = Thrown (UnmapMemFailed e) st' \<and>
    pl_allocs (pool_of sim_view st') 4096 = None \<and> av_reserved (sim_view (cm_rt st')) 4096 = Some 4194304"
proof -
  obtain W where "camem_ok sim_view (sim_view (cm_rt (sim_start 10))) W sim_sleeping"
    using sim.run_refines [OF camem_start_ok [OF sim_start_start] some_state_the [OF sim_sleeping_run(1)]] by (auto simp: sim_sleeping_def)
  then show ?thesis by (rule camem_free_asleep [OF sim.acl_driver_axioms _ sim_sleeping_run(2)])
qed

text \<open>What \<open>my_free\<close> accepts from its callback.\<close>

definition handle_tuple :: "py_object option \<Rightarrow> bool" where
  "handle_tuple x = (case x of Some (PyTuple xs) \<Rightarrow> parse_KKKK xs \<noteq> None | _ \<Rightarrow> False)"

lemma parse_KKKK_length: "parse_KKKK xs = Some y \<Longrightarrow> length xs = 4"
  by (auto simp: parse_KKKK_def split: list.splits py_object.splits)

lemma ensure_context_gil [simp]: "cm_gil (ensure_context rt d st) = cm_gil st" "cm_heap (ensure_context rt d st) = cm_heap st"
  by (simp_all add: ensure_context_def split: prod.split)

lemma unmap_gil: "unmap_and_release rt d n a p st = Returned u st' \<Longrightarrow> cm_gil st' = cm_gil st"
  by (auto simp: unmap_and_release_def Let_def split: prod.splits if_splits option.splits)

text \<open>
  A call of \<open>my_free\<close> that returns has released the interpreter lock, unless the free callback raised or
  answered something else than four integers: then it returns with the lock held and an error pending.
\<close>

theorem camem_free_lock:
  assumes "my_free rt call_py a n dev st = Returned () st'" "g_python_free_callback st = Some f"
    "call_py f (PyLong (u64 a)) (cm_py st) = (answer, py)"
  shows "cm_gil st' = cm_gil st + (if handle_tuple answer then 0 else 1) \<and> (handle_tuple answer \<or> cm_error st')"
proof (cases "handle_tuple answer")
  case True
  then obtain xs dev' n' a' p' where x: "answer = Some (PyTuple xs)" "parse_KKKK xs = Some (dev', n', a', p')"
    by (auto simp: handle_tuple_def split: option.splits py_object.splits)
  show ?thesis using assms True parse_KKKK_length [OF x(2)]
    by (auto simp: x my_free_def obind_def Let_def split: outcome.splits prod.splits if_splits dest!: unmap_gil)
next
  case False
  then show ?thesis using assms
    by (auto simp: handle_tuple_def my_free_def Let_def split: option.splits py_object.splits if_splits)
qed

lemma sim_free_unknown: "returned (my_free sim_acl allocator_call 64 100 0 (sim_start 10))"
  by code_simp

theorem camem_free_lock_witness:
  "\<exists>st'. my_free sim_acl allocator_call 64 100 0 (sim_start 10) = Returned () st' \<and> cm_gil st' = 1 \<and> cm_error st'"
proof -
  have "allocator_call 2 (PyLong (u64 64)) (cm_py (sim_start 10)) = (None, cm_py (sim_start 10))"
    by (simp add: allocator_call_def u64_id python_free_callback_def sim_start_def)
  then have "cm_gil (state_of (my_free sim_acl allocator_call 64 100 0 (sim_start 10))) = 1 \<and>
      cm_error (state_of (my_free sim_acl allocator_call 64 100 0 (sim_start 10)))"
    using camem_free_lock [OF returned_unit [OF sim_free_unknown], of 2] by (simp add: sim_start_def handle_tuple_def)
  then show ?thesis using returned_unit [OF sim_free_unknown] by blast
qed

text \<open>
  Without a callback, \<open>my_malloc\<close> throws, having reserved an address range that it keeps: the table does
  not know it, and no call can return it.
\<close>

theorem camem_missing_callback:
  assumes drv: "acl_driver rt view" and cb: "g_python_malloc_callback st = None"
    and run: "my_malloc rt call_py n dev st = Thrown MallocCallbackNotSet st'"
  shows "\<exists>a size_arg. av_reserved (view (cm_rt st)) a = None \<and> cm_py st' = cm_py st \<and>
    view (cm_rt st') = (view (cm_rt st))\<lparr>av_reserved := (av_reserved (view (cm_rt st)))(a \<mapsto> size_arg)\<rparr>"
proof -
  obtain r0 where e: "ensure_context rt (u64 dev) st = st\<lparr>cm_rt := r0\<rparr>" "view r0 = view (cm_rt st)"
    using acl_driver.ensure_effect [OF drv] by blast
  obtain e1 g where g: "aclrtMemGetAllocationGranularity rt (u64 dev) r0 = (e1, g)" by fastforce
  obtain e2 a r1 where rv: "aclrtReserveMemAddress rt (aligned_size n g) r0 = (e2, a, r1)" by (metis prod_cases3)
  have ok: "e2 = 0" "cm_rt st' = r1" "cm_py st' = cm_py st"
    using run cb by (auto simp: my_malloc_def e(1) g rv Let_def split: if_splits)
  then show ?thesis using acl_driver.reserve_ok [OF drv] rv e(2) by metis
qed

definition sim_unset :: "(sim, allocator) camem" where
  "sim_unset = (sim_start 10)\<lparr>g_python_malloc_callback := None\<rparr>"

lemma sim_unset_thrown: "thrown (my_malloc sim_acl allocator_call 100 0 sim_unset) = Some MallocCallbackNotSet"
  by code_simp

theorem camem_missing_callback_witness:
  "\<exists>a size_arg. sim_view (cm_rt (state_of (my_malloc sim_acl allocator_call 100 0 sim_unset))) =
     (sim_view (cm_rt sim_unset))\<lparr>av_reserved := (av_reserved (sim_view (cm_rt sim_unset)))(a \<mapsto> size_arg)\<rparr>"
  using camem_missing_callback [OF sim.acl_driver_axioms _ thrown_eq [OF sim_unset_thrown]] by (auto simp: sim_unset_def)

section \<open>Tags\<close>

text \<open>
  A block under \<open>use_allocation_tag\<close> that ends, normally or by an exception, leaves the tag as it was
  before. Under \<open>use_memory_pool\<close> this holds only for a normal end: when the block raises, the
  tag that was current in the block stays in force.
\<close>

theorem camem_tag_scope:
  assumes "body (set_tag tag st) \<noteq> Crashed"
    and "pool_body ((set_tag tag st)\<lparr>g_python_malloc_callback := Some 1, g_python_free_callback := Some 2\<rparr>) = Thrown e s"
  shows "current_tag (cm_py (state_of (use_allocation_tag tag body st))) = current_tag (cm_py st) \<and>
    use_memory_pool (Some tag) pool_body st = Thrown e s"
  using assms by (auto simp: use_allocation_tag_def use_memory_pool_def state_of_def set_tag_def py_init_module_def Let_def split: outcome.splits)

definition sim_block :: "(sim, allocator) camem \<Rightarrow> ((sim, allocator) camem, int) outcome" where
  "sim_block = my_malloc sim_acl allocator_call 100 0"

lemma sim_block_thrown:
  "thrown (sim_block ((set_tag ''kv_cache'' (sim_start 0))\<lparr>g_python_malloc_callback := Some 1, g_python_free_callback := Some 2\<rparr>)) =
     Some (MallocPhysicalOOM 207001)"
  "current_tag (cm_py (state_of (sim_block ((set_tag ''kv_cache'' (sim_start 0))\<lparr>g_python_malloc_callback := Some 1,
     g_python_free_callback := Some 2\<rparr>)))) = ''kv_cache''"
  "thrown (sim_block (set_tag ''kv_cache'' (sim_start 0))) = Some (MallocPhysicalOOM 207001)"
  by code_simp+

theorem camem_tag_scope_witness:
  "current_tag (cm_py (state_of (use_allocation_tag ''kv_cache'' sim_block (sim_start 0)))) = ''default'' \<and>
   (\<exists>st'. use_memory_pool (Some ''kv_cache'') sim_block (sim_start 0) = Thrown (MallocPhysicalOOM 207001) st' \<and>
      current_tag (cm_py st') = ''kv_cache'')"
proof -
  have "sim_block (set_tag ''kv_cache'' (sim_start 0)) \<noteq> Crashed" using sim_block_thrown(3) by (auto simp: thrown_def)
  moreover have "current_tag (cm_py (sim_start 0)) = ''default''" by (simp add: sim_start_def)
  ultimately show ?thesis
    using camem_tag_scope [where body = sim_block and pool_body = sim_block and tag = "''kv_cache''" and st = "sim_start 0",
        OF _ thrown_eq [OF sim_block_thrown(1)]] sim_block_thrown(2) by auto
qed

end
