(* ===== verification/PyBase.thy ===== *)
theory PyBase
  imports Complex_Main "HOL-Library.AList" "HOL-Library.Multiset"
begin

text \<open>
  What the Python components share: exceptions, dictionaries, duplicate-free tuples, and floating
  point numbers. The arithmetic of floats is an argument: a record of operations on a type \<open>'f\<close>, so that
  what is proved holds for every rounding. Comparisons are those of Python, where \<open>f_lt\<close> and \<open>f_le\<close> are both false
  when an operand is not a number; \<open>f_ceil\<close> is \<^verbatim>\<open>math.ceil\<close>, which raises on infinities.
\<close>

section \<open>Exceptions\<close>

datatype py_exc = ValueError string | RuntimeError string | KeyError int | IndexError | AssertionError | OverflowError

text \<open>A call on an object: its result, or the exception it raises, and the object afterwards.\<close>

type_synonym ('s, 'a) py_call = "(py_exc + 'a) \<times> 's"

section \<open>Floating point numbers\<close>

record 'f flt =
  f_of_int :: "int \<Rightarrow> 'f"
  f_micro :: 'f
    \<comment> \<open>the literal \<^verbatim>\<open>1e-6\<close>\<close>
  f_eq :: "'f \<Rightarrow> 'f \<Rightarrow> bool"
  f_lt :: "'f \<Rightarrow> 'f \<Rightarrow> bool"
  f_le :: "'f \<Rightarrow> 'f \<Rightarrow> bool"
  f_add :: "'f \<Rightarrow> 'f \<Rightarrow> 'f"
  f_sub :: "'f \<Rightarrow> 'f \<Rightarrow> 'f"
  f_mul :: "'f \<Rightarrow> 'f \<Rightarrow> 'f"
  f_div :: "'f \<Rightarrow> 'f \<Rightarrow> 'f"
  f_pow :: "'f \<Rightarrow> nat \<Rightarrow> 'f"
  f_ceil :: "'f \<Rightarrow> int option"

text \<open>The built-in functions keep their first argument unless the second is strictly better.\<close>

definition f_min :: "'f flt \<Rightarrow> 'f \<Rightarrow> 'f \<Rightarrow> 'f" where
  "f_min fo a b = (if f_lt fo b a then b else a)"

definition f_max :: "'f flt \<Rightarrow> 'f \<Rightarrow> 'f \<Rightarrow> 'f" where
  "f_max fo a b = (if f_lt fo a b then b else a)"

text \<open>Exact arithmetic, for concrete runs.\<close>

definition rat_flt :: "rat flt" where
  "rat_flt =
     \<lparr>f_of_int = of_int, f_micro = 1 / 1000000, f_eq = (=), f_lt = (<), f_le = (\<le>),
      f_add = (+), f_sub = (-), f_mul = (*), f_div = (/), f_pow = (^), f_ceil = (\<lambda>x. Some \<lceil>x\<rceil>)\<rparr>"

section \<open>Sequences\<close>

text \<open>\<^verbatim>\<open>tuple(dict.fromkeys(xs))\<close>: the elements at their first occurrence.\<close>

primrec fromkeys_from :: "'a list \<Rightarrow> 'a list \<Rightarrow> 'a list" where
  "fromkeys_from seen [] = []"
| "fromkeys_from seen (x # xs) = (if x \<in> set seen then fromkeys_from seen xs else x # fromkeys_from (x # seen) xs)"

definition fromkeys :: "'a list \<Rightarrow> 'a list" where
  "fromkeys xs = fromkeys_from [] xs"

lemma fromkeys_from_props: "set (fromkeys_from seen xs) = set xs - set seen" "distinct (fromkeys_from seen xs)"
  by (induction xs arbitrary: seen) auto

lemma fromkeys_props [simp]: "set (fromkeys xs) = set xs" "distinct (fromkeys xs)"
  by (simp_all add: fromkeys_def fromkeys_from_props)

text \<open>
  \<^verbatim>\<open>sorted(xs, key=..., reverse=True)\<close>, which keeps equal elements in order, over the comparison \<open>lt\<close> of
  the keys; \<^verbatim>\<open>max\<close> of a non-empty list takes the first of the largest.
\<close>

primrec insert_desc :: "('a \<Rightarrow> 'a \<Rightarrow> bool) \<Rightarrow> 'a \<Rightarrow> 'a list \<Rightarrow> 'a list" where
  "insert_desc lt x [] = [x]"
| "insert_desc lt x (y # ys) = (if lt x y then y # insert_desc lt x ys else x # y # ys)"

definition sorted_desc :: "('a \<Rightarrow> 'a \<Rightarrow> bool) \<Rightarrow> 'a list \<Rightarrow> 'a list" where
  "sorted_desc lt xs = foldr (insert_desc lt) xs []"

lemma insert_desc_mset [simp]: "mset (insert_desc lt x ys) = add_mset x (mset ys)"
  by (induction ys) auto

lemma sorted_desc_mset [simp]: "mset (sorted_desc lt xs) = mset xs"
  by (induction xs) (auto simp: sorted_desc_def)

lemma sorted_desc_props [simp]: "set (sorted_desc lt xs) = set xs" "distinct (sorted_desc lt xs) = distinct xs"
  using sorted_desc_mset [of lt xs] by (metis set_mset_mset) (metis mset_eq_imp_distinct_iff sorted_desc_mset)

definition py_max :: "('a \<Rightarrow> 'a \<Rightarrow> bool) \<Rightarrow> 'a \<Rightarrow> 'a list \<Rightarrow> 'a" where
  "py_max lt x xs = foldl (\<lambda>a b. if lt a b then b else a) x xs"

lemma py_max_in: "py_max lt x xs \<in> set (x # xs)"
  by (induction xs arbitrary: x) (auto simp: py_max_def)

section \<open>Dictionaries\<close>

text \<open>A dictionary is its items in insertion order; assignment is \<^const>\<open>AList.update\<close> and removal \<^const>\<open>AList.delete\<close>.\<close>

definition dict_in :: "'k \<Rightarrow> ('k \<times> 'v) list \<Rightarrow> bool" where
  "dict_in k d = (map_of d k \<noteq> None)"

definition dict_get :: "('k \<times> 'v) list \<Rightarrow> 'k \<Rightarrow> 'v \<Rightarrow> 'v" where
  "dict_get d k v = (case map_of d k of Some x \<Rightarrow> x | None \<Rightarrow> v)"

definition dict_sum :: "('k \<times> int) list \<Rightarrow> int" where
  "dict_sum d = sum_list (map snd d)"

lemma dict_in_keys: "dict_in k d \<longleftrightarrow> k \<in> fst ` set d"
  by (simp add: dict_in_def map_of_eq_None_iff)

lemma dict_sum_update:
  assumes "distinct (map fst d)"
  shows "dict_sum (AList.update k v d) = dict_sum d - dict_get d k 0 + v"
  using assms
proof (induction d)
  case (Cons p d)
  have "map_of d (fst p) = None" using Cons.prems by (simp add: map_of_eq_None_iff)
  then show ?case using Cons by (auto simp: dict_sum_def dict_get_def split: option.splits)
qed (simp add: dict_sum_def dict_get_def)

lemma dict_update_keys: "fst ` set (AList.update k v d) = insert k (fst ` set d)"
  by (induction d) auto

end
