(* ===== verification/Rhythm.thy ===== *)
theory Rhythm
  imports PyBase
begin

text \<open>
  The control plane of speculative decoding under service level objectives
  (\<^verbatim>\<open>vllm_ascend/spec_decode/pearl/spec_rhythm.py\<close>): progress accounting of a request, the budget shaper, and the
  controller of two alternating batches with its guarded proposal tickets. Dataclasses are records;
  \<^verbatim>\<open>__post_init__\<close> is a function from the fields to the object or an exception. Messages of exceptions are
  shortened to a word. Ticket objects are shared between the caller and the controller, so they live
  in a store indexed by their identifier, and the dictionaries of the controller refer to it.
\<close>

section \<open>Progress of a request\<close>

definition f_clamp :: "'f flt \<Rightarrow> 'f \<Rightarrow> 'f \<Rightarrow> 'f \<Rightarrow> 'f" where
  "f_clamp fo value_arg lower upper = f_max fo lower (f_min fo upper value_arg)"

record 'f SpecRhythmRuntimeState =
  rs_request_index :: int
  rs_home_batch_id :: int
  rs_slo_tpot_ms :: "'f option"
  rs_slo_class :: "string option"
  rs_max_gamma :: "int option"
  rs_delivered_tokens :: int
  rs_decode_elapsed_ms :: 'f
  rs_acceptance_ema :: 'f
  rs_draft_confidence_ema :: 'f
  rs_prefix_epoch :: int
  rs_verification_rounds :: int

definition runtime_state_post_init :: "'f flt \<Rightarrow> 'f SpecRhythmRuntimeState \<Rightarrow> py_exc + 'f SpecRhythmRuntimeState" where
  "runtime_state_post_init fo s =
     (if rs_request_index s < 0 then Inl (ValueError ''request_index'')
      else if rs_home_batch_id s \<noteq> 0 \<and> rs_home_batch_id s \<noteq> 1 then Inl (ValueError ''home_batch_id'')
      else if (case rs_slo_tpot_ms s of None \<Rightarrow> False | Some x \<Rightarrow> f_le fo x (f_of_int fo 0)) then Inl (ValueError ''slo_tpot_ms'')
      else if (case rs_max_gamma s of None \<Rightarrow> False | Some g \<Rightarrow> g \<le> 0) then Inl (ValueError ''max_gamma'')
      else if rs_delivered_tokens s < 0 \<or> f_lt fo (rs_decode_elapsed_ms s) (f_of_int fo 0) then Inl (ValueError ''progress'')
      else Inr (s\<lparr>rs_acceptance_ema := f_clamp fo (rs_acceptance_ema s) (f_of_int fo 0) (f_of_int fo 1),
                  rs_draft_confidence_ema := f_clamp fo (rs_draft_confidence_ema s) (f_of_int fo 0) (f_of_int fo 1)\<rparr>))"

definition expected_acceptance_benefit :: "'f flt \<Rightarrow> 'f SpecRhythmRuntimeState \<Rightarrow> 'f" where
  "expected_acceptance_benefit fo s = f_mul fo (rs_acceptance_ema s) (rs_draft_confidence_ema s)"

definition observed_tpot_ms :: "'f flt \<Rightarrow> 'f SpecRhythmRuntimeState \<Rightarrow> 'f" where
  "observed_tpot_ms fo s = f_div fo (rs_decode_elapsed_ms s) (f_of_int fo (max 1 (rs_delivered_tokens s)))"

definition projected_progress_gap :: "'f flt \<Rightarrow> 'f SpecRhythmRuntimeState \<Rightarrow> 'f \<Rightarrow> py_exc + int" where
  "projected_progress_gap fo s projected_wait_ms =
     (case rs_slo_tpot_ms s of None \<Rightarrow> Inr 0
      | Some slo \<Rightarrow>
        let projected_tokens = f_div fo (f_add fo (rs_decode_elapsed_ms s) (f_max fo (f_of_int fo 0) projected_wait_ms)) slo
        in (case f_ceil fo (f_max fo (f_of_int fo 0) (f_sub fo projected_tokens (f_of_int fo (rs_delivered_tokens s)))) of
              None \<Rightarrow> Inl OverflowError | Some n \<Rightarrow> Inr n))"

definition urgency :: "'f flt \<Rightarrow> 'f SpecRhythmRuntimeState \<Rightarrow> 'f \<Rightarrow> 'f" where
  "urgency fo s projected_wait_ms =
     (case rs_slo_tpot_ms s of None \<Rightarrow> f_of_int fo 0
      | Some slo \<Rightarrow>
        let projected_tpot = f_div fo (f_add fo (rs_decode_elapsed_ms s) (f_max fo (f_of_int fo 0) projected_wait_ms))
                               (f_of_int fo (max 1 (rs_delivered_tokens s)))
        in f_max fo (f_of_int fo 0) (f_div fo projected_tpot slo))"

definition add_decode_time :: "'f flt \<Rightarrow> 'f \<Rightarrow> 'f SpecRhythmRuntimeState \<Rightarrow> 'f SpecRhythmRuntimeState" where
  "add_decode_time fo elapsed_ms s =
     s\<lparr>rs_decode_elapsed_ms := f_add fo (rs_decode_elapsed_ms s) (f_max fo (f_of_int fo 0) elapsed_ms)\<rparr>"

definition record_verification ::
  "'f flt \<Rightarrow> int \<Rightarrow> int \<Rightarrow> int \<Rightarrow> 'f option \<Rightarrow> 'f \<Rightarrow> 'f SpecRhythmRuntimeState \<Rightarrow> 'f SpecRhythmRuntimeState" where
  "record_verification fo proposed_tokens accepted_tokens delivered_tokens draft_confidence ema_alpha s =
     (let proposed = max 0 proposed_tokens;
          accepted = max 0 (min accepted_tokens proposed);
          delivered = max 0 delivered_tokens;
          alpha = f_clamp fo ema_alpha (f_micro fo) (f_of_int fo 1);
          rest = f_sub fo (f_of_int fo 1) alpha;
          s = (if proposed \<noteq> 0
               then s\<lparr>rs_acceptance_ema := f_add fo (f_mul fo alpha (f_div fo (f_of_int fo accepted) (f_of_int fo proposed)))
                                              (f_mul fo rest (rs_acceptance_ema s))\<rparr>
               else s);
          s = (case draft_confidence of None \<Rightarrow> s
               | Some c \<Rightarrow> s\<lparr>rs_draft_confidence_ema :=
                    f_add fo (f_mul fo alpha (f_clamp fo c (f_of_int fo 0) (f_of_int fo 1)))
                      (f_mul fo rest (rs_draft_confidence_ema s))\<rparr>)
      in s\<lparr>rs_delivered_tokens := rs_delivered_tokens s + delivered,
           rs_verification_rounds := rs_verification_rounds s + 1,
           rs_prefix_epoch := rs_prefix_epoch s + 1\<rparr>)"

section \<open>Budget plans\<close>

record 'f SpecRhythmBudgetPlan =
  bp_plan_id :: int
  bp_normal_budgets :: "(int \<times> int) list"
  bp_eager_budgets :: "(int \<times> int) list"
  bp_progress_gaps :: "(int \<times> int) list"
  bp_eager_priorities :: "(int \<times> 'f) list"
  bp_verification_roof :: int
  bp_draft_token_budget :: int
  bp_allocated_draft_tokens :: int

definition budget_plan_post_init :: "'f SpecRhythmBudgetPlan \<Rightarrow> py_exc + 'f SpecRhythmBudgetPlan" where
  "budget_plan_post_init p =
     (let normal = bp_normal_budgets p; eager = bp_eager_budgets p;
          normal_tokens = dict_sum normal; eager_tokens = dict_sum eager
      in if list_ex (\<lambda>k. dict_in k eager) (map fst normal) then Inl (ValueError ''disjoint'')
         else if list_ex (\<lambda>v. v \<le> 0) (map snd normal @ map snd eager) then Inl (ValueError ''token'')
         else if normal_tokens > bp_verification_roof p then Inl (ValueError ''normal roofline'')
         else if eager_tokens > bp_verification_roof p then Inl (ValueError ''eager roofline'')
         else if normal_tokens + eager_tokens > bp_verification_roof p then Inl (ValueError ''global roofline'')
         else if bp_allocated_draft_tokens p \<noteq> dict_sum normal + dict_sum eager then Inl (ValueError ''accounting'')
         else if bp_allocated_draft_tokens p > bp_draft_token_budget p then Inl (ValueError ''draft window'')
         else Inr p)"

record 'f SpecRhythmBudgetShaper =
  sh_min_gamma :: int
  sh_max_gamma :: int
  sh_acceptance_floor :: 'f
  sh_acceptance_ema_alpha :: 'f
  sh_roofline :: "(string \<times> int) list"

definition budget_shaper_init ::
  "'f flt \<Rightarrow> int \<Rightarrow> int \<Rightarrow> 'f \<Rightarrow> 'f \<Rightarrow> (string \<times> int) list \<Rightarrow> py_exc + 'f SpecRhythmBudgetShaper" where
  "budget_shaper_init fo min_gamma max_gamma acceptance_floor acceptance_ema_alpha roofline =
     (if min_gamma \<le> 0 \<or> max_gamma < min_gamma then Inl (ValueError ''gamma'')
      else if list_ex (\<lambda>v. v \<le> 0) (map snd roofline) then Inl (ValueError ''roofline'')
      else Inr \<lparr>sh_min_gamma = min_gamma, sh_max_gamma = max_gamma,
                sh_acceptance_floor = f_clamp fo acceptance_floor (f_of_int fo 0) (f_of_int fo 1),
                sh_acceptance_ema_alpha = f_clamp fo acceptance_ema_alpha (f_micro fo) (f_of_int fo 1),
                sh_roofline = roofline\<rparr>)"

text \<open>The decimal digits of a positive number, as in a formatted string.\<close>

fun py_str :: "nat \<Rightarrow> string" where
  "py_str n = (if n < 10 then [char_of (48 + n)] else py_str (n div 10) @ [char_of (48 + n mod 10)])"

declare py_str.simps [simp del]

text \<open>The division by 512 is exact on floats for lengths below \<open>2 ^ 53\<close>, so the bucket is the quotient rounded up.\<close>

definition verification_roof :: "'f SpecRhythmBudgetShaper \<Rightarrow> int \<Rightarrow> int \<Rightarrow> int" where
  "verification_roof sh batch_size context_len =
     (let batch_size = max 1 batch_size;
          context_bucket = max 1 ((max 1 context_len + 511) div 512);
          exact = py_str (nat batch_size) @ '':'' @ py_str (nat context_bucket);
          batch = ''batch:'' @ py_str (nat batch_size)
      in (case map_of (sh_roofline sh) exact of Some v \<Rightarrow> max batch_size v
          | None \<Rightarrow> (case map_of (sh_roofline sh) batch of Some v \<Rightarrow> max batch_size v
          | None \<Rightarrow> (case map_of (sh_roofline sh) ''default'' of Some v \<Rightarrow> max batch_size v
          | None \<Rightarrow> batch_size * sh_max_gamma sh))))"

section \<open>Shaping\<close>

text \<open>\<^verbatim>\<open>min(self.max_gamma, state.max_gamma or self.max_gamma)\<close>.\<close>

definition request_cap :: "'f SpecRhythmBudgetShaper \<Rightarrow> 'f SpecRhythmRuntimeState \<Rightarrow> int" where
  "request_cap sh s =
     min (sh_max_gamma sh) (case rs_max_gamma s of None \<Rightarrow> sh_max_gamma sh | Some g \<Rightarrow> if g = 0 then sh_max_gamma sh else g)"

primrec collect_gaps :: "(int \<Rightarrow> py_exc + int) \<Rightarrow> int list \<Rightarrow> py_exc + (int \<times> int) list" where
  "collect_gaps gap [] = Inr []"
| "collect_gaps gap (i # is) =
     (case gap i of Inl e \<Rightarrow> Inl e
      | Inr g \<Rightarrow> (case collect_gaps gap is of Inl e \<Rightarrow> Inl e | Inr gs \<Rightarrow> Inr ((i, g) # gs)))"

text \<open>The comparison of the sort keys of the first stage, tuples of two floats and the negated index.\<close>

definition urgent_less ::
  "'f flt \<Rightarrow> (int \<Rightarrow> 'f SpecRhythmRuntimeState) \<Rightarrow> (int \<times> int) list \<Rightarrow> 'f \<Rightarrow> int \<Rightarrow> int \<Rightarrow> bool" where
  "urgent_less fo state gaps wait i j =
     (let benefit = (\<lambda>k. f_mul fo (f_of_int fo (dict_get gaps k 0)) (expected_acceptance_benefit fo (state k)));
          urg = (\<lambda>k. urgency fo (state k) wait)
      in if \<not> f_eq fo (benefit i) (benefit j) then f_lt fo (benefit i) (benefit j)
         else if \<not> f_eq fo (urg i) (urg j) then f_lt fo (urg i) (urg j)
         else - i < - j)"

text \<open>Budgets of the normal and the eager requests, what is left of the roofline and of the draft window.\<close>

type_synonym shape_state = "(int \<times> int) list \<times> (int \<times> int) list \<times> int \<times> int"

primrec close_gaps ::
  "'f flt \<Rightarrow> 'f SpecRhythmBudgetShaper \<Rightarrow> (int \<Rightarrow> 'f SpecRhythmRuntimeState) \<Rightarrow> (int \<times> int) list \<Rightarrow> int list \<Rightarrow>
    shape_state \<Rightarrow> shape_state" where
  "close_gaps fo sh state gaps [] st = st"
| "close_gaps fo sh state gaps (index # rest) st =
     (case st of (normal_budgets, eager_budgets, remaining_roof, remaining_draft) \<Rightarrow>
      let gap = dict_get gaps index 0 in
      if gap \<le> 0 \<or> f_lt fo (expected_acceptance_benefit fo (state index)) (sh_acceptance_floor sh)
      then close_gaps fo sh state gaps rest st
      else (let cap = request_cap sh (state index);
                (grant, normal_budgets, eager_budgets, remaining_roof) =
                  (if dict_in index normal_budgets
                   then (let current = dict_get normal_budgets index 0;
                             wanted = max 0 (min cap gap - current);
                             grant = min (min wanted remaining_roof) remaining_draft
                         in (grant, AList.update index (current + grant) normal_budgets, eager_budgets, remaining_roof - grant))
                   else (let wanted = min cap (max (sh_min_gamma sh) gap);
                             grant = min (min wanted remaining_roof) remaining_draft
                         in if grant > 0
                            then (grant, normal_budgets, AList.update index grant eager_budgets, remaining_roof - grant)
                            else (grant, normal_budgets, eager_budgets, remaining_roof)));
                remaining_draft = remaining_draft - grant;
                st = (normal_budgets, eager_budgets, remaining_roof, remaining_draft)
            in if remaining_draft \<le> 0 then st else close_gaps fo sh state gaps rest st))"

text \<open>The second stage: candidates with their marginal progress, the negated index and the kind.\<close>

definition draft_candidates ::
  "'f flt \<Rightarrow> 'f SpecRhythmBudgetShaper \<Rightarrow> (int \<Rightarrow> 'f SpecRhythmRuntimeState) \<Rightarrow> 'f \<Rightarrow> int list \<Rightarrow> int list \<Rightarrow> shape_state \<Rightarrow>
    ('f \<times> int \<times> string) list" where
  "draft_candidates fo sh state wait normal eager st =
     (case st of (normal_budgets, eager_budgets, remaining_roof, remaining_draft) \<Rightarrow>
      let of_kind = (\<lambda>kind budgets indices.
            if remaining_roof \<le> 0 then []
            else concat (map (\<lambda>index.
                   let s = state index;
                       current = dict_get budgets index 0;
                       benefit = expected_acceptance_benefit fo s
                   in if current \<ge> request_cap sh s then []
                      else if kind = ''eager'' \<and> f_lt fo benefit (sh_acceptance_floor sh) then []
                      else [(f_mul fo (f_add fo (f_of_int fo 1) (urgency fo s wait)) (f_pow fo benefit (nat (current + 1))),
                             - index, kind)]) indices))
      in of_kind ''normal'' normal_budgets normal @ of_kind ''eager'' eager_budgets eager)"

definition candidate_less :: "'f flt \<Rightarrow> 'f \<times> int \<times> string \<Rightarrow> 'f \<times> int \<times> string \<Rightarrow> bool" where
  "candidate_less fo a b =
     (case (a, b) of ((m, i, k), (m', i', k')) \<Rightarrow>
      if \<not> f_eq fo m m' then f_lt fo m m' else if i \<noteq> i' then i < i' else k = ''eager'' \<and> k' = ''normal'')"

partial_function (option) spend_residual ::
  "'f flt \<Rightarrow> 'f SpecRhythmBudgetShaper \<Rightarrow> (int \<Rightarrow> 'f SpecRhythmRuntimeState) \<Rightarrow> 'f \<Rightarrow> int list \<Rightarrow> int list \<Rightarrow> shape_state \<Rightarrow>
    shape_state option" where
  "spend_residual fo sh state wait normal eager st =
     (case st of (normal_budgets, eager_budgets, remaining_roof, remaining_draft) \<Rightarrow>
      if remaining_draft > 0
      then (case draft_candidates fo sh state wait normal eager st of
              [] \<Rightarrow> Some st
            | c # cs \<Rightarrow>
              (case py_max (candidate_less fo) c cs of (_, negative_index, kind) \<Rightarrow>
               let index = - negative_index
               in spend_residual fo sh state wait normal eager
                    (if kind = ''normal''
                     then (AList.update index (dict_get normal_budgets index 0 + 1) normal_budgets, eager_budgets,
                           remaining_roof - 1, remaining_draft - 1)
                     else (normal_budgets, AList.update index (dict_get eager_budgets index 0 + 1) eager_budgets,
                           remaining_roof - 1, remaining_draft - 1))))
      else Some st)"

declare spend_residual.simps [code]

definition shape ::
  "'f flt \<Rightarrow> 'f SpecRhythmBudgetShaper \<Rightarrow> int \<Rightarrow> int list \<Rightarrow> int list \<Rightarrow> (int \<Rightarrow> 'f SpecRhythmRuntimeState option) \<Rightarrow> 'f \<Rightarrow> int \<Rightarrow>
    int option \<Rightarrow> int option \<Rightarrow> (py_exc + 'f SpecRhythmBudgetPlan) option" where
  "shape fo sh plan_id normal_request_indices eager_request_indices states projected_wait_ms context_len
       draft_token_budget batch_size =
     (let normal = fromkeys normal_request_indices;
          eager = fromkeys eager_request_indices;
          requested = normal @ eager;
          state = (\<lambda>index. the (states index))
      in if list_ex (\<lambda>index. index \<in> set eager) normal then Some (Inl (ValueError ''normal and eager''))
         else if list_ex (\<lambda>index. states index = None) requested then Some (Inl (ValueError ''unregistered''))
         else
           (let roof = verification_roof sh (case batch_size of None \<Rightarrow> max (int (length requested)) 1 | Some b \<Rightarrow> b) context_len;
                available_draft = (case draft_token_budget of None \<Rightarrow> 2 * roof | Some b \<Rightarrow> max 0 b);
                normal_budgets = map (\<lambda>index. (index, min (sh_min_gamma sh) (request_cap sh (state index)))) normal;
                minimum_needed = dict_sum normal_budgets
            in if minimum_needed > roof \<or> minimum_needed > available_draft then Some (Inl (ValueError ''minimum''))
               else (case collect_gaps (\<lambda>index. projected_progress_gap fo (state index) projected_wait_ms) requested of
                       Inl e \<Rightarrow> Some (Inl e)
                     | Inr gaps \<Rightarrow>
                       let priorities = map (\<lambda>index. (index, f_mul fo (f_of_int fo (dict_get gaps index 0))
                                                       (expected_acceptance_benefit fo (state index)))) eager;
                           urgent = sorted_desc (urgent_less fo state gaps projected_wait_ms) requested;
                           st = close_gaps fo sh state gaps urgent
                                  (normal_budgets, [], roof - minimum_needed, available_draft - minimum_needed)
                       in map_option (\<lambda>(normal_budgets, eager_budgets, remaining_roof, remaining_draft).
                            budget_plan_post_init
                              \<lparr>bp_plan_id = plan_id, bp_normal_budgets = normal_budgets, bp_eager_budgets = eager_budgets,
                               bp_progress_gaps = gaps, bp_eager_priorities = priorities, bp_verification_roof = roof,
                               bp_draft_token_budget = available_draft,
                               bp_allocated_draft_tokens = dict_sum normal_budgets + dict_sum eager_budgets\<rparr>)
                            (spend_residual fo sh state projected_wait_ms normal eager st))))"

end
