(* ===== verification/RhythmPipeline.thy ===== *)
theory RhythmPipeline
  imports Rhythm
begin

text \<open>
  The controller of two alternating batches and the scheduler that admits requests
  (\<^verbatim>\<open>spec_rhythm.py\<close>, second half). The scheduler and its controller share the dictionary of request states, which
  is part of the controller here.
\<close>

section \<open>Tickets and plans\<close>

datatype ProposalLifecycle = AVAILABLE | STAGED_EAGER | CONSUMED | INVALIDATED

record SpecRhythmProposalTicket =
  tk_proposal_id :: int
  tk_request_index :: int
  tk_home_batch_id :: int
  tk_gamma :: int
  tk_required_prefix_epoch :: int
  tk_eager :: bool
  tk_lifecycle :: ProposalLifecycle

definition ticket_post_init :: "SpecRhythmProposalTicket \<Rightarrow> py_exc + SpecRhythmProposalTicket" where
  "ticket_post_init t =
     (if tk_proposal_id t < 0 \<or> tk_request_index t < 0 \<or> tk_gamma t \<le> 0 then Inl (ValueError ''identifiers'')
      else if (tk_home_batch_id t \<noteq> 0 \<and> tk_home_batch_id t \<noteq> 1) \<or> tk_required_prefix_epoch t < 0 then Inl (ValueError ''routing'')
      else Inr t)"

datatype PipelinePhase = WARMUP | STEADY | DRAIN | COMPLETE

record SpecRhythmExecutionPlan =
  ep_plan_id :: int
  ep_phase :: PipelinePhase
  ep_target_home_batch_id :: "int option"
  ep_draft_home_batch_id :: "int option"
  ep_target_request_indices :: "int list"
  ep_normal_draft_request_indices :: "int list"
  ep_eager_candidate_indices :: "int list"

section \<open>The controller\<close>

record 'f SpecRhythmPipelineController =
  pc_request_states :: "int \<Rightarrow> 'f SpecRhythmRuntimeState option"
  pc_next_target_home_batch_id :: int
  pc_plan_id :: int
  pc_next_proposal_id :: int
  pc_ready :: "(int \<times> int) list"
  pc_staged_eager :: "(int \<times> int) list"
  pc_tickets :: "int \<Rightarrow> SpecRhythmProposalTicket option"
    \<comment> \<open>the ticket objects by identifier\<close>

definition set_lifecycle ::
  "int \<Rightarrow> ProposalLifecycle \<Rightarrow> 'f SpecRhythmPipelineController \<Rightarrow> 'f SpecRhythmPipelineController" where
  "set_lifecycle p l c =
     c\<lparr>pc_tickets := (pc_tickets c)(p := map_option (\<lambda>t. t\<lparr>tk_lifecycle := l\<rparr>) (pc_tickets c p))\<rparr>"

definition invalidate_request :: "int \<Rightarrow> 'f SpecRhythmPipelineController \<Rightarrow> 'f SpecRhythmPipelineController" where
  "invalidate_request request_index c =
     (let c = (case map_of (pc_ready c) request_index of None \<Rightarrow> c
               | Some p \<Rightarrow> set_lifecycle p INVALIDATED (c\<lparr>pc_ready := AList.delete request_index (pc_ready c)\<rparr>))
      in (case map_of (pc_staged_eager c) request_index of None \<Rightarrow> c
          | Some p \<Rightarrow> set_lifecycle p INVALIDATED (c\<lparr>pc_staged_eager := AList.delete request_index (pc_staged_eager c)\<rparr>)))"

definition discard_inactive_payloads :: "int list \<Rightarrow> 'f SpecRhythmPipelineController \<Rightarrow> 'f SpecRhythmPipelineController" where
  "discard_inactive_payloads active c =
     fold invalidate_request
       (filter (\<lambda>i. i \<notin> set active) (remdups (map fst (pc_ready c) @ map fst (pc_staged_eager c)))) c"

definition build_plan ::
  "int list \<Rightarrow> 'f SpecRhythmPipelineController \<Rightarrow> ('f SpecRhythmPipelineController, SpecRhythmExecutionPlan) py_call" where
  "build_plan active_request_indices c =
     (let active = fromkeys active_request_indices
      in if list_ex (\<lambda>i. pc_request_states c i = None) active then (Inl (ValueError ''unregistered''), c)
         else
           (let c = discard_inactive_payloads active c;
                home = (\<lambda>i. rs_home_batch_id (the (pc_request_states c i)));
                ready_homes = map home (filter (\<lambda>i. dict_in i (pc_ready c)) active);
                target_home = (if pc_next_target_home_batch_id c \<in> set ready_homes then Some (pc_next_target_home_batch_id c)
                               else if ready_homes \<noteq> [] then Some (Min (set ready_homes))
                               else None);
                draft_home = (case target_home of Some h \<Rightarrow> 1 - h | None \<Rightarrow> pc_next_target_home_batch_id c);
                draft_home = (if target_home = None \<and> \<not> list_ex (\<lambda>i. home i = draft_home) active
                              then 1 - draft_home else draft_home);
                target = (case target_home of None \<Rightarrow> []
                          | Some h \<Rightarrow> filter (\<lambda>i. home i = h \<and> dict_in i (pc_ready c)) active);
                normal = filter (\<lambda>i. home i = draft_home \<and> \<not> dict_in i (pc_ready c) \<and> \<not> dict_in i (pc_staged_eager c)) active;
                eager = filter (\<lambda>i. \<not> dict_in i (pc_staged_eager c)) target;
                phase = (if target \<noteq> [] then STEADY else if normal \<noteq> [] then WARMUP
                         else if pc_ready c \<noteq> [] then DRAIN else COMPLETE)
            in (Inr \<lparr>ep_plan_id = pc_plan_id c, ep_phase = phase, ep_target_home_batch_id = target_home,
                     ep_draft_home_batch_id = (if normal \<noteq> [] \<or> eager \<noteq> [] then Some draft_home else None),
                     ep_target_request_indices = target, ep_normal_draft_request_indices = normal,
                     ep_eager_candidate_indices = eager\<rparr>,
                c\<lparr>pc_plan_id := pc_plan_id c + 1\<rparr>)))"

text \<open>\<open>new_ticket\<close> returns the identifier of the object it creates.\<close>

definition new_ticket ::
  "int \<Rightarrow> int \<Rightarrow> bool \<Rightarrow> 'f SpecRhythmPipelineController \<Rightarrow> ('f SpecRhythmPipelineController, int) py_call" where
  "new_ticket request_index gamma eager c =
     (case pc_request_states c request_index of
        None \<Rightarrow> (Inl (KeyError request_index), c)
      | Some s \<Rightarrow>
        (case ticket_post_init
                \<lparr>tk_proposal_id = pc_next_proposal_id c, tk_request_index = request_index,
                 tk_home_batch_id = rs_home_batch_id s, tk_gamma = gamma,
                 tk_required_prefix_epoch = rs_prefix_epoch s + (if eager then 1 else 0), tk_eager = eager,
                 tk_lifecycle = (if eager then STAGED_EAGER else AVAILABLE)\<rparr> of
           Inl e \<Rightarrow> (Inl e, c)
         | Inr t \<Rightarrow> (Inr (pc_next_proposal_id c),
             c\<lparr>pc_tickets := (pc_tickets c)(pc_next_proposal_id c \<mapsto> t), pc_next_proposal_id := pc_next_proposal_id c + 1\<rparr>)))"

definition publish_one :: "int \<Rightarrow> 'f SpecRhythmPipelineController \<Rightarrow> ('f SpecRhythmPipelineController, unit) py_call" where
  "publish_one p c =
     (let ticket = the (pc_tickets c p); index = tk_request_index ticket
      in if tk_eager ticket
         then (if dict_in index (pc_staged_eager c) then (Inl (RuntimeError ''staged''), c)
               else (Inr (), c\<lparr>pc_staged_eager := AList.update index p (pc_staged_eager c)\<rparr>))
         else (if dict_in index (pc_ready c) then (Inl (RuntimeError ''available''), c)
               else (case pc_request_states c index of
                       None \<Rightarrow> (Inl (KeyError index), c)
                     | Some s \<Rightarrow>
                       if tk_required_prefix_epoch ticket \<noteq> rs_prefix_epoch s then (Inl (RuntimeError ''stale prefix''), c)
                       else (Inr (), c\<lparr>pc_ready := AList.update index p (pc_ready c)\<rparr>))))"

text \<open>An exception leaves the tickets before it published.\<close>

primrec publish :: "int list \<Rightarrow> 'f SpecRhythmPipelineController \<Rightarrow> ('f SpecRhythmPipelineController, unit) py_call" where
  "publish [] c = (Inr (), c)"
| "publish (p # ps) c = (case publish_one p c of (Inl e, c) \<Rightarrow> (Inl e, c) | (Inr _, c) \<Rightarrow> publish ps c)"

definition finish_verification ::
  "'f flt \<Rightarrow> int \<Rightarrow> bool \<Rightarrow> int \<Rightarrow> int \<Rightarrow> int \<Rightarrow> 'f option \<Rightarrow> 'f \<Rightarrow> 'f SpecRhythmPipelineController \<Rightarrow>
    ('f SpecRhythmPipelineController, int option) py_call" where
  "finish_verification fo request_index fully_accepted proposed_tokens accepted_tokens delivered_tokens draft_confidence ema_alpha c =
     (case map_of (pc_ready c) request_index of
        None \<Rightarrow> (Inl (RuntimeError ''missing proposal''), c)
      | Some current \<Rightarrow>
        let c = c\<lparr>pc_ready := AList.delete request_index (pc_ready c)\<rparr>
        in (case pc_request_states c request_index of
              None \<Rightarrow> (Inl (KeyError request_index), c)
            | Some state \<Rightarrow>
              if tk_required_prefix_epoch (the (pc_tickets c current)) \<noteq> rs_prefix_epoch state
              then (Inl (RuntimeError ''stale proposal''), c)
              else
                (let c = set_lifecycle current CONSUMED c;
                     state = record_verification fo proposed_tokens accepted_tokens delivered_tokens draft_confidence ema_alpha state;
                     c = c\<lparr>pc_request_states := (pc_request_states c)(request_index \<mapsto> state)\<rparr>;
                     (promoted, c) =
                       (case map_of (pc_staged_eager c) request_index of
                          None \<Rightarrow> (None, c)
                        | Some eager \<Rightarrow>
                          let c = c\<lparr>pc_staged_eager := AList.delete request_index (pc_staged_eager c)\<rparr>
                          in if fully_accepted \<and> tk_required_prefix_epoch (the (pc_tickets c eager)) = rs_prefix_epoch state
                             then (Some eager, set_lifecycle eager AVAILABLE
                                                 (c\<lparr>pc_ready := AList.update request_index eager (pc_ready c)\<rparr>))
                             else (None, set_lifecycle eager INVALIDATED c))
                 in (Inr promoted, c\<lparr>pc_next_target_home_batch_id := 1 - rs_home_batch_id state\<rparr>))))"

section \<open>The scheduler\<close>

record 'f SpecRhythmScheduler =
  sd_shaper :: "'f SpecRhythmBudgetShaper"
  sd_max_num_seqs :: int
  sd_active :: "int list"
  sd_controller :: "'f SpecRhythmPipelineController"

definition controller_init :: "'f SpecRhythmPipelineController" where
  "controller_init =
     \<lparr>pc_request_states = Map.empty, pc_next_target_home_batch_id = 0, pc_plan_id = 0, pc_next_proposal_id = 0,
      pc_ready = [], pc_staged_eager = [], pc_tickets = Map.empty\<rparr>"

definition scheduler_init :: "'f SpecRhythmBudgetShaper \<Rightarrow> int \<Rightarrow> py_exc + 'f SpecRhythmScheduler" where
  "scheduler_init shaper max_num_seqs =
     (if max_num_seqs \<le> 0 then Inl (ValueError ''max_num_seqs'')
      else Inr \<lparr>sd_shaper = shaper, sd_max_num_seqs = max_num_seqs, sd_active = [], sd_controller = controller_init\<rparr>)"

text \<open>The fields of a new request, the others at their defaults.\<close>

definition fresh_state ::
  "'f flt \<Rightarrow> int \<Rightarrow> int \<Rightarrow> 'f option \<Rightarrow> string option \<Rightarrow> int option \<Rightarrow> 'f SpecRhythmRuntimeState" where
  "fresh_state fo index home slo_tpot_ms slo_class max_gamma =
     \<lparr>rs_request_index = index, rs_home_batch_id = home, rs_slo_tpot_ms = slo_tpot_ms, rs_slo_class = slo_class,
      rs_max_gamma = max_gamma, rs_delivered_tokens = 0, rs_decode_elapsed_ms = f_of_int fo 0,
      rs_acceptance_ema = f_of_int fo 1, rs_draft_confidence_ema = f_of_int fo 1, rs_prefix_epoch = 0,
      rs_verification_rounds = 0\<rparr>"

definition admit ::
  "'f flt \<Rightarrow> int \<Rightarrow> int option \<Rightarrow> 'f option \<Rightarrow> string option \<Rightarrow> int option \<Rightarrow> 'f SpecRhythmScheduler \<Rightarrow>
    ('f SpecRhythmScheduler, 'f SpecRhythmRuntimeState) py_call" where
  "admit fo index home_batch_id slo_tpot_ms slo_class max_gamma sd =
     (let states = pc_request_states (sd_controller sd); active = sd_active sd
      in if states index \<noteq> None then (Inl (ValueError ''registered''), sd)
         else if int (length active) \<ge> sd_max_num_seqs sd then (Inl (RuntimeError ''slots''), sd)
         else
           (let count = (\<lambda>home. length (filter (\<lambda>i. rs_home_batch_id (the (states i)) = home) active));
                home = (case home_batch_id of Some h \<Rightarrow> h | None \<Rightarrow> if count 0 \<le> count 1 then 0 else 1)
            in (case runtime_state_post_init fo
                       (fresh_state fo index home slo_tpot_ms slo_class max_gamma) of
                  Inl e \<Rightarrow> (Inl e, sd)
                | Inr s \<Rightarrow> (Inr s,
                    sd\<lparr>sd_controller := (sd_controller sd)\<lparr>pc_request_states := states(index \<mapsto> s)\<rparr>,
                       sd_active := active @ [index]\<rparr>))))"

definition preempt :: "int \<Rightarrow> 'f SpecRhythmScheduler \<Rightarrow> ('f SpecRhythmScheduler, unit) py_call" where
  "preempt index sd =
     (if pc_request_states (sd_controller sd) index = None then (Inl (KeyError index), sd)
      else (Inr (), sd\<lparr>sd_controller := invalidate_request index (sd_controller sd),
                       sd_active := filter (\<lambda>current. current \<noteq> index) (sd_active sd)\<rparr>))"

definition reactivate :: "int \<Rightarrow> 'f SpecRhythmScheduler \<Rightarrow> ('f SpecRhythmScheduler, unit) py_call" where
  "reactivate index sd =
     (if pc_request_states (sd_controller sd) index = None then (Inl (KeyError index), sd)
      else if index \<in> set (sd_active sd) then (Inr (), sd)
      else if int (length (sd_active sd)) \<ge> sd_max_num_seqs sd then (Inl (RuntimeError ''slots''), sd)
      else (Inr (), sd\<lparr>sd_active := sd_active sd @ [index]\<rparr>))"

definition remove_request :: "int \<Rightarrow> 'f SpecRhythmScheduler \<Rightarrow> ('f SpecRhythmScheduler, unit) py_call" where
  "remove_request index sd =
     (case preempt index sd of
        (Inl e, sd) \<Rightarrow> (Inl e, sd)
      | (Inr _, sd) \<Rightarrow>
        (Inr (), sd\<lparr>sd_controller := (sd_controller sd)\<lparr>pc_request_states := (pc_request_states (sd_controller sd))(index := None)\<rparr>\<rparr>))"

text \<open>The shaper is total; \<^term>\<open>None\<close> would be a loop that does not end.\<close>

definition schedule ::
  "'f flt \<Rightarrow> 'f \<Rightarrow> int \<Rightarrow> int option \<Rightarrow> int option \<Rightarrow> 'f SpecRhythmScheduler \<Rightarrow>
    ('f SpecRhythmScheduler, SpecRhythmExecutionPlan \<times> 'f SpecRhythmBudgetPlan) py_call option" where
  "schedule fo projected_wait_ms context_len draft_token_budget batch_size sd =
     (case build_plan (sd_active sd) (sd_controller sd) of
        (Inl e, c) \<Rightarrow> Some (Inl e, sd\<lparr>sd_controller := c\<rparr>)
      | (Inr execution, c) \<Rightarrow>
        map_option (\<lambda>r. (case r of Inl e \<Rightarrow> Inl e | Inr budget \<Rightarrow> Inr (execution, budget), sd\<lparr>sd_controller := c\<rparr>))
          (shape fo (sd_shaper sd) (ep_plan_id execution) (ep_normal_draft_request_indices execution)
             (ep_eager_candidate_indices execution) (pc_request_states c) projected_wait_ms context_len draft_token_budget batch_size))"

end
