(* ===== verification/RhythmShape.thy ===== *)
theory RhythmShape
  imports RhythmPipeline
begin

text \<open>
  The budgets while they are shaped: every amount granted is taken from the roofline and from the draft
  window, and no request gets more than its cap. Both stages keep this.
\<close>

definition shaper_ok :: "'f SpecRhythmBudgetShaper \<Rightarrow> bool" where
  "shaper_ok sh \<longleftrightarrow> 1 \<le> sh_min_gamma sh \<and> sh_min_gamma sh \<le> sh_max_gamma sh"

definition state_ok :: "'f SpecRhythmRuntimeState \<Rightarrow> bool" where
  "state_ok s \<longleftrightarrow> 0 \<le> rs_request_index s \<and> rs_home_batch_id s \<in> {0, 1} \<and> (\<forall>g. rs_max_gamma s = Some g \<longrightarrow> 1 \<le> g) \<and>
     0 \<le> rs_delivered_tokens s \<and> 0 \<le> rs_prefix_epoch s"

lemma budget_shaper_init_ok: "budget_shaper_init fo a b c d r = Inr sh \<Longrightarrow> shaper_ok sh"
  by (auto simp: budget_shaper_init_def shaper_ok_def split: if_splits)

lemma cap_pos: "shaper_ok sh \<Longrightarrow> state_ok s \<Longrightarrow> 1 \<le> request_cap sh s"
  by (auto simp: request_cap_def shaper_ok_def state_ok_def split: option.splits)

text \<open>The grants of a state, for \<open>roof\<close> tokens of the roofline and \<open>avail\<close> of the draft window.\<close>

definition shape_ok ::
  "'f SpecRhythmBudgetShaper \<Rightarrow> (int \<Rightarrow> 'f SpecRhythmRuntimeState) \<Rightarrow> int list \<Rightarrow> int list \<Rightarrow> int \<Rightarrow> int \<Rightarrow> shape_state \<Rightarrow> bool" where
  "shape_ok sh state normal eager roof avail st =
     (case st of (nb, eb, rr, rd) \<Rightarrow>
        map fst nb = normal \<and> distinct normal \<and> distinct (map fst eb) \<and> set (map fst eb) \<subseteq> set eager \<and> set normal \<inter> set eager = {} \<and>
        (\<forall>(i, v)\<in>set nb. min (sh_min_gamma sh) (request_cap sh (state i)) \<le> v \<and> v \<le> request_cap sh (state i)) \<and>
        (\<forall>(i, v)\<in>set eb. 1 \<le> v \<and> v \<le> request_cap sh (state i)) \<and>
        0 \<le> rr \<and> 0 \<le> rd \<and> dict_sum nb + dict_sum eb + rr = roof \<and> dict_sum nb + dict_sum eb + rd = avail)"

lemma update_in_keys: "k \<in> fst ` set d \<Longrightarrow> map fst (AList.update k v d) = map fst d"
  by (induction d) auto

lemma update_all: "\<forall>(i, x)\<in>set d. P i x \<Longrightarrow> P k v \<Longrightarrow> \<forall>(i, x)\<in>set (AList.update k v d). P i x"
  by (induction d) auto

lemma dict_get_in: "k \<in> fst ` set d \<Longrightarrow> (k, dict_get d k x) \<in> set d"
  by (auto simp: dict_get_def map_of_eq_None_iff split: option.splits dest: map_of_SomeD)

lemma grant_normal:
  assumes ok: "shape_ok sh state normal eager roof avail (nb, eb, rr, rd)" and i: "i \<in> set normal"
    and n: "0 \<le> n" "n \<le> rr" "n \<le> rd" "n = 0 \<or> dict_get nb i 0 + n \<le> request_cap sh (state i)"
  shows "shape_ok sh state normal eager roof avail (AList.update i (dict_get nb i 0 + n) nb, eb, rr - n, rd - n)"
proof -
  have nb: "map fst nb = normal" "distinct (map fst nb)" using ok by (auto simp: shape_ok_def)
  have key: "i \<in> fst ` set nb" using i nb(1) by (metis set_map)
  have v: "min (sh_min_gamma sh) (request_cap sh (state i)) \<le> dict_get nb i 0" "dict_get nb i 0 \<le> request_cap sh (state i)"
    using dict_get_in [OF key, of 0] ok by (auto simp: shape_ok_def)
  let ?P = "\<lambda>i v. min (sh_min_gamma sh) (request_cap sh (state i)) \<le> v \<and> v \<le> request_cap sh (state i)"
  have "\<forall>(j, x)\<in>set (AList.update i (dict_get nb i 0 + n) nb). ?P j x"
    by (rule update_all) (use ok v n in \<open>auto simp: shape_ok_def\<close>)
  then show ?thesis using ok n unfolding shape_ok_def prod.case update_in_keys [OF key] dict_sum_update [OF nb(2)] by simp
qed

lemma grant_eager:
  assumes ok: "shape_ok sh state normal eager roof avail (nb, eb, rr, rd)" and i: "i \<in> set eager"
    and n: "1 \<le> n" "n \<le> rr" "n \<le> rd" "dict_get eb i 0 + n \<le> request_cap sh (state i)"
  shows "shape_ok sh state normal eager roof avail (nb, AList.update i (dict_get eb i 0 + n) eb, rr - n, rd - n)"
proof -
  have eb: "distinct (map fst eb)" "set (map fst eb) \<subseteq> set eager" using ok by (auto simp: shape_ok_def)
  have "0 \<le> dict_get eb i 0"
  proof (cases "i \<in> fst ` set eb")
    case True
    then show ?thesis using dict_get_in [OF True, of 0] ok by (auto simp: shape_ok_def)
  qed (simp add: dict_get_def map_of_eq_None_iff [symmetric])
  then have "\<forall>(j, x)\<in>set (AList.update i (dict_get eb i 0 + n) eb). 1 \<le> x \<and> x \<le> request_cap sh (state j)"
    by (intro update_all) (use ok n in \<open>auto simp: shape_ok_def\<close>)
  moreover have "set (map fst (AList.update i (dict_get eb i 0 + n) eb)) \<subseteq> set eager" using i eb(2) by (simp add: dict_update_keys)
  moreover have "distinct (map fst (AList.update i (dict_get eb i 0 + n) eb))" using eb(1) by (rule distinct_update)
  ultimately show ?thesis using ok n unfolding shape_ok_def prod.case dict_sum_update [OF eb(1)] by simp
qed

abbreviation (input) gap_skipped :: "'f flt \<Rightarrow> 'f SpecRhythmBudgetShaper \<Rightarrow> (int \<Rightarrow> 'f SpecRhythmRuntimeState) \<Rightarrow> (int \<times> int) list \<Rightarrow> int \<Rightarrow> bool" where
  "gap_skipped fo sh state gaps i \<equiv>
     dict_get gaps i 0 \<le> 0 \<or> f_lt fo (expected_acceptance_benefit fo (state i)) (sh_acceptance_floor sh)"

lemma close_gaps_normal:
  assumes "\<not> gap_skipped fo sh state gaps i" "dict_in i nb"
    and "g = min (min (max 0 (min (request_cap sh (state i)) (dict_get gaps i 0) - dict_get nb i 0)) rr) rd"
    and "st = (AList.update i (dict_get nb i 0 + g) nb, eb, rr - g, rd - g)"
  shows "close_gaps fo sh state gaps (i # is) (nb, eb, rr, rd) = (if rd - g \<le> 0 then st else close_gaps fo sh state gaps is st)"
  using assms(1,2) unfolding assms(3,4) by (simp add: Let_def)

lemma close_gaps_eager:
  assumes "\<not> gap_skipped fo sh state gaps i" "\<not> dict_in i nb"
    and "g = min (min (min (request_cap sh (state i)) (max (sh_min_gamma sh) (dict_get gaps i 0))) rr) rd"
    and "st = (nb, if g > 0 then AList.update i g eb else eb, if g > 0 then rr - g else rr, rd - g)"
  shows "close_gaps fo sh state gaps (i # is) (nb, eb, rr, rd) = (if rd - g \<le> 0 then st else close_gaps fo sh state gaps is st)"
  using assms(1,2) unfolding assms(3,4) by (simp add: Let_def)

lemma close_gaps_ok:
  assumes "shape_ok sh state normal eager roof avail st" and "distinct is" "set is \<subseteq> set (normal @ eager)"
    and "set is \<inter> fst ` set (fst (snd st)) = {}" and caps: "\<And>i. i \<in> set (normal @ eager) \<Longrightarrow> 1 \<le> request_cap sh (state i)"
    and min_gamma: "1 \<le> sh_min_gamma sh"
  shows "shape_ok sh state normal eager roof avail (close_gaps fo sh state gaps is st)"
  using assms(1-4)
proof (induction "is" arbitrary: st)
  case (Cons i "is")
  obtain nb eb rr rd where st: "st = (nb, eb, rr, rd)" by (metis prod_cases4)
  have ok: "shape_ok sh state normal eager roof avail (nb, eb, rr, rd)" using Cons.prems(1) st by simp
  note O = ok [unfolded shape_ok_def prod.case]
  have keys: "set normal = fst ` set nb" using O by (metis set_map)
  have nonneg: "0 \<le> rr" "0 \<le> rd" using O by blast+
  have fresh: "i \<notin> fst ` set eb" "i \<notin> set is" "set is \<inter> fst ` set eb = {}" using Cons.prems(2,4) by (auto simp: st)
  have go: "shape_ok sh state normal eager roof avail (if b then s else close_gaps fo sh state gaps is s)"
    if "shape_ok sh state normal eager roof avail s" "set is \<inter> fst ` set (fst (snd s)) = {}" for s b
    using Cons.IH [OF that(1) _ _ that(2)] that(1) Cons.prems(2,3) by (cases b) simp_all
  consider "gap_skipped fo sh state gaps i" | "\<not> gap_skipped fo sh state gaps i" "dict_in i nb"
    | "\<not> gap_skipped fo sh state gaps i" "\<not> dict_in i nb" by blast
  then show ?case
  proof cases
    case 1
    then show ?thesis using go [OF Cons.prems(1), of False] fresh(3) by (simp add: st)
  next
    case 2
    define g where "g = min (min (max 0 (min (request_cap sh (state i)) (dict_get gaps i 0) - dict_get nb i 0)) rr) rd"
    have "i \<in> set normal" using 2(2) by (simp add: dict_in_keys keys)
    then have "shape_ok sh state normal eager roof avail (AList.update i (dict_get nb i 0 + g) nb, eb, rr - g, rd - g)"
      by (rule grant_normal [OF ok]) (use nonneg in \<open>auto simp: g_def\<close>)
    then show ?thesis unfolding st close_gaps_normal [where state = state, OF 2 g_def refl] by (rule go) (use fresh in simp)
  next
    case 3
    define g where "g = min (min (min (request_cap sh (state i)) (max (sh_min_gamma sh) (dict_get gaps i 0))) rr) rd"
    have i: "i \<in> set eager" using 3(2) Cons.prems(3) by (simp add: dict_in_keys keys)
    have "1 \<le> request_cap sh (state i)" using caps i by simp
    then have g0: "0 \<le> g" using nonneg min_gamma by (simp add: g_def)
    have e0: "dict_get eb i 0 = 0" using fresh(1) by (simp add: dict_get_def map_of_eq_None_iff [symmetric])
    let ?st = "(nb, if g > 0 then AList.update i g eb else eb, if g > 0 then rr - g else rr, rd - g)"
    have "shape_ok sh state normal eager roof avail ?st"
    proof (cases "g > 0")
      case True
      have "g \<le> rr" "g \<le> rd" "g \<le> request_cap sh (state i)" by (simp_all add: g_def)
      then show ?thesis using grant_eager [OF ok i, of g] True unfolding e0 by simp
    next
      case False
      then show ?thesis using ok g0 by simp
    qed
    moreover have "set is \<inter> fst ` set (fst (snd ?st)) = {}" using fresh by (auto simp: dict_update_keys)
    ultimately show ?thesis unfolding st close_gaps_eager [where state = state, OF 3 g_def refl] by (rule go)
  qed
qed simp

section \<open>The second stage\<close>

text \<open>Who can still get a token.\<close>

definition can_grow ::
  "'f flt \<Rightarrow> 'f SpecRhythmBudgetShaper \<Rightarrow> (int \<Rightarrow> 'f SpecRhythmRuntimeState) \<Rightarrow> int list \<Rightarrow> int list \<Rightarrow> shape_state \<Rightarrow> int \<Rightarrow> string \<Rightarrow> bool" where
  "can_grow fo sh state normal eager st i kind =
     (case st of (nb, eb, rr, rd) \<Rightarrow>
        0 < rr \<and> (kind = ''normal'' \<and> i \<in> set normal \<and> dict_get nb i 0 < request_cap sh (state i) \<or>
                  kind = ''eager'' \<and> i \<in> set eager \<and> dict_get eb i 0 < request_cap sh (state i) \<and>
                    \<not> f_lt fo (expected_acceptance_benefit fo (state i)) (sh_acceptance_floor sh)))"

lemma draft_candidates_iff:
  "(\<exists>m. (m, j, kind) \<in> set (draft_candidates fo sh state wait normal eager st)) \<longleftrightarrow> can_grow fo sh state normal eager st (- j) kind"
proof -
  obtain nb eb rr rd where st: "st = (nb, eb, rr, rd)" by (metis prod_cases4)
  show ?thesis by (force simp: st draft_candidates_def can_grow_def Let_def split: if_splits)
qed

lemma spend_residual_step:
  assumes ok: "shape_ok sh state normal eager roof avail (nb, eb, rr, rd)" and rd: "0 < rd"
    and g: "can_grow fo sh state normal eager (nb, eb, rr, rd) i kind"
  shows "shape_ok sh state normal eager roof avail
    (if kind = ''normal'' then (AList.update i (dict_get nb i 0 + 1) nb, eb, rr - 1, rd - 1)
     else (nb, AList.update i (dict_get eb i 0 + 1) eb, rr - 1, rd - 1))"
proof (cases "kind = ''normal''")
  case True
  then show ?thesis using grant_normal [OF ok, of i 1] g rd by (simp add: can_grow_def)
next
  case False
  then show ?thesis using grant_eager [OF ok, of i 1] g rd by (auto simp: can_grow_def)
qed

lemma spend_residual_ok:
  assumes "shape_ok sh state normal eager roof avail st"
  shows "\<exists>st'. spend_residual fo sh state wait normal eager st = Some st' \<and> shape_ok sh state normal eager roof avail st' \<and>
    (snd (snd (snd st')) = 0 \<or> (\<nexists>i kind. can_grow fo sh state normal eager st' i kind))"
  using assms
proof (induction "nat (snd (snd (snd st)))" arbitrary: st rule: less_induct)
  case less
  obtain nb eb rr rd where st: "st = (nb, eb, rr, rd)" by (metis prod_cases4)
  have rd: "0 \<le> rd" using less.prems by (simp add: st shape_ok_def)
  show ?case
  proof (cases "0 < rd")
    case False
    then show ?thesis using less.prems rd by (subst spend_residual.simps) (simp add: st)
  next
    case True
    let ?cs = "draft_candidates fo sh state wait normal eager (nb, eb, rr, rd)"
    show ?thesis
    proof (cases ?cs)
      case Nil
      have "\<not> can_grow fo sh state normal eager (nb, eb, rr, rd) i kind" for i kind
        using draft_candidates_iff [of "- i" kind fo sh state wait normal eager "(nb, eb, rr, rd)"] Nil by simp
      then show ?thesis using less.prems Nil by (subst spend_residual.simps) (simp add: st)
    next
      case (Cons c cs)
      obtain m j kind where best: "py_max (candidate_less fo) c cs = (m, j, kind)" by (metis prod_cases3)
      have "(m, j, kind) \<in> set ?cs" unfolding Cons best [symmetric] by (rule py_max_in)
      then have g: "can_grow fo sh state normal eager (nb, eb, rr, rd) (- j) kind" using draft_candidates_iff by metis
      let ?st = "if kind = ''normal'' then (AList.update (- j) (dict_get nb (- j) 0 + 1) nb, eb, rr - 1, rd - 1)
        else (nb, AList.update (- j) (dict_get eb (- j) 0 + 1) eb, rr - 1, rd - 1)"
      have ok': "shape_ok sh state normal eager roof avail ?st" using spend_residual_step [OF less.prems [unfolded st] True g] .
      have "nat (snd (snd (snd ?st))) < nat (snd (snd (snd st)))" using True by (simp add: st)
      moreover have "spend_residual fo sh state wait normal eager st = spend_residual fo sh state wait normal eager ?st"
        using True by (subst spend_residual.simps) (simp add: st Cons best Let_def)
      ultimately show ?thesis using less.hyps [OF _ ok'] by simp
    qed
  qed
qed

section \<open>A call of the shaper\<close>

text \<open>The roofline and the draft window of a call.\<close>

definition call_roof :: "'f SpecRhythmBudgetShaper \<Rightarrow> int list \<Rightarrow> int list \<Rightarrow> int \<Rightarrow> int option \<Rightarrow> int" where
  "call_roof sh normal eager context_len batch_size =
     verification_roof sh (case batch_size of None \<Rightarrow> max (int (length (fromkeys normal @ fromkeys eager))) 1 | Some b \<Rightarrow> b) context_len"

definition call_draft :: "int \<Rightarrow> int option \<Rightarrow> int" where
  "call_draft roof draft_token_budget = (case draft_token_budget of None \<Rightarrow> 2 * roof | Some b \<Rightarrow> max 0 b)"

definition call_minimum :: "'f SpecRhythmBudgetShaper \<Rightarrow> (int \<Rightarrow> 'f SpecRhythmRuntimeState option) \<Rightarrow> int list \<Rightarrow> int" where
  "call_minimum sh states normal = (\<Sum>i\<leftarrow>fromkeys normal. min (sh_min_gamma sh) (request_cap sh (the (states i))))"

lemma collect_gaps_total: "(\<And>i. i \<in> set is \<Longrightarrow> \<exists>g. gap i = Inr g) \<Longrightarrow> \<exists>gs. collect_gaps gap is = Inr gs"
proof (induction "is")
  case (Cons i "is")
  then obtain g gs where "gap i = Inr g" "collect_gaps gap is = Inr gs" by (metis list.set_intros)
  then show ?case by simp
qed simp

lemma budget_plan_accepts:
  assumes ok: "shape_ok sh state normal eager roof avail (nb, eb, rr, rd)" and pos: "\<And>i. i \<in> set (normal @ eager) \<Longrightarrow> 1 \<le> request_cap sh (state i)"
    and mg: "1 \<le> sh_min_gamma sh"
  shows "budget_plan_post_init \<lparr>bp_plan_id = k, bp_normal_budgets = nb, bp_eager_budgets = eb, bp_progress_gaps = gaps,
      bp_eager_priorities = prio, bp_verification_roof = roof, bp_draft_token_budget = avail,
      bp_allocated_draft_tokens = dict_sum nb + dict_sum eb\<rparr> = Inr \<lparr>bp_plan_id = k, bp_normal_budgets = nb, bp_eager_budgets = eb,
      bp_progress_gaps = gaps, bp_eager_priorities = prio, bp_verification_roof = roof, bp_draft_token_budget = avail,
      bp_allocated_draft_tokens = dict_sum nb + dict_sum eb\<rparr>"
proof -
  note O = ok [unfolded shape_ok_def prod.case]
  have keys: "set normal = fst ` set nb" using O by (metis set_map)
  have nbpos: "\<forall>v\<in>snd ` set nb. 1 \<le> v"
  proof
    fix v assume "v \<in> snd ` set nb"
    then obtain i where i: "(i, v) \<in> set nb" by force
    then have "1 \<le> request_cap sh (state i)" using pos keys by force
    then show "1 \<le> v" using i O mg by force
  qed
  have ebpos: "\<forall>v\<in>snd ` set eb. 1 \<le> v" using O by force
  have s: "0 \<le> dict_sum nb" "0 \<le> dict_sum eb" unfolding dict_sum_def using nbpos ebpos by (force intro!: sum_list_nonneg)+
  have "\<not> list_ex (\<lambda>k. dict_in k eb) (map fst nb)"
    using O by (auto simp: list_ex_iff dict_in_keys)
  moreover have "\<not> list_ex (\<lambda>v. v \<le> 0) (map snd nb @ map snd eb)" using nbpos ebpos by (force simp: list_ex_iff)
  ultimately show ?thesis using O s by (simp add: budget_plan_post_init_def Let_def)
qed

text \<open>What the plan of a successful call is.\<close>

lemma shape_outcome:
  assumes sh: "shaper_ok sh" and reg: "\<And>i. i \<in> set normal \<union> set eager \<Longrightarrow> \<exists>s. states i = Some s \<and> state_ok s"
    and dis: "set normal \<inter> set eager = {}" and gaps: "\<And>i. i \<in> set normal \<union> set eager \<Longrightarrow> \<exists>g. projected_progress_gap fo (the (states i)) wait = Inr g"
    and roof: "roof = call_roof sh normal eager ctx bs" and avail: "avail = call_draft roof budget"
    and fits: "call_minimum sh states normal \<le> roof" "call_minimum sh states normal \<le> avail"
  shows "\<exists>gs prio nb eb rr rd. shape fo sh k normal eager states wait ctx budget bs = Some (Inr \<lparr>bp_plan_id = k, bp_normal_budgets = nb,
      bp_eager_budgets = eb, bp_progress_gaps = gs, bp_eager_priorities = prio, bp_verification_roof = roof, bp_draft_token_budget = avail,
      bp_allocated_draft_tokens = dict_sum nb + dict_sum eb\<rparr>) \<and>
    shape_ok sh (\<lambda>i. the (states i)) (fromkeys normal) (fromkeys eager) roof avail (nb, eb, rr, rd) \<and>
    (rd = 0 \<or> (\<nexists>i kind. can_grow fo sh (\<lambda>i. the (states i)) (fromkeys normal) (fromkeys eager) (nb, eb, rr, rd) i kind))"
proof -
  let ?state = "\<lambda>i. the (states i)" and ?n = "fromkeys normal" and ?e = "fromkeys eager"
  let ?nb = "map (\<lambda>i. (i, min (sh_min_gamma sh) (request_cap sh (?state i)))) ?n"
  have caps: "1 \<le> request_cap sh (?state i)" if "i \<in> set (?n @ ?e)" for i using cap_pos [OF sh] reg [of i] that by auto
  have mg: "1 \<le> sh_min_gamma sh" using sh by (simp add: shaper_ok_def)
  obtain gs where gs: "collect_gaps (\<lambda>i. projected_progress_gap fo (?state i) wait) (?n @ ?e) = Inr gs"
    using collect_gaps_total [of "?n @ ?e" "\<lambda>i. projected_progress_gap fo (?state i) wait"] gaps by auto
  have min: "dict_sum ?nb = call_minimum sh states normal" by (simp add: dict_sum_def call_minimum_def comp_def)
  let ?st = "(?nb, [], roof - dict_sum ?nb, avail - dict_sum ?nb)"
  have ok: "shape_ok sh ?state ?n ?e roof avail ?st"
    using dis fits by (auto simp: shape_ok_def comp_def min dict_sum_def [of "[]"])
  let ?u = "sorted_desc (urgent_less fo ?state gs wait) (?n @ ?e)"
  have ok1: "shape_ok sh ?state ?n ?e roof avail (close_gaps fo sh ?state gs ?u ?st)"
    by (rule close_gaps_ok [OF ok]) (use dis caps mg in auto)
  obtain st' where st': "spend_residual fo sh ?state wait ?n ?e (close_gaps fo sh ?state gs ?u ?st) = Some st'"
    "shape_ok sh ?state ?n ?e roof avail st'" "snd (snd (snd st')) = 0 \<or> (\<nexists>i kind. can_grow fo sh ?state ?n ?e st' i kind)"
    using spend_residual_ok [OF ok1] by blast
  obtain nb eb rr rd where tup: "st' = (nb, eb, rr, rd)" by (metis prod_cases4)
  note sp = st'(1) [unfolded tup] and ok2 = st'(2) [unfolded tup] and left = st'(3) [unfolded tup snd_conv]
  have g1: "\<not> list_ex (\<lambda>i. i \<in> set ?e) ?n" "\<not> list_ex (\<lambda>i. states i = None) (?n @ ?e)"
    using dis reg by (auto simp: list_ex_iff)
  have g2: "\<not> (dict_sum ?nb > roof \<or> dict_sum ?nb > avail)" using fits by (simp add: min)
  have "shape fo sh k normal eager states wait ctx budget bs = Some (Inr \<lparr>bp_plan_id = k, bp_normal_budgets = nb,
      bp_eager_budgets = eb, bp_progress_gaps = gs, bp_eager_priorities = map (\<lambda>i. (i, f_mul fo (f_of_int fo (dict_get gs i 0))
        (expected_acceptance_benefit fo (?state i)))) ?e, bp_verification_roof = roof, bp_draft_token_budget = avail,
      bp_allocated_draft_tokens = dict_sum nb + dict_sum eb\<rparr>)"
    unfolding shape_def Let_def call_roof_def [symmetric] roof [symmetric] call_draft_def [symmetric] avail [symmetric]
    using g1 g2 gs sp budget_plan_accepts [OF ok2 caps mg] by simp
  then show ?thesis using ok2 left by blast
qed

end
