(* ===== verification/RhythmTickets.thy ===== *)
theory RhythmTickets
  imports RhythmShape
begin

text \<open>
  The tickets of the controller. A proposal that is ready was drafted on the prefix its request has now,
  and an eager continuation is staged only behind a ready proposal. Every call keeps this, and moves
  a ticket only forward in its life.
\<close>

definition ready_ok :: "'f SpecRhythmPipelineController \<Rightarrow> int \<Rightarrow> int \<Rightarrow> bool" where
  "ready_ok c i p \<longleftrightarrow>
     (\<exists>t s. pc_tickets c p = Some t \<and> tk_request_index t = i \<and> tk_lifecycle t = AVAILABLE \<and>
        pc_request_states c i = Some s \<and> tk_required_prefix_epoch t = rs_prefix_epoch s)"

definition staged_ok :: "'f SpecRhythmPipelineController \<Rightarrow> int \<Rightarrow> int \<Rightarrow> bool" where
  "staged_ok c i p \<longleftrightarrow> (\<exists>t. pc_tickets c p = Some t \<and> tk_request_index t = i \<and> tk_lifecycle t = STAGED_EAGER)"

definition pipeline_ok :: "'f SpecRhythmPipelineController \<Rightarrow> bool" where
  "pipeline_ok c \<longleftrightarrow>
     (\<forall>i s. pc_request_states c i = Some s \<longrightarrow> state_ok s) \<and> pc_next_target_home_batch_id c \<in> {0, 1} \<and> 0 \<le> pc_next_proposal_id c \<and>
     (\<forall>i p. map_of (pc_ready c) i = Some p \<longrightarrow> ready_ok c i p) \<and>
     (\<forall>i p. map_of (pc_staged_eager c) i = Some p \<longrightarrow> staged_ok c i p) \<and>
     (\<forall>i. dict_in i (pc_staged_eager c) \<longrightarrow> dict_in i (pc_ready c)) \<and>
     (\<forall>p. pc_tickets c p \<noteq> None \<longrightarrow> p < pc_next_proposal_id c)"

lemma pipeline_okD:
  assumes "pipeline_ok c"
  shows "pc_request_states c i = Some s \<Longrightarrow> state_ok s" "pc_next_target_home_batch_id c \<in> {0, 1}" "0 \<le> pc_next_proposal_id c"
    "map_of (pc_ready c) i = Some p \<Longrightarrow> ready_ok c i p" "map_of (pc_staged_eager c) i = Some p \<Longrightarrow> staged_ok c i p"
    "dict_in i (pc_staged_eager c) \<Longrightarrow> dict_in i (pc_ready c)" "pc_tickets c p \<noteq> None \<Longrightarrow> p < pc_next_proposal_id c"
  using assms unfolding pipeline_ok_def by blast+

lemma pipeline_okI:
  assumes "\<And>i s. pc_request_states c i = Some s \<Longrightarrow> state_ok s" "pc_next_target_home_batch_id c \<in> {0, 1}" "0 \<le> pc_next_proposal_id c"
    "\<And>i p. map_of (pc_ready c) i = Some p \<Longrightarrow> ready_ok c i p" "\<And>i p. map_of (pc_staged_eager c) i = Some p \<Longrightarrow> staged_ok c i p"
    "\<And>i. dict_in i (pc_staged_eager c) \<Longrightarrow> dict_in i (pc_ready c)" "\<And>p. pc_tickets c p \<noteq> None \<Longrightarrow> p < pc_next_proposal_id c"
  shows "pipeline_ok c"
  using assms unfolding pipeline_ok_def by blast

lemma ready_ok_cong: "pc_tickets c' p = pc_tickets c p \<Longrightarrow> pc_request_states c' i = pc_request_states c i \<Longrightarrow> ready_ok c' i p = ready_ok c i p"
  by (simp add: ready_ok_def)

lemma staged_ok_cong: "pc_tickets c' p = pc_tickets c p \<Longrightarrow> staged_ok c' i p = staged_ok c i p"
  by (simp add: staged_ok_def)

text \<open>The tickets in the two dictionaries belong to one request each and are different.\<close>

lemma ticket_of:
  assumes "pipeline_ok c"
  shows "map_of (pc_ready c) i = Some p \<Longrightarrow> \<exists>t. pc_tickets c p = Some t \<and> tk_request_index t = i \<and> tk_lifecycle t = AVAILABLE"
    "map_of (pc_staged_eager c) i = Some p \<Longrightarrow> \<exists>t. pc_tickets c p = Some t \<and> tk_request_index t = i \<and> tk_lifecycle t = STAGED_EAGER"
  using pipeline_okD(4,5) [OF assms, of i p] by (auto simp: ready_ok_def staged_ok_def)

lemma tickets_apart:
  assumes "pipeline_ok c"
  shows "map_of (pc_ready c) i = Some p \<Longrightarrow> map_of (pc_ready c) j = Some q \<Longrightarrow> i \<noteq> j \<Longrightarrow> p \<noteq> q"
    "map_of (pc_staged_eager c) i = Some p \<Longrightarrow> map_of (pc_staged_eager c) j = Some q \<Longrightarrow> i \<noteq> j \<Longrightarrow> p \<noteq> q"
    "map_of (pc_ready c) i = Some p \<Longrightarrow> map_of (pc_staged_eager c) j = Some q \<Longrightarrow> p \<noteq> q"
proof -
  show "p \<noteq> q" if h: "map_of (pc_ready c) i = Some p" "map_of (pc_ready c) j = Some q" "i \<noteq> j"
    using ticket_of(1) [OF assms h(1)] ticket_of(1) [OF assms h(2)] h(3) by auto
  show "p \<noteq> q" if h: "map_of (pc_staged_eager c) i = Some p" "map_of (pc_staged_eager c) j = Some q" "i \<noteq> j"
    using ticket_of(2) [OF assms h(1)] ticket_of(2) [OF assms h(2)] h(3) by auto
  show "p \<noteq> q" if h: "map_of (pc_ready c) i = Some p" "map_of (pc_staged_eager c) j = Some q"
    using ticket_of(1) [OF assms h(1)] ticket_of(2) [OF assms h(2)] by auto
qed

lemma controller_init_ok: "pipeline_ok controller_init"
  by (simp add: pipeline_ok_def controller_init_def)

section \<open>The life of a ticket\<close>

inductive lifecycle_step :: "ProposalLifecycle \<Rightarrow> ProposalLifecycle \<Rightarrow> bool" where
  promote: "lifecycle_step STAGED_EAGER AVAILABLE"
| consume: "lifecycle_step AVAILABLE CONSUMED"
| drop_ready: "lifecycle_step AVAILABLE INVALIDATED"
| drop_staged: "lifecycle_step STAGED_EAGER INVALIDATED"

inductive_simps lifecycle_step_simps: "lifecycle_step a b"

text \<open>What a call does to the tickets that exist: nothing but steps of their lives.\<close>

definition tickets_advance :: "'f SpecRhythmPipelineController \<Rightarrow> 'f SpecRhythmPipelineController \<Rightarrow> bool" where
  "tickets_advance c c' \<longleftrightarrow>
     (\<forall>p t. pc_tickets c p = Some t \<longrightarrow>
        (\<exists>l. pc_tickets c' p = Some (t\<lparr>tk_lifecycle := l\<rparr>) \<and> lifecycle_step\<^sup>*\<^sup>* (tk_lifecycle t) l))"

lemma tickets_advance_refl [simp]: "pc_tickets c' = pc_tickets c \<Longrightarrow> tickets_advance c c'"
  by (auto simp: tickets_advance_def intro!: exI [of _ "tk_lifecycle t" for t])

lemma tickets_advance_cong: "pc_tickets c' = pc_tickets d' \<Longrightarrow> tickets_advance c c' = tickets_advance c d'"
  by (simp add: tickets_advance_def)

lemma tickets_advance_trans [trans]:
  assumes "tickets_advance a b" "tickets_advance b c"
  shows "tickets_advance a c"
  unfolding tickets_advance_def
proof (intro allI impI)
  fix p t assume "pc_tickets a p = Some t"
  then obtain l where l: "pc_tickets b p = Some (t\<lparr>tk_lifecycle := l\<rparr>)" "lifecycle_step\<^sup>*\<^sup>* (tk_lifecycle t) l"
    using assms(1) unfolding tickets_advance_def by blast
  then obtain l' where "pc_tickets c p = Some (t\<lparr>tk_lifecycle := l\<rparr>\<lparr>tk_lifecycle := l'\<rparr>)" "lifecycle_step\<^sup>*\<^sup>* l l'"
    using assms(2) unfolding tickets_advance_def by fastforce
  then show "\<exists>l. pc_tickets c p = Some (t\<lparr>tk_lifecycle := l\<rparr>) \<and> lifecycle_step\<^sup>*\<^sup>* (tk_lifecycle t) l"
    using l(2) by (intro exI [of _ l']) (auto intro: rtranclp_trans)
qed

lemma set_lifecycle_simps [simp]:
  "pc_request_states (set_lifecycle p l c) = pc_request_states c" "pc_ready (set_lifecycle p l c) = pc_ready c"
  "pc_staged_eager (set_lifecycle p l c) = pc_staged_eager c" "pc_next_proposal_id (set_lifecycle p l c) = pc_next_proposal_id c"
  "pc_next_target_home_batch_id (set_lifecycle p l c) = pc_next_target_home_batch_id c" "pc_plan_id (set_lifecycle p l c) = pc_plan_id c"
  "pc_tickets (set_lifecycle p l c) q = (if q = p then map_option (\<lambda>t. t\<lparr>tk_lifecycle := l\<rparr>) (pc_tickets c p) else pc_tickets c q)"
  by (simp_all add: set_lifecycle_def)

text \<open>Moving one ticket.\<close>

lemma set_lifecycle_advance:
  assumes "pc_tickets c p = Some t" "lifecycle_step (tk_lifecycle t) l"
  shows "tickets_advance c (set_lifecycle p l c)"
  unfolding tickets_advance_def
proof (intro allI impI)
  fix q u assume q: "pc_tickets c q = Some u"
  show "\<exists>l'. pc_tickets (set_lifecycle p l c) q = Some (u\<lparr>tk_lifecycle := l'\<rparr>) \<and> lifecycle_step\<^sup>*\<^sup>* (tk_lifecycle u) l'"
  proof (cases "q = p")
    case True
    then show ?thesis using assms q by (intro exI [of _ l]) (auto intro: r_into_rtranclp)
  next
    case False
    then show ?thesis using q by (intro exI [of _ "tk_lifecycle u"]) simp
  qed
qed

section \<open>Invalidation\<close>

lemma map_of_delete [simp]: "map_of (AList.delete k d) = (map_of d)(k := None)"
  by (simp add: delete_conv')

lemma map_of_update_dict [simp]: "map_of (AList.update k v d) = (map_of d)(k \<mapsto> v)"
  by (simp add: update_conv')

lemma dict_in_simps [simp]:
  "dict_in i (AList.delete k d) \<longleftrightarrow> i \<noteq> k \<and> dict_in i d" "dict_in i (AList.update k v d) \<longleftrightarrow> i = k \<or> dict_in i d"
  by (auto simp: dict_in_def)

definition same_requests :: "'f SpecRhythmPipelineController \<Rightarrow> 'f SpecRhythmPipelineController \<Rightarrow> bool" where
  "same_requests c c' \<longleftrightarrow> pc_request_states c' = pc_request_states c \<and> pc_next_proposal_id c' = pc_next_proposal_id c \<and>
     pc_next_target_home_batch_id c' = pc_next_target_home_batch_id c \<and> pc_plan_id c' = pc_plan_id c"

lemma invalidate_request_effect:
  shows "map_of (pc_ready (invalidate_request i c)) = (map_of (pc_ready c))(i := None)"
    "map_of (pc_staged_eager (invalidate_request i c)) = (map_of (pc_staged_eager c))(i := None)"
    "same_requests c (invalidate_request i c)"
    "pc_tickets (invalidate_request i c) p =
       (if map_of (pc_ready c) i = Some p \<or> map_of (pc_staged_eager c) i = Some p
        then map_option (\<lambda>t. t\<lparr>tk_lifecycle := INVALIDATED\<rparr>) (pc_tickets c p) else pc_tickets c p)"
  by (auto simp: invalidate_request_def Let_def same_requests_def fun_eq_iff option.map_comp comp_def split: option.splits)

lemma invalidate_request_ok:
  assumes ok: "pipeline_ok c"
  shows "pipeline_ok (invalidate_request i c)" "tickets_advance c (invalidate_request i c)"
proof -
  let ?c = "invalidate_request i c"
  note E = invalidate_request_effect [where i = i and c = c]
  note S = E(3) [unfolded same_requests_def]
  have kept: "pc_tickets ?c p = pc_tickets c p" if "j \<noteq> i" "map_of (pc_ready c) j = Some p \<or> map_of (pc_staged_eager c) j = Some p" for j p
    using that tickets_apart [OF ok, of i p j p] tickets_apart(3) [OF ok, of j p i p] by (auto simp: E(4))
  show "pipeline_ok ?c"
  proof (rule pipeline_okI)
    show "ready_ok ?c j p" if "map_of (pc_ready ?c) j = Some p" for j p
      using that kept [of j p] pipeline_okD(4) [OF ok, of j p] ready_ok_cong [of ?c p c j] S by (auto simp: E(1) split: if_splits)
    show "staged_ok ?c j p" if "map_of (pc_staged_eager ?c) j = Some p" for j p
      using that kept [of j p] pipeline_okD(5) [OF ok, of j p] staged_ok_cong [of ?c p c j] by (auto simp: E(2) split: if_splits)
    show "dict_in j (pc_ready ?c)" if "dict_in j (pc_staged_eager ?c)" for j
      using that pipeline_okD(6) [OF ok, of j] by (auto simp: E(1,2) dict_in_def split: if_splits)
    show "p < pc_next_proposal_id ?c" if "pc_tickets ?c p \<noteq> None" for p
      using that pipeline_okD(7) [OF ok, of p] S by (auto simp: E(4) split: if_splits)
  qed (use S pipeline_okD(1-3) [OF ok] in auto)
  show "tickets_advance c ?c"
    unfolding tickets_advance_def
  proof (intro allI impI)
    fix p t assume t: "pc_tickets c p = Some t"
    show "\<exists>l. pc_tickets ?c p = Some (t\<lparr>tk_lifecycle := l\<rparr>) \<and> lifecycle_step\<^sup>*\<^sup>* (tk_lifecycle t) l"
    proof (cases "map_of (pc_ready c) i = Some p \<or> map_of (pc_staged_eager c) i = Some p")
      case True
      then have "lifecycle_step (tk_lifecycle t) INVALIDATED" using t ticket_of [OF ok, of i p] by (auto simp: lifecycle_step_simps)
      then show ?thesis using t True by (intro exI [of _ INVALIDATED]) (auto simp: E(4))
    next
      case False
      then show ?thesis using t by (intro exI [of _ "tk_lifecycle t"]) (auto simp: E(4))
    qed
  qed
qed

lemma fold_invalidate:
  assumes "pipeline_ok c"
  shows "pipeline_ok (fold invalidate_request is c) \<and> tickets_advance c (fold invalidate_request is c) \<and>
    same_requests c (fold invalidate_request is c) \<and>
    map_of (pc_ready (fold invalidate_request is c)) = (map_of (pc_ready c)) |` (- set is) \<and>
    map_of (pc_staged_eager (fold invalidate_request is c)) = (map_of (pc_staged_eager c)) |` (- set is)"
  using assms
proof (induction "is" arbitrary: c)
  case (Cons i "is")
  note E = invalidate_request_effect [where i = i and c = c] and ok = invalidate_request_ok [OF Cons.prems, of i]
  note ih = Cons.IH [OF ok(1)]
  have r: "(m(i := None)) |` (- set is) = m |` (- set (i # is))" for m :: "int \<Rightarrow> int option" by (auto simp: restrict_map_def fun_eq_iff)
  have "tickets_advance c (fold invalidate_request (i # is) c)" using tickets_advance_trans [OF ok(2)] ih by simp
  moreover have "same_requests c (fold invalidate_request (i # is) c)" using E(3) ih by (simp add: same_requests_def)
  ultimately show ?case using ih unfolding E(1,2) r by simp
qed (simp add: same_requests_def restrict_map_def)

lemma discard_inactive_ok:
  assumes "pipeline_ok c"
  shows "pipeline_ok (discard_inactive_payloads active c)" "tickets_advance c (discard_inactive_payloads active c)"
    "same_requests c (discard_inactive_payloads active c)"
    "map_of (pc_ready (discard_inactive_payloads active c)) = map_of (pc_ready c) |` set active"
    "map_of (pc_staged_eager (discard_inactive_payloads active c)) = map_of (pc_staged_eager c) |` set active"
proof -
  let ?is = "filter (\<lambda>i. i \<notin> set active) (remdups (map fst (pc_ready c) @ map fst (pc_staged_eager c)))"
  note F = fold_invalidate [OF assms, of ?is, folded discard_inactive_payloads_def]
  have none: "i \<notin> fst ` set d \<Longrightarrow> map_of d i = None" for i and d :: "(int \<times> int) list" by (simp add: map_of_eq_None_iff)
  have "m |` (- set ?is) = m |` set active" if "m = map_of (pc_ready c) \<or> m = map_of (pc_staged_eager c)" for m
    using that none by (auto simp: restrict_map_def fun_eq_iff)
  then show "map_of (pc_ready (discard_inactive_payloads active c)) = map_of (pc_ready c) |` set active"
    "map_of (pc_staged_eager (discard_inactive_payloads active c)) = map_of (pc_staged_eager c) |` set active"
    using F by simp_all
  show "pipeline_ok (discard_inactive_payloads active c)" "tickets_advance c (discard_inactive_payloads active c)"
    "same_requests c (discard_inactive_payloads active c)" using F by simp_all
qed

section \<open>Plans\<close>

lemma plan_id_ok: "pipeline_ok (c\<lparr>pc_plan_id := k\<rparr>) = pipeline_ok c"
  by (simp add: pipeline_ok_def ready_ok_def staged_ok_def)

lemma build_plan_ok:
  assumes ok: "pipeline_ok c" and run: "build_plan active c = (r, c')"
  shows "pipeline_ok c'" "tickets_advance c c'" "pc_request_states c' = pc_request_states c"
    "pc_next_target_home_batch_id c' = pc_next_target_home_batch_id c"
proof -
  have "c' = c \<or> c' = (discard_inactive_payloads (fromkeys active) c)\<lparr>pc_plan_id := pc_plan_id (discard_inactive_payloads (fromkeys active) c) + 1\<rparr>"
    using run by (auto simp: build_plan_def Let_def split: if_splits)
  then show "pipeline_ok c'" "tickets_advance c c'" "pc_request_states c' = pc_request_states c"
      "pc_next_target_home_batch_id c' = pc_next_target_home_batch_id c"
    using ok discard_inactive_ok(1-3) [OF ok, of "fromkeys active"]
      tickets_advance_cong [of c' "discard_inactive_payloads (fromkeys active) c" c] by (auto simp: plan_id_ok same_requests_def)
qed

section \<open>Tickets and verdicts\<close>

lemma new_ticket_ok:
  assumes ok: "pipeline_ok c" and run: "new_ticket i gamma eager c = (r, c')"
  shows "pipeline_ok c' \<and> tickets_advance c c' \<and> pc_ready c' = pc_ready c \<and> pc_staged_eager c' = pc_staged_eager c \<and>
    pc_request_states c' = pc_request_states c"
proof (cases "c' = c")
  case True
  then show ?thesis using ok by simp
next
  case False
  then obtain t where c': "c' = c\<lparr>pc_tickets := (pc_tickets c)(pc_next_proposal_id c \<mapsto> t), pc_next_proposal_id := pc_next_proposal_id c + 1\<rparr>"
    using run by (auto simp: new_ticket_def split: option.splits sum.splits)
  have none: "pc_tickets c (pc_next_proposal_id c) = None" using pipeline_okD(7) [OF ok] by fastforce
  then have kept: "pc_tickets c' p = pc_tickets c p" if "pc_tickets c p \<noteq> None" for p using that by (auto simp: c')
  have "ready_ok c' j p" if "map_of (pc_ready c) j = Some p" for j p
    using pipeline_okD(4) [OF ok that] ready_ok_cong [of c' p c j] kept [of p] by (auto simp: ready_ok_def c')
  moreover have "staged_ok c' j p" if "map_of (pc_staged_eager c) j = Some p" for j p
    using pipeline_okD(5) [OF ok that] staged_ok_cong [of c' p c j] kept [of p] by (auto simp: staged_ok_def c')
  moreover have "p < pc_next_proposal_id c + 1" if "pc_tickets c' p \<noteq> None" for p
    using that pipeline_okD(7) [OF ok, of p] by (auto simp: c' split: if_splits)
  ultimately have "pipeline_ok c'" using pipeline_okD(1-3,6) [OF ok] by (intro pipeline_okI) (auto simp: c')
  moreover have "tickets_advance c c'"
    unfolding tickets_advance_def
  proof (intro allI impI)
    fix p u assume "pc_tickets c p = Some u"
    then show "\<exists>l. pc_tickets c' p = Some (u\<lparr>tk_lifecycle := l\<rparr>) \<and> lifecycle_step\<^sup>*\<^sup>* (tk_lifecycle u) l"
      using kept [of p] by (intro exI [of _ "tk_lifecycle u"]) simp
  qed
  ultimately show ?thesis by (simp add: c')
qed

text \<open>A client publishes a new ticket once, an eager one while the proposal it continues is ready.\<close>

definition may_publish :: "'f SpecRhythmPipelineController \<Rightarrow> int \<Rightarrow> bool" where
  "may_publish c p \<longleftrightarrow>
     (case pc_tickets c p of None \<Rightarrow> False
      | Some t \<Rightarrow> tk_lifecycle t = (if tk_eager t then STAGED_EAGER else AVAILABLE) \<and>
          (tk_eager t \<longrightarrow> dict_in (tk_request_index t) (pc_ready c)))"

lemma publish_one_cases:
  assumes t: "pc_tickets c p = Some t" and run: "publish_one p c = (r, c')"
  obtains "c' = c" "\<exists>e. r = Inl e"
    | "tk_eager t" "r = Inr ()" "\<not> dict_in (tk_request_index t) (pc_staged_eager c)"
      "c' = c\<lparr>pc_staged_eager := AList.update (tk_request_index t) p (pc_staged_eager c)\<rparr>"
    | s where "\<not> tk_eager t" "r = Inr ()" "\<not> dict_in (tk_request_index t) (pc_ready c)"
      "pc_request_states c (tk_request_index t) = Some s" "tk_required_prefix_epoch t = rs_prefix_epoch s"
      "c' = c\<lparr>pc_ready := AList.update (tk_request_index t) p (pc_ready c)\<rparr>"
proof (cases "tk_eager t")
  case True
  then show thesis using that(1,2) run t by (cases "dict_in (tk_request_index t) (pc_staged_eager c)") (auto simp: publish_one_def Let_def)
next
  case False
  show thesis
  proof (cases "dict_in (tk_request_index t) (pc_ready c)")
    case True
    then show thesis using that(1) run t False by (auto simp: publish_one_def Let_def)
  next
    case nr: False
    show thesis
    proof (cases "pc_request_states c (tk_request_index t)")
      case None
      then show thesis using that(1) run t False nr by (auto simp: publish_one_def Let_def)
    next
      case (Some s)
      then show thesis using that(1,3) run t False nr
        by (cases "tk_required_prefix_epoch t = rs_prefix_epoch s") (auto simp: publish_one_def Let_def)
    qed
  qed
qed

lemma pipeline_ok_stage:
  assumes ok: "pipeline_ok c" and new: "staged_ok c i p" "dict_in i (pc_ready c)"
  shows "pipeline_ok (c\<lparr>pc_staged_eager := AList.update i p (pc_staged_eager c)\<rparr>)"
proof (rule pipeline_okI)
  fix j q assume "map_of (pc_staged_eager (c\<lparr>pc_staged_eager := AList.update i p (pc_staged_eager c)\<rparr>)) j = Some q"
  then show "staged_ok (c\<lparr>pc_staged_eager := AList.update i p (pc_staged_eager c)\<rparr>) j q"
    using new(1) pipeline_okD(5) [OF ok, of j q] by (simp add: staged_ok_def split: if_splits)
qed (use new(2) pipeline_okD [OF ok] in \<open>auto simp: ready_ok_def\<close>)

lemma pipeline_ok_ready:
  assumes ok: "pipeline_ok c" and new: "ready_ok c i p"
  shows "pipeline_ok (c\<lparr>pc_ready := AList.update i p (pc_ready c)\<rparr>)"
proof (rule pipeline_okI)
  fix j q assume "map_of (pc_ready (c\<lparr>pc_ready := AList.update i p (pc_ready c)\<rparr>)) j = Some q"
  then show "ready_ok (c\<lparr>pc_ready := AList.update i p (pc_ready c)\<rparr>) j q"
    using new pipeline_okD(4) [OF ok, of j q] by (simp add: ready_ok_def split: if_splits)
qed (use pipeline_okD [OF ok] in \<open>auto simp: staged_ok_def\<close>)

lemma publish_one_ok:
  assumes ok: "pipeline_ok c" and may: "may_publish c p" and run: "publish_one p c = (r, c')"
  shows "pipeline_ok c' \<and> pc_tickets c' = pc_tickets c \<and> pc_request_states c' = pc_request_states c"
proof -
  obtain t where t: "pc_tickets c p = Some t" "tk_lifecycle t = (if tk_eager t then STAGED_EAGER else AVAILABLE)"
    "tk_eager t \<longrightarrow> dict_in (tk_request_index t) (pc_ready c)" using may by (auto simp: may_publish_def split: option.splits)
  from t(1) run show ?thesis
  proof (cases rule: publish_one_cases)
    case 1
    then show ?thesis using ok by simp
  next
    case 2
    have "staged_ok c (tk_request_index t) p" using t 2(1) by (simp add: staged_ok_def)
    then show ?thesis using pipeline_ok_stage [OF ok] t(3) 2 by simp
  next
    case (3 s)
    have "ready_ok c (tk_request_index t) p" using t 3 by (simp add: ready_ok_def)
    then show ?thesis using pipeline_ok_ready [OF ok] 3 by simp
  qed
qed

text \<open>The effect of a verdict: the proposal is consumed, its continuation promoted or dropped, the prefix moves on.\<close>

definition verdict_effect ::
  "bool \<Rightarrow> int \<Rightarrow> int \<Rightarrow> 'f SpecRhythmRuntimeState \<Rightarrow> 'f SpecRhythmRuntimeState \<Rightarrow> 'f SpecRhythmPipelineController \<Rightarrow> 'f SpecRhythmPipelineController \<Rightarrow> bool" where
  "verdict_effect promoted i current s s' c c' \<longleftrightarrow>
     pc_request_states c i = Some s \<and> rs_prefix_epoch s' = rs_prefix_epoch s + 1 \<and> rs_home_batch_id s' = rs_home_batch_id s \<and>
     pc_request_states c' = (pc_request_states c)(i \<mapsto> s') \<and>
     map_of (pc_ready c') = (map_of (pc_ready c))(i := if promoted then map_of (pc_staged_eager c) i else None) \<and>
     map_of (pc_staged_eager c') = (map_of (pc_staged_eager c))(i := None) \<and>
     (\<forall>p. pc_tickets c' p =
        (if p = current then map_option (\<lambda>t. t\<lparr>tk_lifecycle := CONSUMED\<rparr>) (pc_tickets c p)
         else if map_of (pc_staged_eager c) i = Some p
         then map_option (\<lambda>t. t\<lparr>tk_lifecycle := if promoted then AVAILABLE else INVALIDATED\<rparr>) (pc_tickets c p)
         else pc_tickets c p)) \<and>
     pc_next_proposal_id c' = pc_next_proposal_id c \<and> pc_next_target_home_batch_id c' = 1 - rs_home_batch_id s \<and>
     (promoted \<longrightarrow> (\<exists>e t. map_of (pc_staged_eager c) i = Some e \<and> pc_tickets c e = Some t \<and> tk_required_prefix_epoch t = rs_prefix_epoch s'))"

lemma record_verification_fields [simp]:
  "rs_prefix_epoch (record_verification fo a b d cf al s) = rs_prefix_epoch s + 1"
  "rs_home_batch_id (record_verification fo a b d cf al s) = rs_home_batch_id s"
  "rs_request_index (record_verification fo a b d cf al s) = rs_request_index s"
  "rs_max_gamma (record_verification fo a b d cf al s) = rs_max_gamma s"
  "rs_delivered_tokens (record_verification fo a b d cf al s) = rs_delivered_tokens s + max 0 d"
  by (simp_all add: record_verification_def Let_def split: option.split)

lemma record_verification_ok: "state_ok s \<Longrightarrow> state_ok (record_verification fo a b d cf al s)"
  by (simp add: state_ok_def)

lemma finish_missing: "map_of (pc_ready c) i = None \<Longrightarrow> finish_verification fo i fa a b d cf al c = (Inl (RuntimeError ''missing proposal''), c)"
  by (simp add: finish_verification_def)

lemma finish_effect:
  assumes ok: "pipeline_ok c" and cur: "map_of (pc_ready c) i = Some current"
  shows "\<exists>s c' promoted. finish_verification fo i fa a b d cf al c = (Inr (if promoted then map_of (pc_staged_eager c) i else None), c') \<and>
    verdict_effect promoted i current s (record_verification fo a b d cf al s) c c' \<and> (promoted \<longrightarrow> fa)"
proof -
  obtain t s where t: "pc_tickets c current = Some t" "pc_request_states c i = Some s" "tk_required_prefix_epoch t = rs_prefix_epoch s"
    using pipeline_okD(4) [OF ok cur] by (auto simp: ready_ok_def)
  let ?s = "record_verification fo a b d cf al s"
  show ?thesis
  proof (cases "map_of (pc_staged_eager c) i")
    case None
    then show ?thesis using cur t
      by (intro exI [of _ s] exI [of _ "snd (finish_verification fo i fa a b d cf al c)"] exI [of _ False])
        (auto simp: finish_verification_def Let_def verdict_effect_def fun_eq_iff)
  next
    case (Some e)
    then obtain u where u: "pc_tickets c e = Some u" using ticket_of(2) [OF ok] by blast
    have ne: "current \<noteq> e" using tickets_apart(3) [OF ok cur Some] .
    let ?p = "fa \<and> tk_required_prefix_epoch u = rs_prefix_epoch ?s"
    show ?thesis using cur t Some u ne
      by (intro exI [of _ s] exI [of _ "snd (finish_verification fo i fa a b d cf al c)"] exI [of _ ?p])
        (cases ?p; simp add: finish_verification_def Let_def verdict_effect_def fun_eq_iff)
  qed
qed

lemma verdict_ok:
  assumes ok: "pipeline_ok c" and cur: "map_of (pc_ready c) i = Some current" and eff: "verdict_effect promoted i current s s' c c'" and s': "state_ok s'"
  shows "pipeline_ok c'" "tickets_advance c c'"
proof -
  note E = eff [unfolded verdict_effect_def]
  note T = E [THEN conjunct2, THEN conjunct2, THEN conjunct2, THEN conjunct2, THEN conjunct2, THEN conjunct2, THEN conjunct1, rule_format]
  have st: "state_ok s" using pipeline_okD(1) [OF ok] E by blast
  have kept: "pc_tickets c' p = pc_tickets c p" if "j \<noteq> i" "map_of (pc_ready c) j = Some p \<or> map_of (pc_staged_eager c) j = Some p" for j p
  proof -
    have "p \<noteq> current" using that tickets_apart(1) [OF ok _ cur, of j p] tickets_apart(3) [OF ok cur, of j p] by auto
    moreover have "map_of (pc_staged_eager c) i \<noteq> Some p"
      using that tickets_apart(2) [OF ok, of j p i p] tickets_apart(3) [OF ok, of j p i p] by auto
    ultimately show ?thesis by (simp add: T)
  qed
  show "pipeline_ok c'"
  proof (rule pipeline_okI)
    show "state_ok x" if "pc_request_states c' j = Some x" for j x
      using that E s' pipeline_okD(1) [OF ok, of j x] by (auto split: if_splits)
    show "pc_next_target_home_batch_id c' \<in> {0, 1}" using E st by (auto simp: state_ok_def)
    show "0 \<le> pc_next_proposal_id c'" using E pipeline_okD(3) [OF ok] by simp
    show "ready_ok c' j p" if r: "map_of (pc_ready c') j = Some p" for j p
    proof (cases "j = i")
      case True
      then have pr: promoted "map_of (pc_staged_eager c) i = Some p" using r E by (auto split: if_splits)
      obtain u where u: "pc_tickets c p = Some u" "tk_request_index u = i" using ticket_of(2) [OF ok pr(2)] by blast
      have "p \<noteq> current" using tickets_apart(3) [OF ok cur pr(2)] by simp
      then have "pc_tickets c' p = Some (u\<lparr>tk_lifecycle := AVAILABLE\<rparr>)" using u pr by (simp add: T)
      moreover have "tk_required_prefix_epoch u = rs_prefix_epoch s'" "pc_request_states c' i = Some s'" using E pr u(1) by auto
      ultimately show ?thesis using u(2) True by (simp add: ready_ok_def)
    next
      case False
      then have "map_of (pc_ready c) j = Some p" "pc_request_states c' j = pc_request_states c j" using r E by (auto split: if_splits)
      then show ?thesis using pipeline_okD(4) [OF ok] ready_ok_cong kept False by metis
    qed
    show "staged_ok c' j p" if "map_of (pc_staged_eager c') j = Some p" for j p
    proof -
      have j: "j \<noteq> i" "map_of (pc_staged_eager c) j = Some p" using that E by (auto split: if_splits)
      then show ?thesis using pipeline_okD(5) [OF ok j(2)] staged_ok_cong [of c' p c j] kept by blast
    qed
    show "dict_in j (pc_ready c')" if "dict_in j (pc_staged_eager c')" for j
      using that E pipeline_okD(6) [OF ok, of j] by (auto simp: dict_in_def split: if_splits)
    show "p < pc_next_proposal_id c'" if "pc_tickets c' p \<noteq> None" for p
      using that E pipeline_okD(7) [OF ok, of p] by (auto simp: T split: if_splits)
  qed
  show "tickets_advance c c'"
    unfolding tickets_advance_def
  proof (intro allI impI)
    fix p t assume t: "pc_tickets c p = Some t"
    consider "p = current" | "p \<noteq> current" "map_of (pc_staged_eager c) i = Some p" | "p \<noteq> current" "map_of (pc_staged_eager c) i \<noteq> Some p" by blast
    then show "\<exists>l. pc_tickets c' p = Some (t\<lparr>tk_lifecycle := l\<rparr>) \<and> lifecycle_step\<^sup>*\<^sup>* (tk_lifecycle t) l"
    proof cases
      case 1
      then have "lifecycle_step (tk_lifecycle t) CONSUMED" using t ticket_of(1) [OF ok cur] by (auto simp: lifecycle_step_simps)
      then show ?thesis using t 1 by (intro exI [of _ CONSUMED]) (simp add: T)
    next
      case 2
      then have "lifecycle_step (tk_lifecycle t) (if promoted then AVAILABLE else INVALIDATED)"
        using t ticket_of(2) [OF ok 2(2)] by (auto simp: lifecycle_step_simps)
      then show ?thesis using t 2 by (intro exI [of _ "if promoted then AVAILABLE else INVALIDATED"]) (auto simp: T)
    next
      case 3
      then show ?thesis using t by (intro exI [of _ "tk_lifecycle t"]) (simp add: T)
    qed
  qed
qed

end
