(* ===== verification/RhythmRuns.thy ===== *)
theory RhythmRuns
  imports RhythmTickets
begin

text \<open>
  Runs of the scheduler: its own calls in any order, tickets drawn and published by the worker, verdicts and
  elapsed time. What is true of a scheduler along such runs.
\<close>

section \<open>The scheduler's state\<close>

definition sched_ok :: "'f SpecRhythmScheduler \<Rightarrow> bool" where
  "sched_ok sd \<longleftrightarrow> pipeline_ok (sd_controller sd) \<and> shaper_ok (sd_shaper sd) \<and> distinct (sd_active sd) \<and>
     set (sd_active sd) \<subseteq> dom (pc_request_states (sd_controller sd)) \<and> int (length (sd_active sd)) \<le> sd_max_num_seqs sd"

inductive sched_step :: "'f flt \<Rightarrow> 'f SpecRhythmScheduler \<Rightarrow> 'f SpecRhythmScheduler \<Rightarrow> bool" for fo where
  admit: "admit fo i home slo cls mg sd = (r, sd') \<Longrightarrow> sched_step fo sd sd'"
| preempt: "preempt i sd = (r, sd') \<Longrightarrow> sched_step fo sd sd'"
| reactivate: "reactivate i sd = (r, sd') \<Longrightarrow> sched_step fo sd sd'"
| remove: "remove_request i sd = (r, sd') \<Longrightarrow> sched_step fo sd sd'"
| schedule: "schedule fo wait ctx budget bs sd = Some (r, sd') \<Longrightarrow> sched_step fo sd sd'"
| ticket: "new_ticket i gamma eager (sd_controller sd) = (r, c) \<Longrightarrow> sched_step fo sd (sd\<lparr>sd_controller := c\<rparr>)"
| publish: "may_publish (sd_controller sd) p \<Longrightarrow> publish_one p (sd_controller sd) = (r, c) \<Longrightarrow> sched_step fo sd (sd\<lparr>sd_controller := c\<rparr>)"
| verdict: "finish_verification fo i fa prp acc del conf alpha (sd_controller sd) = (r, c) \<Longrightarrow> sched_step fo sd (sd\<lparr>sd_controller := c\<rparr>)"
| elapsed: "pc_request_states (sd_controller sd) i = Some s \<Longrightarrow>
    sched_step fo sd (sd\<lparr>sd_controller := (sd_controller sd)\<lparr>pc_request_states := (pc_request_states (sd_controller sd))(i \<mapsto> add_decode_time fo ms s)\<rparr>\<rparr>)"

section \<open>Every call keeps the state and moves tickets forward\<close>

text \<open>A new request has no ticket, a changed one keeps its prefix.\<close>

lemma request_update_ok:
  assumes ok: "pipeline_ok c" and s: "state_ok s" and epoch: "\<And>s0. pc_request_states c i = Some s0 \<Longrightarrow> rs_prefix_epoch s = rs_prefix_epoch s0"
  shows "pipeline_ok (c\<lparr>pc_request_states := (pc_request_states c)(i \<mapsto> s)\<rparr>)"
proof (rule pipeline_okI)
  let ?c = "c\<lparr>pc_request_states := (pc_request_states c)(i \<mapsto> s)\<rparr>"
  show "ready_ok ?c j p" if "map_of (pc_ready ?c) j = Some p" for j p
  proof -
    have "ready_ok c j p" using that pipeline_okD(4) [OF ok, of j p] by simp
    then show ?thesis using epoch by (auto simp: ready_ok_def)
  qed
  show "state_ok x" if "pc_request_states ?c j = Some x" for j x
    using that s pipeline_okD(1) [OF ok, of j x] by (auto split: if_splits)
qed (use pipeline_okD [OF ok] in \<open>auto simp: staged_ok_def\<close>)

lemma request_forget_ok:
  assumes ok: "pipeline_ok c" and free: "map_of (pc_ready c) i = None"
  shows "pipeline_ok (c\<lparr>pc_request_states := (pc_request_states c)(i := None)\<rparr>)"
proof (rule pipeline_okI)
  let ?c = "c\<lparr>pc_request_states := (pc_request_states c)(i := None)\<rparr>"
  show "ready_ok ?c j p" if "map_of (pc_ready ?c) j = Some p" for j p
  proof -
    have "ready_ok c j p" "j \<noteq> i" using that free pipeline_okD(4) [OF ok, of j p] by auto
    then show ?thesis by (auto simp: ready_ok_def)
  qed
  show "state_ok x" if "pc_request_states ?c j = Some x" for j x
    using that pipeline_okD(1) [OF ok, of j x] by (auto split: if_splits)
qed (use pipeline_okD [OF ok] in \<open>auto simp: staged_ok_def\<close>)

lemma runtime_state_init_ok:
  assumes "runtime_state_post_init fo s = Inr s'" "0 \<le> rs_prefix_epoch s"
  shows "state_ok s'"
  using assms by (auto simp: runtime_state_post_init_def state_ok_def split: if_splits option.splits)

lemma admit_step:
  assumes ok: "sched_ok sd" and run: "admit fo i home slo cls mg sd = (r, sd')"
  shows "sched_ok sd' \<and> tickets_advance (sd_controller sd) (sd_controller sd')"
proof (cases "sd' = sd")
  case True
  then show ?thesis using ok by simp
next
  case False
  let ?c = "sd_controller sd"
  have new: "pc_request_states ?c i = None" and room: "int (length (sd_active sd)) < sd_max_num_seqs sd"
    using run False by (auto simp: admit_def Let_def split: if_splits)
  define h where "h = (case home of Some h \<Rightarrow> h | None \<Rightarrow>
    if length (filter (\<lambda>i. rs_home_batch_id (the (pc_request_states ?c i)) = 0) (sd_active sd)) \<le>
       length (filter (\<lambda>i. rs_home_batch_id (the (pc_request_states ?c i)) = 1) (sd_active sd)) then 0 else 1)"
  let ?sd = "\<lambda>s. sd\<lparr>sd_controller := ?c\<lparr>pc_request_states := (pc_request_states ?c)(i \<mapsto> s)\<rparr>, sd_active := sd_active sd @ [i]\<rparr>"
  have run': "(case runtime_state_post_init fo (fresh_state fo i h slo cls mg) of Inl e \<Rightarrow> (Inl e, sd) | Inr s \<Rightarrow> (Inr s, ?sd s)) = (r, sd')"
    using run new room unfolding admit_def Let_def h_def by simp
  obtain s where s: "runtime_state_post_init fo (fresh_state fo i h slo cls mg) = Inr s" and sd': "sd' = ?sd s"
    using run' False by (cases "runtime_state_post_init fo (fresh_state fo i h slo cls mg)") auto
  have "pipeline_ok (sd_controller sd')"
    using request_update_ok [of ?c s i] ok runtime_state_init_ok [OF s] new by (simp add: sd' sched_ok_def fresh_state_def)
  moreover have "i \<notin> set (sd_active sd)" using ok new by (auto simp: sched_ok_def)
  ultimately show ?thesis using ok room by (auto simp: sched_ok_def sd')
qed

lemma preempt_step:
  assumes ok: "sched_ok sd" and run: "preempt i sd = (r, sd')"
  shows "sched_ok sd' \<and> tickets_advance (sd_controller sd) (sd_controller sd')"
proof -
  have c: "pipeline_ok (sd_controller sd)" using ok by (simp add: sched_ok_def)
  have st: "pc_request_states (invalidate_request i (sd_controller sd)) = pc_request_states (sd_controller sd)"
    using invalidate_request_effect(3) by (auto simp: same_requests_def)
  have "length (filter (\<lambda>j. j \<noteq> i) (sd_active sd)) \<le> length (sd_active sd)" by (rule length_filter_le)
  then have "int (length (filter (\<lambda>j. j \<noteq> i) (sd_active sd))) \<le> sd_max_num_seqs sd" using ok unfolding sched_ok_def by linarith
  then show ?thesis using run ok invalidate_request_ok [OF c, of i] st
    by (auto simp: preempt_def sched_ok_def split: if_splits)
qed

lemma remove_step:
  assumes ok: "sched_ok sd" and run: "remove_request i sd = (r, sd')"
  shows "sched_ok sd' \<and> tickets_advance (sd_controller sd) (sd_controller sd')"
proof -
  obtain r1 sd1 where p: "preempt i sd = (r1, sd1)" by fastforce
  note step = preempt_step [OF ok p]
  show ?thesis
  proof (cases r1)
    case (Inl e)
    then show ?thesis using step run p by (simp add: remove_request_def)
  next
    case (Inr u)
    have sd1: "sd_controller sd1 = invalidate_request i (sd_controller sd)" "sd_active sd1 = filter (\<lambda>j. j \<noteq> i) (sd_active sd)"
      using p Inr by (auto simp: preempt_def split: if_splits)
    let ?c = "(sd_controller sd1)\<lparr>pc_request_states := (pc_request_states (sd_controller sd1))(i := None)\<rparr>"
    have "map_of (pc_ready (sd_controller sd1)) i = None" unfolding sd1 invalidate_request_effect(1) by simp
    then have "pipeline_ok ?c" using request_forget_ok step by (auto simp: sched_ok_def)
    moreover have "set (sd_active sd1) \<subseteq> dom (pc_request_states ?c)" using step sd1(2) by (auto simp: sched_ok_def)
    moreover have "tickets_advance (sd_controller sd) ?c"
      using step tickets_advance_cong [of ?c "sd_controller sd1" "sd_controller sd"] by simp
    ultimately show ?thesis using step run p Inr by (auto simp: remove_request_def sched_ok_def)
  qed
qed

lemma schedule_step:
  assumes ok: "sched_ok sd" and run: "schedule fo wait ctx budget bs sd = Some (r, sd')"
  shows "sched_ok sd' \<and> tickets_advance (sd_controller sd) (sd_controller sd')"
proof -
  obtain r1 c where b: "build_plan (sd_active sd) (sd_controller sd) = (r1, c)" by fastforce
  have sd': "sd' = sd\<lparr>sd_controller := c\<rparr>" using run b by (cases r1) (auto simp: schedule_def)
  show ?thesis using ok build_plan_ok [OF _ b] by (auto simp: sd' sched_ok_def)
qed

lemma sched_step_ok:
  assumes step: "sched_step fo sd sd'" and ok: "sched_ok sd"
  shows "sched_ok sd' \<and> tickets_advance (sd_controller sd) (sd_controller sd')"
  using step
proof cases
  case (reactivate i r)
  then show ?thesis using ok by (auto simp: reactivate_def sched_ok_def split: if_splits)
next
  case (ticket i gamma eager r c)
  then show ?thesis using ok new_ticket_ok [OF _ ticket(2)] by (auto simp: sched_ok_def)
next
  case (publish p r c)
  then show ?thesis using ok publish_one_ok [OF _ publish(2,3)] by (auto simp: sched_ok_def)
next
  case (verdict i fa prp acc del conf alpha r c)
  let ?c = "sd_controller sd"
  have okc: "pipeline_ok ?c" using ok by (simp add: sched_ok_def)
  show ?thesis
  proof (cases "map_of (pc_ready ?c) i")
    case None
    then have c: "c = sd_controller sd" using verdict(2) finish_missing by (metis prod.inject)
    show ?thesis using ok unfolding verdict(1) c by (simp add: sched_ok_def)
  next
    case (Some cur)
    obtain s c2 promoted r2 where "finish_verification fo i fa prp acc del conf alpha ?c = (r2, c2)"
      and e2: "verdict_effect promoted i cur s (record_verification fo prp acc del conf alpha s) ?c c2"
      using finish_effect [OF okc Some, of fo fa prp acc del conf alpha] by blast
    then have e: "verdict_effect promoted i cur s (record_verification fo prp acc del conf alpha s) ?c c" using verdict(2) by simp
    have st: "pc_request_states ?c i = Some s" "pc_request_states c = (pc_request_states ?c)(i \<mapsto> record_verification fo prp acc del conf alpha s)"
      using e unfolding verdict_effect_def by blast+
    have s: "state_ok (record_verification fo prp acc del conf alpha s)"
      by (rule record_verification_ok [OF pipeline_okD(1) [OF okc st(1)]])
    have "set (sd_active sd) \<subseteq> dom (pc_request_states c)" using ok by (auto simp: sched_ok_def st(2))
    then show ?thesis using ok verdict_ok [OF okc Some e s] unfolding verdict(1) sched_ok_def by simp
  qed
next
  case (elapsed i s ms)
  let ?c = "sd_controller sd" and ?s = "add_decode_time fo ms s"
  have okc: "pipeline_ok ?c" using ok by (simp add: sched_ok_def)
  have "state_ok s" by (rule pipeline_okD(1) [OF okc elapsed(2)])
  then have s: "state_ok ?s" by (simp add: state_ok_def add_decode_time_def)
  have "rs_prefix_epoch ?s = rs_prefix_epoch s" by (simp add: add_decode_time_def)
  then have "pipeline_ok (?c\<lparr>pc_request_states := (pc_request_states ?c)(i \<mapsto> ?s)\<rparr>)"
    by (intro request_update_ok [OF okc s]) (simp add: elapsed(2))
  moreover have "set (sd_active sd) \<subseteq> dom ((pc_request_states ?c)(i \<mapsto> ?s))" using ok by (auto simp: sched_ok_def)
  ultimately show ?thesis using ok unfolding elapsed(1) sched_ok_def by simp
qed (rule admit_step [OF ok] preempt_step [OF ok] remove_step [OF ok] schedule_step [OF ok], assumption)+

section \<open>Runs\<close>

definition sched_run :: "'f flt \<Rightarrow> 'f SpecRhythmScheduler \<Rightarrow> 'f SpecRhythmScheduler \<Rightarrow> bool" where
  "sched_run fo = (sched_step fo)\<^sup>*\<^sup>*"

lemma sched_run_ok:
  assumes "sched_run fo sd sd'" "sched_ok sd"
  shows "sched_ok sd' \<and> tickets_advance (sd_controller sd) (sd_controller sd')"
  using assms(1) unfolding sched_run_def
proof (induction rule: rtranclp_induct)
  case base
  then show ?case using assms(2) by simp
next
  case (step y z)
  then show ?case using sched_step_ok [OF step.hyps(2)] tickets_advance_trans by blast
qed

lemma scheduler_init_ok: "scheduler_init sh n = Inr sd \<Longrightarrow> shaper_ok sh \<Longrightarrow> sched_ok sd"
  using controller_init_ok by (auto simp: scheduler_init_def sched_ok_def split: if_splits)

end
