(* ===== verification/RhythmRounds.thy ===== *)
theory RhythmRounds
  imports RhythmRuns
begin

text \<open>
  Plans and rounds: what a plan contains, that there is always work while requests are active, and that a round of
  the engine, which plans, drafts, publishes and verifies in this order, raises no exception.
\<close>

section \<open>Plans\<close>

definition home_of :: "'f SpecRhythmPipelineController \<Rightarrow> int \<Rightarrow> int" where
  "home_of c i = rs_home_batch_id (the (pc_request_states c i))"

text \<open>A plan over the ready and staged requests \<open>R\<close> and \<open>S\<close> of the active ones.\<close>

definition plan_for ::
  "int list \<Rightarrow> (int \<Rightarrow> int) \<Rightarrow> int \<Rightarrow> int set \<Rightarrow> int set \<Rightarrow> SpecRhythmExecutionPlan \<Rightarrow> int \<Rightarrow> bool" where
  "plan_for active home next_home R S plan draft_home \<longleftrightarrow>
     ep_target_request_indices plan =
       (case ep_target_home_batch_id plan of None \<Rightarrow> [] | Some h \<Rightarrow> filter (\<lambda>i. home i = h \<and> i \<in> R) active) \<and>
     ep_normal_draft_request_indices plan = filter (\<lambda>i. home i = draft_home \<and> i \<notin> R \<and> i \<notin> S) active \<and>
     ep_eager_candidate_indices plan = filter (\<lambda>i. i \<notin> S) (ep_target_request_indices plan) \<and>
     (case ep_target_home_batch_id plan of
        None \<Rightarrow> set active \<inter> R = {} \<and> (draft_home = next_home \<or> draft_home = 1 - next_home) \<and>
          ((\<exists>i\<in>set active. home i = draft_home) \<or> (\<forall>i\<in>set active. home i \<noteq> next_home) \<and> draft_home = 1 - next_home)
      | Some h \<Rightarrow> draft_home = 1 - h \<and> h \<in> home ` (set active \<inter> R) \<and> (next_home \<in> home ` (set active \<inter> R) \<longrightarrow> h = next_home)) \<and>
     (ep_target_request_indices plan \<noteq> [] \<longrightarrow> ep_phase plan = STEADY) \<and>
     (ep_target_request_indices plan = [] \<and> ep_normal_draft_request_indices plan \<noteq> [] \<longrightarrow> ep_phase plan = WARMUP)"

lemma build_plan_for:
  assumes ok: "pipeline_ok c" and reg: "set active \<subseteq> dom (pc_request_states c)"
  shows "\<exists>plan c' draft_home. build_plan active c = (Inr plan, c') \<and> pipeline_ok c' \<and> tickets_advance c c' \<and>
    pc_request_states c' = pc_request_states c \<and>
    map_of (pc_ready c') = map_of (pc_ready c) |` set active \<and> map_of (pc_staged_eager c') = map_of (pc_staged_eager c) |` set active \<and>
    plan_for (fromkeys active) (home_of c) (pc_next_target_home_batch_id c) (dom (map_of (pc_ready c')))
      (dom (map_of (pc_staged_eager c'))) plan draft_home"
proof -
  define a where "a = fromkeys active"
  define c1 where "c1 = discard_inactive_payloads a c"
  note D = discard_inactive_ok [OF ok, of a, folded c1_def]
  have same: "pc_request_states c1 = pc_request_states c" "pc_next_target_home_batch_id c1 = pc_next_target_home_batch_id c"
    using D(3) by (auto simp: same_requests_def)
  define home where "home = home_of c"
  define rh where "rh = map home (filter (\<lambda>i. dict_in i (pc_ready c1)) a)"
  let ?n = "pc_next_target_home_batch_id c"
  define th where "th = (if ?n \<in> set rh then Some ?n else if rh \<noteq> [] then Some (Min (set rh)) else None)"
  define dh0 where "dh0 = (case th of Some h \<Rightarrow> 1 - h | None \<Rightarrow> ?n)"
  define dh where "dh = (if th = None \<and> \<not> list_ex (\<lambda>i. home i = dh0) a then 1 - dh0 else dh0)"
  define tg where "tg = (case th of None \<Rightarrow> [] | Some h \<Rightarrow> filter (\<lambda>i. home i = h \<and> dict_in i (pc_ready c1)) a)"
  define nm where "nm = filter (\<lambda>i. home i = dh \<and> \<not> dict_in i (pc_ready c1) \<and> \<not> dict_in i (pc_staged_eager c1)) a"
  define eg where "eg = filter (\<lambda>i. \<not> dict_in i (pc_staged_eager c1)) tg"
  define plan where "plan = \<lparr>ep_plan_id = pc_plan_id c1,
    ep_phase = (if tg \<noteq> [] then STEADY else if nm \<noteq> [] then WARMUP else if pc_ready c1 \<noteq> [] then DRAIN else COMPLETE),
    ep_target_home_batch_id = th, ep_draft_home_batch_id = (if nm \<noteq> [] \<or> eg \<noteq> [] then Some dh else None),
    ep_target_request_indices = tg, ep_normal_draft_request_indices = nm, ep_eager_candidate_indices = eg\<rparr>"
  let ?c = "c1\<lparr>pc_plan_id := pc_plan_id c1 + 1\<rparr>"
  have "\<not> list_ex (\<lambda>i. pc_request_states c i = None) a" using reg by (auto simp: list_ex_iff a_def)
  then have run: "build_plan active c = (Inr plan, ?c)"
    unfolding build_plan_def Let_def a_def [symmetric] c1_def [symmetric] same home_of_def [of c, symmetric] home_def [symmetric]
      rh_def [symmetric] th_def [symmetric] dh0_def [symmetric] dh_def [symmetric] tg_def [symmetric] nm_def [symmetric] eg_def [symmetric]
    by (simp add: plan_def)
  have R: "dict_in i (pc_ready c1) \<longleftrightarrow> i \<in> dom (map_of (pc_ready ?c))" "dict_in i (pc_staged_eager c1) \<longleftrightarrow> i \<in> dom (map_of (pc_staged_eager ?c))" for i
    by (auto simp: dict_in_def)
  have rh: "set rh = home ` (set a \<inter> dom (map_of (pc_ready ?c)))" unfolding rh_def using R(1) by auto
  have th: "case th of None \<Rightarrow> set a \<inter> dom (map_of (pc_ready ?c)) = {} \<and> dh0 = ?n
      | Some h \<Rightarrow> dh = 1 - h \<and> h \<in> set rh \<and> (?n \<in> set rh \<longrightarrow> h = ?n)"
  proof (cases "rh = []")
    case True
    then show ?thesis using rh by (simp add: th_def dh0_def)
  next
    case False
    then have "Min (set rh) \<in> set rh" by simp
    then show ?thesis using False by (simp add: th_def dh_def dh0_def)
  qed
  have "plan_for a home ?n (dom (map_of (pc_ready ?c))) (dom (map_of (pc_staged_eager ?c))) plan dh"
    using th R rh unfolding plan_for_def
    by (auto simp: plan_def tg_def nm_def eg_def dh_def list_ex_iff split: option.splits if_splits)
  then show ?thesis using run D same by (auto simp: plan_id_ok a_def home_def tickets_advance_cong [of ?c c1 c])
qed

lemma plan_progress:
  assumes plan: "plan_for active (home_of c) n R S plan dh" and ne: "active \<noteq> []" and n: "n \<in> {0, 1}"
    and homes: "\<And>i. i \<in> set active \<Longrightarrow> home_of c i \<in> {0, 1}" and S: "S \<subseteq> R"
  shows "ep_target_request_indices plan \<noteq> [] \<or> ep_normal_draft_request_indices plan \<noteq> []"
proof (cases "ep_target_home_batch_id plan")
  case (Some h)
  then obtain i where "i \<in> set active" "i \<in> R" "home_of c i = h" using plan by (auto simp: plan_for_def)
  then have "i \<in> set (ep_target_request_indices plan)" using plan Some by (simp add: plan_for_def)
  then show ?thesis by force
next
  case None
  then have p: "set active \<inter> R = {}" "(\<exists>i\<in>set active. home_of c i = dh) \<or> (\<forall>i\<in>set active. home_of c i \<noteq> n) \<and> dh = 1 - n"
    using plan by (auto simp: plan_for_def)
  obtain j where j: "j \<in> set active" using ne by (cases active) auto
  obtain i where i: "i \<in> set active" "home_of c i = dh" using p(2) homes [OF j] n j by fastforce
  then have "i \<in> set (ep_normal_draft_request_indices plan)" using plan p(1) S by (auto simp: plan_for_def)
  then show ?thesis by force
qed

section \<open>Rounds\<close>

text \<open>The tickets of a round, for requests with a number of tokens and whether the draft is eager.\<close>

primrec new_tickets ::
  "(int \<times> int \<times> bool) list \<Rightarrow> 'f SpecRhythmPipelineController \<Rightarrow> ('f SpecRhythmPipelineController, int list) py_call" where
  "new_tickets [] c = (Inr [], c)"
| "new_tickets (w # ws) c =
     (case new_ticket (fst w) (fst (snd w)) (snd (snd w)) c of
        (Inl e, c) \<Rightarrow> (Inl e, c)
      | (Inr p, c) \<Rightarrow> (case new_tickets ws c of (Inl e, c) \<Rightarrow> (Inl e, c) | (Inr ps, c) \<Rightarrow> (Inr (p # ps), c)))"

text \<open>The verdicts of a round: acceptance, the counts, and the confidence.\<close>

primrec finish_all ::
  "'f flt \<Rightarrow> (int \<Rightarrow> bool \<times> int \<times> int \<times> int \<times> 'f option) \<Rightarrow> 'f \<Rightarrow> int list \<Rightarrow> 'f SpecRhythmPipelineController \<Rightarrow>
    ('f SpecRhythmPipelineController, unit) py_call" where
  "finish_all fo verdict alpha [] c = (Inr (), c)"
| "finish_all fo verdict alpha (i # is) c =
     (case verdict i of (fa, a, b, d, cf) \<Rightarrow>
      (case finish_verification fo i fa a b d cf alpha c of (Inl e, c) \<Rightarrow> (Inl e, c) | (Inr _, c) \<Rightarrow> finish_all fo verdict alpha is c))"

definition engine_round ::
  "'f flt \<Rightarrow> int list \<Rightarrow> (SpecRhythmExecutionPlan \<Rightarrow> (int \<times> int \<times> bool) list) \<Rightarrow> (int \<Rightarrow> bool \<times> int \<times> int \<times> int \<times> 'f option) \<Rightarrow> 'f \<Rightarrow>
    'f SpecRhythmPipelineController \<Rightarrow> ('f SpecRhythmPipelineController, SpecRhythmExecutionPlan) py_call" where
  "engine_round fo active work verdict alpha c =
     (case build_plan active c of
        (Inl e, c) \<Rightarrow> (Inl e, c)
      | (Inr plan, c) \<Rightarrow>
        (case new_tickets (work plan) c of
           (Inl e, c) \<Rightarrow> (Inl e, c)
         | (Inr ps, c) \<Rightarrow>
           (case publish ps c of
              (Inl e, c) \<Rightarrow> (Inl e, c)
            | (Inr _, c) \<Rightarrow>
              (case finish_all fo verdict alpha (ep_target_request_indices plan) c of
                 (Inl e, c) \<Rightarrow> (Inl e, c)
               | (Inr _, c) \<Rightarrow> (Inr plan, c)))))"

text \<open>Work that follows the plan: each request once, with at least one token.\<close>

definition work_follows :: "SpecRhythmExecutionPlan \<Rightarrow> (int \<times> int \<times> bool) list \<Rightarrow> bool" where
  "work_follows plan ws \<longleftrightarrow> distinct (map fst ws) \<and>
     (\<forall>(i, g, e)\<in>set ws. 0 < g \<and> i \<in> set (if e then ep_eager_candidate_indices plan else ep_normal_draft_request_indices plan))"

text \<open>A ticket drawn for a piece of work and not yet published.\<close>

definition drawn :: "'f SpecRhythmPipelineController \<Rightarrow> int \<times> int \<times> bool \<Rightarrow> int \<Rightarrow> bool" where
  "drawn c w p \<longleftrightarrow>
     (case w of (i, g, e) \<Rightarrow>
        \<exists>t s. pc_tickets c p = Some t \<and> pc_request_states c i = Some s \<and> tk_request_index t = i \<and> tk_eager t = e \<and>
          tk_lifecycle t = (if e then STAGED_EAGER else AVAILABLE) \<and> tk_required_prefix_epoch t = rs_prefix_epoch s + (if e then 1 else 0))"

lemma new_ticket_drawn:
  assumes ok: "pipeline_ok c" and w: "0 \<le> i" "0 < g" "i \<in> dom (pc_request_states c)"
  shows "\<exists>p c'. new_ticket i g e c = (Inr p, c') \<and> drawn c' (i, g, e) p \<and> (\<forall>q. pc_tickets c q \<noteq> None \<longrightarrow> pc_tickets c' q = pc_tickets c q)"
proof -
  obtain s where s: "pc_request_states c i = Some s" using w(3) by auto
  have so: "state_ok s" by (rule pipeline_okD(1) [OF ok s])
  have "pc_tickets c q \<noteq> None \<Longrightarrow> q \<noteq> pc_next_proposal_id c" for q using pipeline_okD(7) [OF ok, of q] by auto
  then show ?thesis using w(1,2) s so pipeline_okD(3) [OF ok]
    by (simp add: new_ticket_def ticket_post_init_def state_ok_def drawn_def)
qed

lemma new_tickets_drawn:
  assumes "pipeline_ok c" "\<forall>(i, g, e)\<in>set ws. 0 \<le> i \<and> 0 < g \<and> i \<in> dom (pc_request_states c)"
  shows "\<exists>ps c'. new_tickets ws c = (Inr ps, c') \<and> pipeline_ok c' \<and> pc_ready c' = pc_ready c \<and> pc_staged_eager c' = pc_staged_eager c \<and>
    pc_request_states c' = pc_request_states c \<and> list_all2 (drawn c') ws ps \<and> (\<forall>q. pc_tickets c q \<noteq> None \<longrightarrow> pc_tickets c' q = pc_tickets c q)"
  using assms
proof (induction ws arbitrary: c)
  case (Cons w ws)
  obtain i g e where w: "w = (i, g, e)" by (metis prod_cases3)
  obtain p c1 where n: "new_ticket i g e c = (Inr p, c1)" "drawn c1 w p" "\<forall>q. pc_tickets c q \<noteq> None \<longrightarrow> pc_tickets c1 q = pc_tickets c q"
    using new_ticket_drawn [OF Cons.prems(1), of i g e] Cons.prems(2) w by auto
  have k: "pipeline_ok c1" "pc_ready c1 = pc_ready c" "pc_staged_eager c1 = pc_staged_eager c" "pc_request_states c1 = pc_request_states c"
    using new_ticket_ok [OF Cons.prems(1) n(1)] by auto
  have "\<forall>(i, g, e)\<in>set ws. 0 \<le> i \<and> 0 < g \<and> i \<in> dom (pc_request_states c1)" using Cons.prems(2) k(4) by auto
  from Cons.IH [OF k(1) this] obtain ps c2 where r: "new_tickets ws c1 = (Inr ps, c2)" "pipeline_ok c2" "pc_ready c2 = pc_ready c1"
    "pc_staged_eager c2 = pc_staged_eager c1" "pc_request_states c2 = pc_request_states c1" "list_all2 (drawn c2) ws ps"
    "\<forall>q. pc_tickets c1 q \<noteq> None \<longrightarrow> pc_tickets c2 q = pc_tickets c1 q" by blast
  have "pc_tickets c1 p \<noteq> None" using n(2) by (auto simp: drawn_def w)
  then have "drawn c2 w p" using n(2) r(5,7) by (auto simp: drawn_def w)
  moreover have "\<forall>q. pc_tickets c q \<noteq> None \<longrightarrow> pc_tickets c2 q = pc_tickets c q" using n(3) r(7) by metis
  ultimately show ?case using n(1) r k by (simp add: w)
qed simp

lemma publish_drawn:
  assumes "pipeline_ok c" "list_all2 (drawn c) ws ps" "distinct (map fst ws)"
    and "\<forall>(i, g, e)\<in>set ws. if e then i \<in> dom (map_of (pc_ready c)) \<and> i \<notin> dom (map_of (pc_staged_eager c)) else i \<notin> dom (map_of (pc_ready c))"
  shows "\<exists>c'. publish ps c = (Inr (), c') \<and> pipeline_ok c' \<and> pc_request_states c' = pc_request_states c \<and>
    dom (map_of (pc_ready c)) \<subseteq> dom (map_of (pc_ready c'))"
  using assms
proof (induction ws arbitrary: c ps)
  case (Cons w ws)
  obtain i g e where w: "w = (i, g, e)" by (metis prod_cases3)
  obtain p ps' where ps: "ps = p # ps'" "drawn c w p" "list_all2 (drawn c) ws ps'" using Cons.prems(2) by (auto simp: list_all2_Cons1)
  obtain t s where t: "pc_tickets c p = Some t" "pc_request_states c i = Some s" "tk_request_index t = i" "tk_eager t = e"
    "tk_lifecycle t = (if e then STAGED_EAGER else AVAILABLE)" "tk_required_prefix_epoch t = rs_prefix_epoch s + (if e then 1 else 0)"
    using ps(2) by (auto simp: drawn_def w)
  have at: "if e then dict_in i (pc_ready c) \<and> \<not> dict_in i (pc_staged_eager c) else \<not> dict_in i (pc_ready c)"
    using Cons.prems(4) by (auto simp: w dict_in_def dom_def split: if_splits)
  define c1 where "c1 = (if e then c\<lparr>pc_staged_eager := AList.update i p (pc_staged_eager c)\<rparr> else c\<lparr>pc_ready := AList.update i p (pc_ready c)\<rparr>)"
  have run: "publish_one p c = (Inr (), c1)" using t at by (cases e) (simp_all add: publish_one_def Let_def c1_def)
  have may: "may_publish c p" using t at by (auto simp: may_publish_def)
  have k: "pipeline_ok c1" "pc_tickets c1 = pc_tickets c" "pc_request_states c1 = pc_request_states c" using publish_one_ok [OF Cons.prems(1) may run] by auto
  have "drawn c1 = drawn c" by (simp add: fun_eq_iff drawn_def k(2,3))
  then have dr: "list_all2 (drawn c1) ws ps'" using ps(3) by simp
  have sub: "dom (map_of (pc_ready c)) \<subseteq> dom (map_of (pc_ready c1))" by (auto simp: c1_def)
  have fresh: "i \<notin> fst ` set ws" using Cons.prems(3) by (simp add: w)
  have "\<forall>(j, g, f)\<in>set ws. if f then j \<in> dom (map_of (pc_ready c1)) \<and> j \<notin> dom (map_of (pc_staged_eager c1)) else j \<notin> dom (map_of (pc_ready c1))"
  proof
    fix x assume x: "x \<in> set ws"
    obtain j g' f where xx: "x = (j, g', f)" by (metis prod_cases3)
    have "j \<noteq> i" using x fresh xx by force
    then show "case x of (j, g, f) \<Rightarrow> if f then j \<in> dom (map_of (pc_ready c1)) \<and> j \<notin> dom (map_of (pc_staged_eager c1)) else j \<notin> dom (map_of (pc_ready c1))"
      using Cons.prems(4) x sub by (fastforce simp: xx c1_def split: if_splits)
  qed
  then obtain c' where "publish ps' c1 = (Inr (), c')" "pipeline_ok c'" "pc_request_states c' = pc_request_states c1"
    "dom (map_of (pc_ready c1)) \<subseteq> dom (map_of (pc_ready c'))" using Cons.IH [OF k(1) dr] Cons.prems(3) by auto
  then show ?case using run sub k(3) by (auto simp: ps(1))
qed auto

lemma finish_all_runs:
  assumes "pipeline_ok c" "distinct is" "set is \<subseteq> dom (map_of (pc_ready c))"
  shows "\<exists>c'. finish_all fo verdict alpha is c = (Inr (), c') \<and> pipeline_ok c' \<and> dom (pc_request_states c') = dom (pc_request_states c)"
  using assms
proof (induction "is" arbitrary: c)
  case (Cons i "is")
  obtain fa a b d cf where v: "verdict i = (fa, a, b, d, cf)" by (metis prod_cases5)
  obtain p where p: "map_of (pc_ready c) i = Some p" using Cons.prems(3) by auto
  obtain s c1 promoted where f: "finish_verification fo i fa a b d cf alpha c = (Inr (if promoted then map_of (pc_staged_eager c) i else None), c1)"
    and e: "verdict_effect promoted i p s (record_verification fo a b d cf alpha s) c c1"
    using finish_effect [OF Cons.prems(1) p, of fo fa a b d cf alpha] by blast
  have st: "pc_request_states c i = Some s" "map_of (pc_ready c1) = (map_of (pc_ready c))(i := if promoted then map_of (pc_staged_eager c) i else None)"
    "pc_request_states c1 = (pc_request_states c)(i \<mapsto> record_verification fo a b d cf alpha s)"
    using e unfolding verdict_effect_def by blast+
  have ok1: "pipeline_ok c1"
    by (rule verdict_ok(1) [OF Cons.prems(1) p e]) (rule record_verification_ok [OF pipeline_okD(1) [OF Cons.prems(1) st(1)]])
  have "set is \<subseteq> dom (map_of (pc_ready c1))" using Cons.prems(2,3) unfolding st(2) by auto
  then obtain c' where "finish_all fo verdict alpha is c1 = (Inr (), c')" "pipeline_ok c'" "dom (pc_request_states c') = dom (pc_request_states c1)"
    using Cons.IH [OF ok1] Cons.prems(2) by auto
  then show ?case using f st(1,3) by (simp add: v insert_absorb domI)
qed simp

lemma engine_round_ok:
  assumes ok: "pipeline_ok c" and reg: "set active \<subseteq> dom (pc_request_states c)" and nat: "\<And>i. i \<in> set active \<Longrightarrow> 0 \<le> i"
    and work: "\<And>plan c1. build_plan active c = (Inr plan, c1) \<Longrightarrow> work_follows plan (work plan)"
  shows "\<exists>plan c1 c'. build_plan active c = (Inr plan, c1) \<and> engine_round fo active work verdict alpha c = (Inr plan, c') \<and> pipeline_ok c' \<and>
    dom (pc_request_states c') = dom (pc_request_states c)"
proof -
  obtain plan c1 dh where b: "build_plan active c = (Inr plan, c1)" and ok1: "pipeline_ok c1" and st: "pc_request_states c1 = pc_request_states c"
    and plan: "plan_for (fromkeys active) (home_of c) (pc_next_target_home_batch_id c) (dom (map_of (pc_ready c1)))
      (dom (map_of (pc_staged_eager c1))) plan dh" using build_plan_for [OF ok reg] by blast
  note wf = work [OF b, unfolded work_follows_def]
  have tgt: "set (ep_target_request_indices plan) \<subseteq> set active \<inter> dom (map_of (pc_ready c1))" "distinct (ep_target_request_indices plan)"
    using plan by (auto simp: plan_for_def split: option.splits)
  have eag: "set (ep_eager_candidate_indices plan) \<subseteq> set (ep_target_request_indices plan) - dom (map_of (pc_staged_eager c1))"
    using plan by (auto simp: plan_for_def)
  have nrm: "set (ep_normal_draft_request_indices plan) \<subseteq> set active - dom (map_of (pc_ready c1))" using plan by (auto simp: plan_for_def)
  have w1: "\<forall>(i, g, e)\<in>set (work plan). 0 \<le> i \<and> 0 < g \<and> i \<in> dom (pc_request_states c1)"
  proof
    fix x assume x: "x \<in> set (work plan)"
    obtain i g e where xx: "x = (i, g, e)" by (metis prod_cases3)
    have "0 < g \<and> i \<in> set (if e then ep_eager_candidate_indices plan else ep_normal_draft_request_indices plan)" using wf x by (auto simp: xx)
    then have "0 < g" "i \<in> set active" using tgt(1) eag nrm by (cases e; auto)+
    then show "case x of (i, g, e) \<Rightarrow> 0 \<le> i \<and> 0 < g \<and> i \<in> dom (pc_request_states c1)" using nat reg st by (auto simp: xx)
  qed
  obtain ps c2 where n: "new_tickets (work plan) c1 = (Inr ps, c2)" "pipeline_ok c2" "pc_ready c2 = pc_ready c1"
    "pc_staged_eager c2 = pc_staged_eager c1" "list_all2 (drawn c2) (work plan) ps" "pc_request_states c2 = pc_request_states c1" using new_tickets_drawn [OF ok1 w1] by blast
  have w2: "\<forall>(i, g, e)\<in>set (work plan). if e then i \<in> dom (map_of (pc_ready c2)) \<and> i \<notin> dom (map_of (pc_staged_eager c2)) else i \<notin> dom (map_of (pc_ready c2))"
  proof
    fix x assume x: "x \<in> set (work plan)"
    obtain i g e where xx: "x = (i, g, e)" by (metis prod_cases3)
    show "case x of (i, g, e) \<Rightarrow> if e then i \<in> dom (map_of (pc_ready c2)) \<and> i \<notin> dom (map_of (pc_staged_eager c2)) else i \<notin> dom (map_of (pc_ready c2))"
      using wf [THEN conjunct2, rule_format, OF x] tgt(1) eag nrm by (cases e) (auto simp: xx n(3,4))
  qed
  obtain c3 where pb: "publish ps c2 = (Inr (), c3)" "pipeline_ok c3" "dom (map_of (pc_ready c2)) \<subseteq> dom (map_of (pc_ready c3))"
    "pc_request_states c3 = pc_request_states c2"
    using publish_drawn [OF n(2,5) _ w2] wf by blast
  have "set (ep_target_request_indices plan) \<subseteq> dom (map_of (pc_ready c3))" using tgt(1) pb(3) unfolding n(3) by blast
  then obtain c4 where "finish_all fo verdict alpha (ep_target_request_indices plan) c3 = (Inr (), c4)" "pipeline_ok c4"
    "dom (pc_request_states c4) = dom (pc_request_states c3)"
    using finish_all_runs [OF pb(2) tgt(2)] by blast
  then show ?thesis using b n(1,6) pb(1,4) st by (simp add: engine_round_def)
qed

end
