(* ===== verification/RhythmProperties.thy ===== *)
theory RhythmProperties
  imports RhythmRounds
begin

text \<open>The properties of the control plane: budgets, mailbox, progress, and two ways to misuse it.\<close>

section \<open>A scheduler to run\<close>

definition demo_shaper :: "rat SpecRhythmBudgetShaper" where
  "demo_shaper = \<lparr>sh_min_gamma = 1, sh_max_gamma = 4, sh_acceptance_floor = 2 / 5, sh_acceptance_ema_alpha = 1 / 5, sh_roofline = []\<rparr>"

lemma demo_shaper_ok: "shaper_ok demo_shaper"
  by (simp add: shaper_ok_def demo_shaper_def)

definition demo_start :: "rat SpecRhythmScheduler" where
  "demo_start = \<lparr>sd_shaper = demo_shaper, sd_max_num_seqs = 8, sd_active = [], sd_controller = controller_init\<rparr>"

lemma demo_start_init: "scheduler_init demo_shaper 8 = Inr demo_start"
  by (simp add: scheduler_init_def demo_start_def)

text \<open>Two requests, one per batch, the second with an objective of 40 milliseconds per token.\<close>

definition demo_two :: "rat SpecRhythmScheduler" where
  "demo_two = snd (admit rat_flt 1 None (Some 40) None None (snd (admit rat_flt 0 None None None (Some 3) demo_start)))"

lemma demo_two_run: "sched_run rat_flt demo_start demo_two"
proof -
  have "sched_step rat_flt sd (snd (admit rat_flt i h slo cls mg sd))" for i h slo cls mg sd
    by (rule sched_step.admit) (rule surjective_pairing)
  then show ?thesis unfolding sched_run_def demo_two_def by (blast intro: rtranclp.rtrancl_refl rtranclp.rtrancl_into_rtrancl)
qed

lemma demo_two_active: "sd_active demo_two = [0, 1]"
  "map_option rs_home_batch_id (pc_request_states (sd_controller demo_two) 0) = Some 0"
  "map_option rs_home_batch_id (pc_request_states (sd_controller demo_two) 1) = Some 1"
  by code_simp+

lemma demo_two_ok: "sched_ok demo_two"
  using sched_run_ok [OF demo_two_run scheduler_init_ok [OF demo_start_init demo_shaper_ok]] by blast

section \<open>Budgets\<close>

text \<open>
  C9. The shaper returns: for registered requests, each normal or eager, whose minimum budgets fit the
  roofline and the draft window, and whose progress gaps are finite, both stages end and the plan
  passes every check of its constructor.
\<close>

theorem rhythm_shape_returns:
  assumes "shaper_ok sh" and "\<And>i. i \<in> set normal \<union> set eager \<Longrightarrow> \<exists>s. states i = Some s \<and> state_ok s"
    and "set normal \<inter> set eager = {}"
    and "\<And>i. i \<in> set normal \<union> set eager \<Longrightarrow> \<exists>g. projected_progress_gap fo (the (states i)) wait = Inr g"
    and "call_minimum sh states normal \<le> call_roof sh normal eager ctx bs"
    and "call_minimum sh states normal \<le> call_draft (call_roof sh normal eager ctx bs) budget"
  shows "\<exists>plan. shape fo sh k normal eager states wait ctx budget bs = Some (Inr plan)"
  using shape_outcome [OF assms(1-4) refl refl assms(5,6)] by blast

text \<open>What the demo requests need.\<close>

lemma demo_states:
  assumes "i \<in> set [1] \<union> set [0]"
  shows "\<exists>s. pc_request_states (sd_controller demo_two) i = Some s \<and> state_ok s"
    "\<exists>g. projected_progress_gap rat_flt (the (pc_request_states (sd_controller demo_two) i)) 100 = Inr g"
proof -
  have ok: "pipeline_ok (sd_controller demo_two)" "set (sd_active demo_two) \<subseteq> dom (pc_request_states (sd_controller demo_two))"
    using demo_two_ok by (auto simp: sched_ok_def)
  have "i \<in> dom (pc_request_states (sd_controller demo_two))" using assms ok(2) by (auto simp: demo_two_active)
  then show "\<exists>s. pc_request_states (sd_controller demo_two) i = Some s \<and> state_ok s" using pipeline_okD(1) [OF ok(1)] by blast
  show "\<exists>g. projected_progress_gap rat_flt (the (pc_request_states (sd_controller demo_two) i)) 100 = Inr g"
    by (simp add: projected_progress_gap_def rat_flt_def Let_def split: option.split)
qed

lemma demo_fits:
  "call_minimum demo_shaper (pc_request_states (sd_controller demo_two)) [1] \<le> call_roof demo_shaper [1] [0] 32 None"
  "call_minimum demo_shaper (pc_request_states (sd_controller demo_two)) [1] \<le> call_draft (call_roof demo_shaper [1] [0] 32 None) (Some 5)"
  by code_simp+

theorem rhythm_shape_returns_witness:
  "\<exists>plan. shape rat_flt demo_shaper 0 [1] [0] (pc_request_states (sd_controller demo_two)) 100 32 (Some 5) None = Some (Inr plan)"
  by (rule rhythm_shape_returns [where states = "pc_request_states (sd_controller demo_two)", OF demo_shaper_ok demo_states(1) _ demo_states(2) demo_fits]) simp_all

lemma collect_gaps_each: "collect_gaps gap is = Inr gs \<Longrightarrow> i \<in> set is \<Longrightarrow> \<exists>g. gap i = Inr g"
  by (induction "is" arbitrary: gs) (auto split: sum.splits)

lemma shape_returned:
  assumes "shape fo sh k normal eager states wait ctx budget bs = Some (Inr plan)"
  shows "set normal \<inter> set eager = {} \<and> call_minimum sh states normal \<le> call_roof sh normal eager ctx bs \<and>
    call_minimum sh states normal \<le> call_draft (call_roof sh normal eager ctx bs) budget \<and>
    (\<forall>i\<in>set normal \<union> set eager. \<exists>g. projected_progress_gap fo (the (states i)) wait = Inr g)"
proof -
  let ?gap = "\<lambda>i. projected_progress_gap fo (the (states i)) wait"
  let ?nb = "map (\<lambda>i. (i, min (sh_min_gamma sh) (request_cap sh (the (states i))))) (fromkeys normal)"
  have min: "dict_sum ?nb = call_minimum sh states normal" by (simp add: dict_sum_def call_minimum_def comp_def)
  note run = assms [unfolded shape_def Let_def call_roof_def [symmetric] call_draft_def [symmetric] min]
  have dis: "\<not> list_ex (\<lambda>i. i \<in> set (fromkeys eager)) (fromkeys normal)" using run by (auto split: if_splits)
  have fits: "call_minimum sh states normal \<le> call_roof sh normal eager ctx bs"
    "call_minimum sh states normal \<le> call_draft (call_roof sh normal eager ctx bs) budget" using run by (auto split: if_splits)
  obtain gs where "collect_gaps ?gap (fromkeys normal @ fromkeys eager) = Inr gs"
    using run by (cases "collect_gaps ?gap (fromkeys normal @ fromkeys eager)") (auto split: if_splits)
  then have "\<exists>g. ?gap i = Inr g" if "i \<in> set normal \<union> set eager" for i using collect_gaps_each that by fastforce
  then show ?thesis using dis fits by (auto simp: list_ex_iff)
qed

text \<open>The budgets behind a plan.\<close>

lemma shape_plan:
  assumes sh: "shaper_ok sh" and reg: "\<And>i. i \<in> set normal \<union> set eager \<Longrightarrow> \<exists>s. states i = Some s \<and> state_ok s"
    and run: "shape fo sh k normal eager states wait ctx budget bs = Some (Inr plan)"
    and roof: "roof = call_roof sh normal eager ctx bs" and avail: "avail = call_draft roof budget"
  shows "\<exists>rr rd. shape_ok sh (\<lambda>i. the (states i)) (fromkeys normal) (fromkeys eager) roof avail (bp_normal_budgets plan, bp_eager_budgets plan, rr, rd) \<and>
    (rd = 0 \<or> (\<nexists>i kind. can_grow fo sh (\<lambda>i. the (states i)) (fromkeys normal) (fromkeys eager)
       (bp_normal_budgets plan, bp_eager_budgets plan, rr, rd) i kind))"
proof -
  note ret = shape_returned [OF run, folded roof avail]
  have gap: "\<exists>g. projected_progress_gap fo (the (states i)) wait = Inr g" if "i \<in> set normal \<union> set eager" for i using ret that by blast
  from shape_outcome [where k = k and states = states, OF sh reg _ gap roof avail] ret obtain gs prio nb eb rr rd
    where p: "shape fo sh k normal eager states wait ctx budget bs = Some (Inr \<lparr>bp_plan_id = k, bp_normal_budgets = nb, bp_eager_budgets = eb,
        bp_progress_gaps = gs, bp_eager_priorities = prio, bp_verification_roof = roof, bp_draft_token_budget = avail,
        bp_allocated_draft_tokens = dict_sum nb + dict_sum eb\<rparr>)"
      and ok: "shape_ok sh (\<lambda>i. the (states i)) (fromkeys normal) (fromkeys eager) roof avail (nb, eb, rr, rd)"
      and left: "rd = 0 \<or> (\<nexists>i kind. can_grow fo sh (\<lambda>i. the (states i)) (fromkeys normal) (fromkeys eager) (nb, eb, rr, rd) i kind)" by blast
  have "bp_normal_budgets plan = nb" "bp_eager_budgets plan = eb" using run unfolding p by auto
  then show ?thesis using ok left by blast
qed

text \<open>
  C16. A plan of the shaper serves every normal request with at least the smaller of the minimum depth and
  its cap, gives no request more than its cap, gives eager tokens only to eager requests, and stays
  within the roofline and the draft window, counting both kinds together.
\<close>

theorem rhythm_budget_bounds:
  assumes sh: "shaper_ok sh" and reg: "\<And>i. i \<in> set normal \<union> set eager \<Longrightarrow> \<exists>s. states i = Some s \<and> state_ok s"
    and run: "shape fo sh k normal eager states wait ctx budget bs = Some (Inr plan)"
  shows "map fst (bp_normal_budgets plan) = fromkeys normal \<and> fst ` set (bp_eager_budgets plan) \<subseteq> set eager \<and>
    (\<forall>(i, n)\<in>set (bp_normal_budgets plan). min (sh_min_gamma sh) (request_cap sh (the (states i))) \<le> n \<and> n \<le> request_cap sh (the (states i))) \<and>
    (\<forall>(i, n)\<in>set (bp_eager_budgets plan). 1 \<le> n \<and> n \<le> request_cap sh (the (states i))) \<and>
    dict_sum (bp_normal_budgets plan) + dict_sum (bp_eager_budgets plan) \<le> call_roof sh normal eager ctx bs \<and>
    dict_sum (bp_normal_budgets plan) + dict_sum (bp_eager_budgets plan) \<le> call_draft (call_roof sh normal eager ctx bs) budget"
proof -
  obtain rr rd where "shape_ok sh (\<lambda>i. the (states i)) (fromkeys normal) (fromkeys eager) (call_roof sh normal eager ctx bs)
      (call_draft (call_roof sh normal eager ctx bs) budget) (bp_normal_budgets plan, bp_eager_budgets plan, rr, rd)"
    using shape_plan [OF sh reg run refl refl] by blast
  then show ?thesis unfolding shape_ok_def by auto
qed

definition demo_plan :: "rat SpecRhythmBudgetPlan" where
  "demo_plan = \<lparr>bp_plan_id = 0, bp_normal_budgets = [(1, 4)], bp_eager_budgets = [(0, 1)], bp_progress_gaps = [(1, 3), (0, 0)],
     bp_eager_priorities = [(0, 0)], bp_verification_roof = 8, bp_draft_token_budget = 5, bp_allocated_draft_tokens = 5\<rparr>"

lemma demo_shape: "shape rat_flt demo_shaper 0 [1] [0] (pc_request_states (sd_controller demo_two)) 100 32 (Some 5) None = Some (Inr demo_plan)"
  by code_simp

theorem rhythm_budget_bounds_witness:
  "dict_sum (bp_normal_budgets demo_plan) + dict_sum (bp_eager_budgets demo_plan) \<le> call_roof demo_shaper [1] [0] 32 None \<and>
   dict_sum (bp_normal_budgets demo_plan) + dict_sum (bp_eager_budgets demo_plan) \<le> call_draft (call_roof demo_shaper [1] [0] 32 None) (Some 5)"
  using rhythm_budget_bounds [where states = "pc_request_states (sd_controller demo_two)", OF demo_shaper_ok demo_states(1) demo_shape] by simp

text \<open>
  C29. The shaper leaves nothing on the table: a plan spends the whole draft window or the whole roofline,
  or every normal request is at its cap, and so is every eager request whose expected acceptance is not
  below the floor.
\<close>

theorem rhythm_work_conserving:
  assumes sh: "shaper_ok sh" and reg: "\<And>i. i \<in> set normal \<union> set eager \<Longrightarrow> \<exists>s. states i = Some s \<and> state_ok s"
    and run: "shape fo sh k normal eager states wait ctx budget bs = Some (Inr plan)"
  shows "dict_sum (bp_normal_budgets plan) + dict_sum (bp_eager_budgets plan) = call_draft (call_roof sh normal eager ctx bs) budget \<or>
    dict_sum (bp_normal_budgets plan) + dict_sum (bp_eager_budgets plan) = call_roof sh normal eager ctx bs \<or>
    (\<forall>i\<in>set normal. request_cap sh (the (states i)) \<le> dict_get (bp_normal_budgets plan) i 0) \<and>
    (\<forall>i\<in>set eager. request_cap sh (the (states i)) \<le> dict_get (bp_eager_budgets plan) i 0 \<or>
       f_lt fo (expected_acceptance_benefit fo (the (states i))) (sh_acceptance_floor sh))"
proof -
  obtain rr rd where ok: "shape_ok sh (\<lambda>i. the (states i)) (fromkeys normal) (fromkeys eager) (call_roof sh normal eager ctx bs)
      (call_draft (call_roof sh normal eager ctx bs) budget) (bp_normal_budgets plan, bp_eager_budgets plan, rr, rd)"
    and left: "rd = 0 \<or> (\<nexists>i kind. can_grow fo sh (\<lambda>i. the (states i)) (fromkeys normal) (fromkeys eager)
       (bp_normal_budgets plan, bp_eager_budgets plan, rr, rd) i kind)"
    using shape_plan [OF sh reg run refl refl] by blast
  show ?thesis
  proof (cases "rd = 0 \<or> rr = 0")
    case True
    then show ?thesis using ok by (auto simp: shape_ok_def)
  next
    case False
    have rr: "0 < rr" using ok False by (simp add: shape_ok_def)
    have ng: "\<not> can_grow fo sh (\<lambda>i. the (states i)) (fromkeys normal) (fromkeys eager) (bp_normal_budgets plan, bp_eager_budgets plan, rr, rd) i kind"
      for i kind using left False by blast
    have "request_cap sh (the (states i)) \<le> dict_get (bp_normal_budgets plan) i 0" if "i \<in> set normal" for i
      using ng [of i "''normal''"] that rr by (simp add: can_grow_def)
    moreover have "request_cap sh (the (states i)) \<le> dict_get (bp_eager_budgets plan) i 0 \<or>
        f_lt fo (expected_acceptance_benefit fo (the (states i))) (sh_acceptance_floor sh)" if "i \<in> set eager" for i
      using ng [of i "''eager''"] that rr by (simp add: can_grow_def) linarith
    ultimately show ?thesis by blast
  qed
qed

theorem rhythm_work_conserving_witness:
  "dict_sum (bp_normal_budgets demo_plan) + dict_sum (bp_eager_budgets demo_plan) = 5"
  using rhythm_work_conserving [where states = "pc_request_states (sd_controller demo_two)", OF demo_shaper_ok demo_states(1) demo_shape]
  by (simp add: demo_plan_def dict_sum_def)

section \<open>The mailbox\<close>


text \<open>The demo requests after a normal and an eager ticket for the first.\<close>

definition demo_drafted :: "rat SpecRhythmPipelineController" where
  "demo_drafted =
     (let c = snd (new_ticket 0 2 False (sd_controller demo_two)); c = snd (publish_one 0 c);
          c = snd (new_ticket 0 2 True c)
      in snd (publish_one 1 c))"

lemma demo_drafted_tickets:
  "may_publish (snd (new_ticket 0 2 False (sd_controller demo_two))) 0"
  "may_publish (snd (new_ticket 0 2 True (snd (publish_one 0 (snd (new_ticket 0 2 False (sd_controller demo_two))))))) 1"
  by code_simp+

text \<open>The demo scheduler with another controller, and the two steps that put a proposal in it.\<close>

abbreviation demo_with :: "rat SpecRhythmPipelineController \<Rightarrow> rat SpecRhythmScheduler" where
  "demo_with c \<equiv> demo_two\<lparr>sd_controller := c\<rparr>"

lemma demo_ticket_run:
  "sched_run rat_flt demo_start (demo_with c) \<Longrightarrow> sched_run rat_flt demo_start (demo_with (snd (new_ticket i g e c)))"
  using sched_step.ticket [of i g e "demo_with c" "fst (new_ticket i g e c)" "snd (new_ticket i g e c)" rat_flt]
  unfolding sched_run_def by (simp add: rtranclp.rtrancl_into_rtrancl)

lemma demo_publish_run:
  "sched_run rat_flt demo_start (demo_with c) \<Longrightarrow> may_publish c p \<Longrightarrow> sched_run rat_flt demo_start (demo_with (snd (publish_one p c)))"
  using sched_step.publish [of "demo_with c" p "fst (publish_one p c)" "snd (publish_one p c)" rat_flt]
  unfolding sched_run_def by (simp add: rtranclp.rtrancl_into_rtrancl)

lemma demo_drafted_run: "sched_run rat_flt demo_start (demo_with demo_drafted)"
proof -
  have "sched_run rat_flt demo_start (demo_with (sd_controller demo_two))" using demo_two_run by simp
  then show ?thesis unfolding demo_drafted_def Let_def by (intro demo_publish_run demo_ticket_run demo_drafted_tickets)
qed








section \<open>Progress\<close>

lemma fromkeys_from_distinct: "distinct xs \<Longrightarrow> set xs \<inter> set seen = {} \<Longrightarrow> fromkeys_from seen xs = xs"
  by (induction xs arbitrary: seen) auto

lemma fromkeys_distinct: "distinct xs \<Longrightarrow> fromkeys xs = xs"
  by (simp add: fromkeys_def fromkeys_from_distinct)

lemma active_plan:
  assumes "sched_ok sd"
  shows "\<exists>plan c' dh. build_plan (sd_active sd) (sd_controller sd) = (Inr plan, c') \<and> pipeline_ok c' \<and>
    pc_request_states c' = pc_request_states (sd_controller sd) \<and>
    plan_for (sd_active sd) (home_of (sd_controller sd)) (pc_next_target_home_batch_id (sd_controller sd)) (dom (map_of (pc_ready c')))
      (dom (map_of (pc_staged_eager c'))) plan dh"
proof -
  have ok: "pipeline_ok (sd_controller sd)" "set (sd_active sd) \<subseteq> dom (pc_request_states (sd_controller sd))" "distinct (sd_active sd)"
    using assms by (auto simp: sched_ok_def)
  show ?thesis using build_plan_for [OF ok(1,2)] fromkeys_distinct [OF ok(3)] by metis
qed

text \<open>
  C19. While a request is active, the plan has a batch to verify or requests to draft for: the phase is never
  \<^verbatim>\<open>COMPLETE\<close>, on which the engine raises, and never \<^verbatim>\<open>DRAIN\<close>.
\<close>

theorem rhythm_progress:
  assumes "sched_ok sd" "sd_active sd \<noteq> []"
  shows "\<exists>plan c'. build_plan (sd_active sd) (sd_controller sd) = (Inr plan, c') \<and> (ep_phase plan = STEADY \<or> ep_phase plan = WARMUP) \<and>
    (ep_target_request_indices plan \<noteq> [] \<or> ep_normal_draft_request_indices plan \<noteq> [])"
proof -
  have ok: "pipeline_ok (sd_controller sd)" "set (sd_active sd) \<subseteq> dom (pc_request_states (sd_controller sd))"
    using assms by (auto simp: sched_ok_def)
  obtain plan c' dh where b: "build_plan (sd_active sd) (sd_controller sd) = (Inr plan, c')" and c': "pipeline_ok c'"
    and plan: "plan_for (sd_active sd) (home_of (sd_controller sd)) (pc_next_target_home_batch_id (sd_controller sd)) (dom (map_of (pc_ready c')))
      (dom (map_of (pc_staged_eager c'))) plan dh" using active_plan [OF assms(1)] by blast
  have homes: "home_of (sd_controller sd) i \<in> {0, 1}" if "i \<in> set (sd_active sd)" for i
    using that ok(2) pipeline_okD(1) [OF ok(1), of i] by (auto simp: home_of_def state_ok_def)
  have "dom (map_of (pc_staged_eager c')) \<subseteq> dom (map_of (pc_ready c'))"
    using pipeline_okD(6) [OF c'] by (auto simp: dict_in_def)
  then have "ep_target_request_indices plan \<noteq> [] \<or> ep_normal_draft_request_indices plan \<noteq> []"
    using plan_progress [OF plan assms(2) pipeline_okD(2) [OF ok(1)] homes] by blast
  then show ?thesis using b plan by (auto simp: plan_for_def)
qed

theorem rhythm_progress_witness:
  "\<exists>plan c'. build_plan [0, 1] (sd_controller demo_two) = (Inr plan, c') \<and> (ep_phase plan = STEADY \<or> ep_phase plan = WARMUP)"
  using rhythm_progress [OF demo_two_ok] by (auto simp: demo_two_active)

text \<open>
  C30. The batches alternate: after a verdict on a request, the next plan verifies the other batch as soon as one of its
  active requests has a proposal ready, and all such requests of that batch together. A rejected proposal promotes no
  eager continuation.
\<close>

theorem rhythm_alternates:
  assumes "sched_ok sd" "map_of (pc_ready (sd_controller sd)) i = Some p"
    and "j \<in> set (sd_active sd)" "dict_in j (pc_ready (sd_controller sd))"
    and "home_of (sd_controller sd) j = 1 - home_of (sd_controller sd) i"
  shows "\<exists>r c plan c'. finish_verification fo i fa prp acc del conf alpha (sd_controller sd) = (Inr r, c) \<and> (\<not> fa \<longrightarrow> r = None) \<and>
    build_plan (sd_active sd) c = (Inr plan, c') \<and> ep_target_home_batch_id plan = Some (1 - home_of (sd_controller sd) i) \<and>
    ep_target_request_indices plan =
      filter (\<lambda>k. home_of (sd_controller sd) k = 1 - home_of (sd_controller sd) i \<and> dict_in k (pc_ready (sd_controller sd))) (sd_active sd)"
proof -
  let ?c = "sd_controller sd"
  have ok: "pipeline_ok ?c" using assms(1) by (simp add: sched_ok_def)
  obtain s c promoted where f: "finish_verification fo i fa prp acc del conf alpha ?c = (Inr (if promoted then map_of (pc_staged_eager ?c) i else None), c)"
    and e: "verdict_effect promoted i p s (record_verification fo prp acc del conf alpha s) ?c c" and fa: "promoted \<Longrightarrow> fa"
    using finish_effect [OF ok assms(2), of fo fa prp acc del conf alpha] by blast
  let ?s' = "record_verification fo prp acc del conf alpha s"
  have s: "pc_request_states ?c i = Some s" "rs_home_batch_id ?s' = rs_home_batch_id s" and st: "pc_request_states c = (pc_request_states ?c)(i \<mapsto> ?s')"
    and rd: "map_of (pc_ready c) = (map_of (pc_ready ?c))(i := if promoted then map_of (pc_staged_eager ?c) i else None)"
    and nx: "pc_next_target_home_batch_id c = 1 - rs_home_batch_id s" using e unfolding verdict_effect_def by blast+
  have okc: "pipeline_ok c" by (rule verdict_ok(1) [OF ok assms(2) e]) (rule record_verification_ok [OF pipeline_okD(1) [OF ok s(1)]])
  have home: "home_of c k = home_of ?c k" for k using s st by (simp add: home_of_def)
  have hi: "home_of ?c i = rs_home_batch_id s" using s by (simp add: home_of_def)
  have bit: "rs_home_batch_id s = 0 \<or> rs_home_batch_id s = 1" using pipeline_okD(1) [OF ok s(1)] by (simp add: state_ok_def)
  have act: "set (sd_active sd) \<subseteq> dom (pc_request_states c)" "fromkeys (sd_active sd) = sd_active sd"
    using assms(1) st by (auto simp: sched_ok_def fromkeys_distinct)
  obtain plan c' dh where b: "build_plan (sd_active sd) c = (Inr plan, c')" and rd': "map_of (pc_ready c') = map_of (pc_ready c) |` set (sd_active sd)"
    and plan: "plan_for (sd_active sd) (home_of c) (pc_next_target_home_batch_id c) (dom (map_of (pc_ready c'))) (dom (map_of (pc_staged_eager c'))) plan dh"
    using build_plan_for [OF okc act(1)] unfolding act(2) by blast
  have R: "k \<in> dom (map_of (pc_ready c')) \<longleftrightarrow> dict_in k (pc_ready ?c)" if "k \<in> set (sd_active sd)" "k \<noteq> i" for k
    using that by (simp add: rd' rd restrict_map_def dict_in_def domIff)
  have other: "k \<noteq> i" if "home_of ?c k = 1 - rs_home_batch_id s" for k using that hi bit by auto
  have "j \<noteq> i" using other assms(5) hi by simp
  then have "1 - rs_home_batch_id s \<in> home_of c ` (set (sd_active sd) \<inter> dom (map_of (pc_ready c')))"
    using R [OF assms(3)] assms(3,4,5) hi home by (intro rev_image_eqI [of j]) auto
  then have th: "ep_target_home_batch_id plan = Some (1 - rs_home_batch_id s)"
    using plan nx by (cases "ep_target_home_batch_id plan") (auto simp: plan_for_def)
  have "ep_target_request_indices plan = filter (\<lambda>k. home_of c k = 1 - rs_home_batch_id s \<and> k \<in> dom (map_of (pc_ready c'))) (sd_active sd)"
    using plan th by (simp add: plan_for_def)
  also have "\<dots> = filter (\<lambda>k. home_of ?c k = 1 - rs_home_batch_id s \<and> dict_in k (pc_ready ?c)) (sd_active sd)"
    using R other home by (intro filter_cong) auto
  finally show ?thesis using f fa b th hi by auto
qed

text \<open>A proposal of each batch.\<close>

definition demo_both :: "rat SpecRhythmPipelineController" where
  "demo_both = snd (publish_one 2 (snd (new_ticket 1 2 False demo_drafted)))"

lemma demo_both_ready: "pc_ready demo_both = [(0, 0), (1, 2)]" "may_publish (snd (new_ticket 1 2 False demo_drafted)) 2"
  "home_of demo_both 0 = 0" "home_of demo_both 1 = 1"
  by code_simp+

lemma demo_both_ok: "sched_ok (demo_with demo_both)"
proof -
  have "sched_run rat_flt demo_start (demo_with demo_both)"
    unfolding demo_both_def by (intro demo_publish_run demo_ticket_run demo_drafted_run demo_both_ready)
  then show ?thesis using sched_run_ok scheduler_init_ok [OF demo_start_init demo_shaper_ok] by blast
qed

theorem rhythm_alternates_witness:
  "\<exists>r c plan c'. finish_verification rat_flt 0 True 2 2 2 None (1 / 5) demo_both = (Inr r, c) \<and>
    build_plan [0, 1] c = (Inr plan, c') \<and> ep_target_home_batch_id plan = Some 1 \<and> ep_target_request_indices plan = [1]"
  using rhythm_alternates [OF demo_both_ok, of 0 0 1 rat_flt True 2 2 2 None "1 / 5"]
  by (simp add: demo_both_ready demo_two_active dict_in_def)

text \<open>
  C22. A round of the engine that drafts what the plan asks for, each request once and at least one token, raises
  no exception, whatever the verdicts, and leaves a state in which the next round can be planned.
\<close>

theorem rhythm_round_returns:
  assumes "sched_ok sd" "\<And>i. i \<in> set (sd_active sd) \<Longrightarrow> 0 \<le> i"
    and "\<And>plan c1. build_plan (sd_active sd) (sd_controller sd) = (Inr plan, c1) \<Longrightarrow> work_follows plan (work plan)"
  shows "\<exists>plan c'. engine_round fo (sd_active sd) work verdict alpha (sd_controller sd) = (Inr plan, c') \<and> sched_ok (sd\<lparr>sd_controller := c'\<rparr>)"
proof -
  obtain plan c1 c' where r: "engine_round fo (sd_active sd) work verdict alpha (sd_controller sd) = (Inr plan, c')" "pipeline_ok c'"
    "dom (pc_request_states c') = dom (pc_request_states (sd_controller sd))"
    using engine_round_ok [of "sd_controller sd" "sd_active sd" work fo verdict alpha] assms by (auto simp: sched_ok_def)
  then show ?thesis using assms(1) by (auto simp: sched_ok_def)
qed

text \<open>Two tokens for each normal request and one for each eager one.\<close>

definition demo_work :: "SpecRhythmExecutionPlan \<Rightarrow> (int \<times> int \<times> bool) list" where
  "demo_work plan = map (\<lambda>i. (i, 2, False)) (ep_normal_draft_request_indices plan) @ map (\<lambda>i. (i, 1, True)) (ep_eager_candidate_indices plan)"

lemma demo_both_plan:
  "case fst (build_plan [0, 1] demo_both) of Inl e \<Rightarrow> False | Inr plan \<Rightarrow> work_follows plan (demo_work plan) \<and> ep_target_request_indices plan = [0]"
  by code_simp

theorem rhythm_round_returns_witness:
  "\<exists>plan c'. engine_round rat_flt [0, 1] demo_work (\<lambda>_. (False, 2, 1, 2, None)) (1 / 5) demo_both = (Inr plan, c') \<and>
     sched_ok (demo_with c') \<and> ep_target_request_indices plan = [0]"
proof -
  have "engine_round rat_flt [0, 1] demo_work (\<lambda>_. (False, 2, 1, 2, None)) (1 / 5) demo_both = (Inr plan, c') \<Longrightarrow>
      ep_target_request_indices plan = [0]" for plan c'
    using demo_both_plan by (auto simp: engine_round_def split: sum.splits prod.splits)
  then show ?thesis
    using rhythm_round_returns [OF demo_both_ok, of demo_work rat_flt "\<lambda>_. (False, 2, 1, 2, None)" "1 / 5"] demo_both_plan
    by (fastforce simp: demo_two_active)
qed

section \<open>Two uses the guards do not cover\<close>






end
