(* ===== verification/PrefixCache.thy ===== *)
theory PrefixCache
  imports PyBase
begin

text \<open>
  The cache of prompt prefixes over the physical blocks of the KV cache
  (\<^verbatim>\<open>vllm_ascend/spec_decode/pearl/native_cache.py\<close>). A block object is known by its position in the list of blocks,
  which is its \<^verbatim>\<open>block_id\<close>; \<^verbatim>\<open>prefix_to_block\<close> is only looked up, so it is a map. The tables of an allocation are
  those the cache keeps as active.
\<close>

section \<open>Blocks\<close>

record CacheBlock =
  cb_block_id :: int
  cb_prefix_key :: "int list option"
  cb_ref_count :: int
  cb_last_used :: int

record NativePrefixCache =
  nc_num_blocks :: int
  nc_blocks_per_sequence :: int
  nc_block_size :: int
  nc_blocks :: "CacheBlock list"
  nc_prefix_to_block :: "int list \<Rightarrow> int option"
  nc_clock :: int
  nc_active_tables :: "int list list option"

record NativeCacheAllocation =
  al_block_tables :: "int list list"
  al_num_cached_tokens :: "int list"

definition prefix_cache_init :: "int \<Rightarrow> int \<Rightarrow> int \<Rightarrow> py_exc + NativePrefixCache" where
  "prefix_cache_init num_blocks blocks_per_sequence block_size =
     (if num_blocks \<le> 0 \<or> blocks_per_sequence \<le> 0 \<or> block_size \<le> 0 then Inl (ValueError ''dimensions'')
      else Inr \<lparr>nc_num_blocks = num_blocks, nc_blocks_per_sequence = blocks_per_sequence, nc_block_size = block_size,
                nc_blocks = map (\<lambda>block_id. \<lparr>cb_block_id = int block_id, cb_prefix_key = None, cb_ref_count = 0, cb_last_used = 0\<rparr>)
                              [0..<nat num_blocks],
                nc_prefix_to_block = Map.empty, nc_clock = 0, nc_active_tables = None\<rparr>)"

text \<open>The order in which free blocks are taken: blocks without a prefix first, then by time of use, then by number.\<close>

definition candidate_block_less :: "CacheBlock \<Rightarrow> CacheBlock \<Rightarrow> bool" where
  "candidate_block_less a b \<longleftrightarrow>
     (if (cb_prefix_key a \<noteq> None) \<noteq> (cb_prefix_key b \<noteq> None) then cb_prefix_key b \<noteq> None
      else if cb_last_used a \<noteq> cb_last_used b then cb_last_used a < cb_last_used b
      else cb_block_id a < cb_block_id b)"

text \<open>A change of one block object.\<close>

definition update_block :: "int \<Rightarrow> (CacheBlock \<Rightarrow> CacheBlock) \<Rightarrow> NativePrefixCache \<Rightarrow> NativePrefixCache" where
  "update_block b f c = c\<lparr>nc_blocks := (nc_blocks c)[nat b := f (nc_blocks c ! nat b)]\<rparr>"

definition acquire_block :: "int list option \<Rightarrow> NativePrefixCache \<Rightarrow> (NativePrefixCache, int \<times> bool) py_call" where
  "acquire_block prefix_key c =
     (let c = c\<lparr>nc_clock := nc_clock c + 1\<rparr>
      in (case Option.bind prefix_key (nc_prefix_to_block c) of
            Some b \<Rightarrow>
              (Inr (cb_block_id (nc_blocks c ! nat b), True),
               update_block b (\<lambda>block. block\<lparr>cb_ref_count := cb_ref_count block + 1, cb_last_used := nc_clock c\<rparr>) c)
          | None \<Rightarrow>
            (case filter (\<lambda>block. cb_ref_count block = 0) (nc_blocks c) of
               [] \<Rightarrow> (Inl (RuntimeError ''no free physical blocks''), c)
             | block # blocks \<Rightarrow>
               (let block = py_max (\<lambda>a b. candidate_block_less b a) block blocks;
                    b = cb_block_id block;
                    c = (case cb_prefix_key block of None \<Rightarrow> c
                         | Some k \<Rightarrow> c\<lparr>nc_prefix_to_block := (nc_prefix_to_block c)(k := None)\<rparr>);
                    c = update_block b (\<lambda>block. block\<lparr>cb_prefix_key := prefix_key, cb_ref_count := 1, cb_last_used := nc_clock c\<rparr>) c;
                    c = (case prefix_key of None \<Rightarrow> c
                         | Some k \<Rightarrow> c\<lparr>nc_prefix_to_block := (nc_prefix_to_block c)(k \<mapsto> b)\<rparr>)
                in (Inr (b, False), c)))))"

section \<open>Allocation of a batch\<close>

text \<open>The key of a logical block: the prompt up to its end, for the full blocks before the last token.\<close>

definition block_key :: "bool \<Rightarrow> int \<Rightarrow> int list \<Rightarrow> nat \<Rightarrow> int list option" where
  "block_key enable_prefix_caching block_size prompt logical_block =
     (let max_reusable_tokens = max 0 (int (length prompt) - 1);
          num_full_blocks = max_reusable_tokens div block_size;
          prefix_end = (int logical_block + 1) * block_size;
          prefix_key = (if int logical_block < num_full_blocks then Some (take (nat prefix_end) prompt) else None)
      in if enable_prefix_caching then prefix_key else None)"

text \<open>
  The loop over the logical blocks of a prompt, with the list of the blocks acquired so far, which the
  handler of the exception needs.
\<close>

primrec allocate_blocks ::
  "bool \<Rightarrow> int list \<Rightarrow> nat list \<Rightarrow> int list \<Rightarrow> int \<Rightarrow> int list \<Rightarrow> NativePrefixCache \<Rightarrow>
    (py_exc + int list \<times> int) \<times> int list \<times> NativePrefixCache" where
  "allocate_blocks enable prompt [] table cached acquired c = (Inr (table, cached), acquired, c)"
| "allocate_blocks enable prompt (logical_block # rest) table cached acquired c =
     (case acquire_block (block_key enable (nc_block_size c) prompt logical_block) c of
        (Inl e, c) \<Rightarrow> (Inl e, acquired, c)
      | (Inr (block_id, cache_hit), c) \<Rightarrow>
        allocate_blocks enable prompt rest (table[logical_block := block_id])
          (if cache_hit then cached + nc_block_size c else cached) (acquired @ [block_id]) c)"

definition num_prompt_blocks :: "int \<Rightarrow> int list \<Rightarrow> nat" where
  "num_prompt_blocks block_size prompt = nat ((int (length prompt) + block_size - 1) div block_size)"

primrec allocate_prompts ::
  "bool \<Rightarrow> int list list \<Rightarrow> int list \<Rightarrow> NativePrefixCache \<Rightarrow> (py_exc + int list list \<times> int list) \<times> int list \<times> NativePrefixCache" where
  "allocate_prompts enable [] acquired c = (Inr ([], []), acquired, c)"
| "allocate_prompts enable (prompt # prompts) acquired c =
     (if int (length prompt) > nc_blocks_per_sequence c * nc_block_size c then (Inl (ValueError ''page table''), acquired, c)
      else
        (case allocate_blocks enable prompt [0..<num_prompt_blocks (nc_block_size c) prompt]
                (replicate (nat (nc_blocks_per_sequence c)) (-1)) 0 acquired c of
           (Inl e, acquired, c) \<Rightarrow> (Inl e, acquired, c)
         | (Inr (table, cached), acquired, c) \<Rightarrow>
           (case allocate_prompts enable prompts acquired c of
              (Inl e, acquired, c) \<Rightarrow> (Inl e, acquired, c)
            | (Inr (tables, counts), acquired, c) \<Rightarrow> (Inr (table # tables, cached # counts), acquired, c))))"

definition unref_block :: "int \<Rightarrow> NativePrefixCache \<Rightarrow> NativePrefixCache" where
  "unref_block b = update_block b (\<lambda>block. block\<lparr>cb_ref_count := cb_ref_count block - 1\<rparr>)"

definition allocate :: "int list list \<Rightarrow> bool \<Rightarrow> NativePrefixCache \<Rightarrow> (NativePrefixCache, NativeCacheAllocation) py_call" where
  "allocate prompts enable_prefix_caching c =
     (if nc_active_tables c \<noteq> None then (Inl (RuntimeError ''active''), c)
      else
        (case allocate_prompts enable_prefix_caching prompts [] c of
           (Inl e, acquired, c) \<Rightarrow> (Inl e, fold unref_block acquired c)
         | (Inr (tables, counts), acquired, c) \<Rightarrow>
           (Inr \<lparr>al_block_tables = tables, al_num_cached_tokens = counts\<rparr>, c\<lparr>nc_active_tables := Some tables\<rparr>)))"

section \<open>Growth and release\<close>

text \<open>The position that an index denotes; a negative one counts from the end.\<close>

definition py_index :: "nat \<Rightarrow> int \<Rightarrow> nat option" where
  "py_index n i = (if 0 \<le> i \<and> i < int n then Some (nat i) else if - int n \<le> i \<and> i < 0 then Some (nat (int n + i)) else None)"

primrec ensure_positions ::
  "(int \<times> int) list \<Rightarrow> int list list \<Rightarrow> NativePrefixCache \<Rightarrow> (py_exc + (int \<times> int \<times> int) list) \<times> int list list \<times> NativePrefixCache" where
  "ensure_positions [] tables c = (Inr [], tables, c)"
| "ensure_positions (w # ws) tables c =
     (let sequence_id = fst w; logical_block = snd w div nc_block_size c
      in if sequence_id < 0 \<or> sequence_id \<ge> int (length tables) then (Inl (ValueError ''sequence''), tables, c)
         else if logical_block \<ge> nc_blocks_per_sequence c then (Inl (ValueError ''max_model_len''), tables, c)
         else
           (case py_index (length (tables ! nat sequence_id)) logical_block of
              None \<Rightarrow> (Inl IndexError, tables, c)
            | Some k \<Rightarrow>
              if tables ! nat sequence_id ! k \<noteq> -1 then ensure_positions ws tables c
              else
                (case acquire_block None c of
                   (Inl e, c) \<Rightarrow> (Inl e, tables, c)
                 | (Inr (block_id, _), c) \<Rightarrow>
                   (case ensure_positions ws (tables[nat sequence_id := (tables ! nat sequence_id)[k := block_id]]) c of
                      (Inl e, tables, c) \<Rightarrow> (Inl e, tables, c)
                    | (Inr updates, tables, c) \<Rightarrow> (Inr ((sequence_id, logical_block, block_id) # updates), tables, c)))))"

definition ensure_capacity ::
  "int list \<Rightarrow> int list \<Rightarrow> NativePrefixCache \<Rightarrow> (NativePrefixCache, (int \<times> int \<times> int) list) py_call" where
  "ensure_capacity sequence_ids positions c =
     (case nc_active_tables c of
        None \<Rightarrow> (Inl (RuntimeError ''no batch''), c)
      | Some tables \<Rightarrow>
        if length sequence_ids \<noteq> length positions then (Inl (ValueError ''lengths''), c)
        else (case ensure_positions (zip sequence_ids positions) tables c of
                (r, tables, c) \<Rightarrow> (r, c\<lparr>nc_active_tables := Some tables\<rparr>)))"

primrec release_table :: "int list \<Rightarrow> NativePrefixCache \<Rightarrow> (NativePrefixCache, unit) py_call" where
  "release_table [] c = (Inr (), c)"
| "release_table (block_id # rest) c =
     (if block_id = -1 then release_table rest c
      else (let c = unref_block block_id c
            in if cb_ref_count (nc_blocks c ! nat block_id) < 0 then (Inl (RuntimeError ''negative''), c)
               else release_table rest c))"

primrec release_tables :: "int list list \<Rightarrow> NativePrefixCache \<Rightarrow> (NativePrefixCache, unit) py_call" where
  "release_tables [] c = (Inr (), c)"
| "release_tables (t # ts) c = (case release_table t c of (Inl e, c) \<Rightarrow> (Inl e, c) | (Inr _, c) \<Rightarrow> release_tables ts c)"

definition release :: "NativePrefixCache \<Rightarrow> (NativePrefixCache, unit) py_call" where
  "release c =
     (case nc_active_tables c of
        None \<Rightarrow> (Inr (), c)
      | Some tables \<Rightarrow>
        (case release_tables tables c of (Inl e, c) \<Rightarrow> (Inl e, c) | (Inr _, c) \<Rightarrow> (Inr (), c\<lparr>nc_active_tables := None\<rparr>)))"

end
