(* ===== verification/PrefixCacheBlocks.thy ===== *)
theory PrefixCacheBlocks
  imports PrefixCache
begin

text \<open>
  The invariant of the blocks: reference counts are the number of times a block is held, the index of
  prefixes is the inverse of the keys of the blocks, and a block without a key is held once at most.
\<close>

section \<open>The invariant\<close>

definition key_of :: "NativePrefixCache \<Rightarrow> int \<Rightarrow> int list option" where
  "key_of c b = cb_prefix_key (nc_blocks c ! nat b)"

definition ref_of :: "NativePrefixCache \<Rightarrow> int \<Rightarrow> int" where
  "ref_of c b = cb_ref_count (nc_blocks c ! nat b)"

definition dims_ok :: "NativePrefixCache \<Rightarrow> bool" where
  "dims_ok c \<longleftrightarrow> 0 < nc_num_blocks c \<and> 0 < nc_blocks_per_sequence c \<and> 0 < nc_block_size c \<and> length (nc_blocks c) = nat (nc_num_blocks c) \<and>
     (\<forall>i<length (nc_blocks c). cb_block_id (nc_blocks c ! i) = int i)"

text \<open>\<open>M\<close> are the block numbers that tables and calls in progress hold.\<close>

definition blocks_ok :: "int multiset \<Rightarrow> NativePrefixCache \<Rightarrow> bool" where
  "blocks_ok M c \<longleftrightarrow> dims_ok c \<and> set_mset M \<subseteq> {0..<nc_num_blocks c} \<and>
     (\<forall>b\<in>{0..<nc_num_blocks c}. ref_of c b = int (count M b) \<and> (key_of c b = None \<longrightarrow> count M b \<le> 1)) \<and>
     (\<forall>k b. nc_prefix_to_block c k = Some b \<longleftrightarrow> b \<in> {0..<nc_num_blocks c} \<and> key_of c b = Some k)"

lemma blocks_okD:
  assumes "blocks_ok M c"
  shows "dims_ok c" "b \<in># M \<Longrightarrow> 0 \<le> b \<and> b < nc_num_blocks c"
    "0 \<le> b \<Longrightarrow> b < nc_num_blocks c \<Longrightarrow> ref_of c b = int (count M b)"
    "0 \<le> b \<Longrightarrow> b < nc_num_blocks c \<Longrightarrow> key_of c b = None \<Longrightarrow> count M b \<le> 1"
    "nc_prefix_to_block c k = Some b \<longleftrightarrow> 0 \<le> b \<and> b < nc_num_blocks c \<and> key_of c b = Some k"
  using assms unfolding blocks_ok_def by auto

definition same_dims :: "NativePrefixCache \<Rightarrow> NativePrefixCache \<Rightarrow> bool" where
  "same_dims c c' \<longleftrightarrow> nc_num_blocks c' = nc_num_blocks c \<and> nc_blocks_per_sequence c' = nc_blocks_per_sequence c \<and>
     nc_block_size c' = nc_block_size c \<and> nc_active_tables c' = nc_active_tables c"

lemma same_dims_refl [simp]: "same_dims c c"
  by (simp add: same_dims_def)

lemma same_dims_trans: "same_dims a b \<Longrightarrow> same_dims b c \<Longrightarrow> same_dims a c"
  by (simp add: same_dims_def)

section \<open>Changing a block\<close>

lemma update_block_props:
  assumes "dims_ok c" "0 \<le> b" "b < nc_num_blocks c" "\<And>x. cb_block_id (f x) = cb_block_id x"
  shows "dims_ok (update_block b f c)" "same_dims c (update_block b f c)"
    "0 \<le> b' \<Longrightarrow> b' < nc_num_blocks c \<Longrightarrow> nc_blocks (update_block b f c) ! nat b' = (if b' = b then f (nc_blocks c ! nat b) else nc_blocks c ! nat b')"
    "nc_prefix_to_block (update_block b f c) = nc_prefix_to_block c"
  using assms by (auto simp: dims_ok_def same_dims_def update_block_def nth_list_update nat_eq_iff)

lemma unref_ok:
  assumes ok: "blocks_ok (add_mset b M) c"
  shows "blocks_ok M (unref_block b c)" "same_dims c (unref_block b c)" "0 \<le> ref_of (unref_block b c) b"
    "0 \<le> b' \<Longrightarrow> b' < nc_num_blocks c \<Longrightarrow> key_of (unref_block b c) b' = key_of c b'"
    "nc_prefix_to_block (unref_block b c) = nc_prefix_to_block c"
proof -
  note D = blocks_okD [OF ok]
  have b: "0 \<le> b" "b < nc_num_blocks c" using D(2) [of b] by auto
  note U = update_block_props [OF D(1) b, of "\<lambda>block. block\<lparr>cb_ref_count := cb_ref_count block - 1\<rparr>", folded unref_block_def, simplified]
  have n: "nc_num_blocks (unref_block b c) = nc_num_blocks c" using U(2) by (simp add: same_dims_def)
  have key: "key_of (unref_block b c) b' = key_of c b'" if "0 \<le> b'" "b' < nc_num_blocks c" for b'
    using that by (simp add: key_of_def U(3))
  have ref: "ref_of (unref_block b c) b' = ref_of c b' - (if b' = b then 1 else 0)" if "0 \<le> b'" "b' < nc_num_blocks c" for b'
    using that by (simp add: ref_of_def U(3))
  have cnt: "count M b' \<le> 1" if "0 \<le> b'" "b' < nc_num_blocks c" "key_of c b' = None" for b'
    using D(4) [OF that] by (auto split: if_splits)
  show "blocks_ok M (unref_block b c)"
    unfolding blocks_ok_def using U(1) D(2,3,5) key ref cnt by (auto simp: n U(4) subset_iff)
  show "same_dims c (unref_block b c)" "nc_prefix_to_block (unref_block b c) = nc_prefix_to_block c" by (rule U(2), rule U(4))
  show "0 \<le> ref_of (unref_block b c) b" using ref [OF b] D(3) [OF b] by simp
  show "0 \<le> b' \<Longrightarrow> b' < nc_num_blocks c \<Longrightarrow> key_of (unref_block b c) b' = key_of c b'" by (rule key)
qed

lemma unref_all_ok:
  "blocks_ok (mset bs + M) c \<Longrightarrow> blocks_ok M (fold unref_block bs c) \<and> same_dims c (fold unref_block bs c)"
proof (induction bs arbitrary: c)
  case (Cons b bs)
  then have "blocks_ok (mset bs + M) (unref_block b c)" "same_dims c (unref_block b c)" using unref_ok(1,2) [of b "mset bs + M" c] by simp_all
  then show ?case using Cons.IH same_dims_trans by auto
qed simp

section \<open>Acquiring a block\<close>

text \<open>What a successful acquisition does: a block with the key, not held before unless it was found by its key.\<close>

definition acquired :: "int multiset \<Rightarrow> int list option \<Rightarrow> int \<Rightarrow> bool \<Rightarrow> NativePrefixCache \<Rightarrow> NativePrefixCache \<Rightarrow> bool" where
  "acquired M key b hit c c' \<longleftrightarrow> blocks_ok (add_mset b M) c' \<and> same_dims c c' \<and> key_of c' b = key \<and>
     (hit \<longleftrightarrow> (\<exists>k. key = Some k \<and> nc_prefix_to_block c k \<noteq> None)) \<and> (\<not> hit \<longrightarrow> b \<notin># M) \<and> (\<forall>b'\<in>#M. key_of c' b' = key_of c b') \<and>
     (hit \<longrightarrow> nc_prefix_to_block c' = nc_prefix_to_block c)"

lemma clock_ok: "blocks_ok M (c\<lparr>nc_clock := t\<rparr>) = blocks_ok M c" "same_dims (c\<lparr>nc_clock := t\<rparr>) c' = same_dims c c'"
  "same_dims c (c'\<lparr>nc_clock := t\<rparr>) = same_dims c c'" "key_of (c\<lparr>nc_clock := t\<rparr>) = key_of c"
  by (auto simp: blocks_ok_def dims_ok_def same_dims_def key_of_def ref_of_def)

lemma free_block:
  assumes ok: "blocks_ok M c" and f: "filter (\<lambda>block. cb_ref_count block = 0) (nc_blocks c) = x # xs"
  shows "\<exists>b. py_max lt x xs = nc_blocks c ! nat b \<and> cb_block_id (py_max lt x xs) = b \<and> 0 \<le> b \<and> b < nc_num_blocks c \<and> b \<notin># M"
proof -
  note D = blocks_okD [OF ok]
  have "py_max lt x xs \<in> set (filter (\<lambda>block. cb_ref_count block = 0) (nc_blocks c))" unfolding f by (rule py_max_in)
  then obtain i where i: "i < length (nc_blocks c)" "py_max lt x xs = nc_blocks c ! i" "cb_ref_count (nc_blocks c ! i) = 0"
    by (auto simp: in_set_conv_nth)
  have "0 \<le> int i" "int i < nc_num_blocks c" "cb_block_id (nc_blocks c ! i) = int i" using D(1) i(1) by (auto simp: dims_ok_def)
  moreover have "int i \<notin># M" using D(3) [of "int i"] calculation i(3) by (simp add: ref_of_def not_in_iff)
  ultimately show ?thesis using i(2) by (intro exI [of _ "int i"]) simp
qed

text \<open>Taking a free block for a key that is not in the index.\<close>

definition take_block :: "int \<Rightarrow> int list option \<Rightarrow> NativePrefixCache \<Rightarrow> NativePrefixCache" where
  "take_block b key c =
     (let c = (case key_of c b of None \<Rightarrow> c | Some k \<Rightarrow> c\<lparr>nc_prefix_to_block := (nc_prefix_to_block c)(k := None)\<rparr>);
          c = update_block b (\<lambda>block. block\<lparr>cb_prefix_key := key, cb_ref_count := 1, cb_last_used := nc_clock c\<rparr>) c
      in case key of None \<Rightarrow> c | Some k \<Rightarrow> c\<lparr>nc_prefix_to_block := (nc_prefix_to_block c)(k \<mapsto> b)\<rparr>)"

lemma take_block_props:
  assumes "dims_ok c" and b: "0 \<le> b" "b < nc_num_blocks c"
  shows "dims_ok (take_block b key c)" "same_dims c (take_block b key c)"
    "0 \<le> b' \<Longrightarrow> b' < nc_num_blocks c \<Longrightarrow> key_of (take_block b key c) b' = (if b' = b then key else key_of c b')"
    "0 \<le> b' \<Longrightarrow> b' < nc_num_blocks c \<Longrightarrow> ref_of (take_block b key c) b' = (if b' = b then 1 else ref_of c b')"
    "nc_prefix_to_block (take_block b key c) k =
       (if key = Some k then Some b else if key_of c b = Some k then None else nc_prefix_to_block c k)"
  using assms
  by (auto simp: take_block_def Let_def dims_ok_def same_dims_def key_of_def ref_of_def update_block_def nth_list_update nat_eq_iff split: option.splits)

lemma take_block_ok:
  assumes ok: "blocks_ok M c" and b: "0 \<le> b" "b < nc_num_blocks c" "b \<notin># M" and new: "\<And>k. key = Some k \<Longrightarrow> nc_prefix_to_block c k = None"
  shows "acquired M key b False c (take_block b key c)"
proof -
  note D = blocks_okD [OF ok] and T = take_block_props [OF blocks_okD(1) [OF ok] b(1,2), where key = key]
  have n: "nc_num_blocks (take_block b key c) = nc_num_blocks c" using T(2) by (simp add: same_dims_def)
  have idx: "nc_prefix_to_block (take_block b key c) k = Some b' \<longleftrightarrow>
      0 \<le> b' \<and> b' < nc_num_blocks c \<and> key_of (take_block b key c) b' = Some k" for k b'
    using D(5) [of k b'] D(5) [of k b] new [of k] b T(3) [of b'] T(5) [of k] by (cases "b' = b") (auto split: if_splits)
  have "blocks_ok (add_mset b M) (take_block b key c)"
    unfolding blocks_ok_def using T(1,3,4) D(2,3,4) b idx by (auto simp: n not_in_iff)
  then show ?thesis using T(2,3) b D(2) new by (auto simp: acquired_def)
qed

lemma hit_ok:
  assumes ok: "blocks_ok M c" and k: "nc_prefix_to_block c k = Some b"
  shows "acquired M (Some k) b True c (update_block b (\<lambda>block. block\<lparr>cb_ref_count := cb_ref_count block + 1, cb_last_used := t\<rparr>) c)"
    (is "acquired _ _ _ _ _ ?c")
proof -
  note D = blocks_okD [OF ok]
  have b: "0 \<le> b" "b < nc_num_blocks c" "key_of c b = Some k" using D(5) [of k b] k by auto
  note U = update_block_props [OF D(1) b(1,2), of "\<lambda>block. block\<lparr>cb_ref_count := cb_ref_count block + 1, cb_last_used := t\<rparr>", simplified]
  have n: "nc_num_blocks ?c = nc_num_blocks c" using U(2) by (simp add: same_dims_def)
  have key: "key_of ?c b' = key_of c b'" if "0 \<le> b'" "b' < nc_num_blocks c" for b' using that by (simp add: key_of_def U(3))
  have ref: "ref_of ?c b' = ref_of c b' + (if b' = b then 1 else 0)" if "0 \<le> b'" "b' < nc_num_blocks c" for b'
    using that by (simp add: ref_of_def U(3))
  have "blocks_ok (add_mset b M) ?c"
    unfolding blocks_ok_def using U(1) D(2,3,4,5) key ref b by (auto simp: n U(4))
  then show ?thesis using U(2,4) key b D(2) k by (auto simp: acquired_def)
qed

lemma acquire_block_ok:
  assumes ok: "blocks_ok M c"
  shows "(\<exists>b hit c'. acquire_block key c = (Inr (b, hit), c') \<and> acquired M key b hit c c') \<or>
    acquire_block key c = (Inl (RuntimeError ''no free physical blocks''), c\<lparr>nc_clock := nc_clock c + 1\<rparr>) \<and>
      Option.bind key (nc_prefix_to_block c) = None \<and> {0..<nc_num_blocks c} \<subseteq> set_mset M"
proof -
  define c1 where "c1 = c\<lparr>nc_clock := nc_clock c + 1\<rparr>"
  have ok1: "blocks_ok M c1" using ok by (simp add: c1_def clock_ok)
  have same: "acquired M key b hit c1 c' = acquired M key b hit c c'" for b hit c' by (simp add: acquired_def c1_def clock_ok)
  show ?thesis
  proof (cases "Option.bind key (nc_prefix_to_block c1)")
    case (Some b)
    then obtain k where k: "key = Some k" "nc_prefix_to_block c1 k = Some b" by (cases key) auto
    let ?f = "\<lambda>block. block\<lparr>cb_ref_count := cb_ref_count block + 1, cb_last_used := nc_clock c1\<rparr>"
    have "cb_block_id (nc_blocks c1 ! nat b) = b"
      using blocks_okD(1) [OF ok1] blocks_okD(5) [OF ok1, of k b] k(2) by (auto simp: dims_ok_def)
    then have "acquire_block key c = (Inr (b, True), update_block b ?f c1)"
      unfolding acquire_block_def Let_def c1_def [symmetric] Some by simp
    moreover have "acquired M key b True c (update_block b ?f c1)" using hit_ok [OF ok1 k(2)] unfolding k(1) [symmetric] same .
    ultimately show ?thesis by blast
  next
    case None
    then have new: "key = Some k \<Longrightarrow> nc_prefix_to_block c1 k = None" for k by auto
    show ?thesis
    proof (cases "filter (\<lambda>block. cb_ref_count block = 0) (nc_blocks c1)")
      case Nil
      have "b \<in># M" if "0 \<le> b" "b < nc_num_blocks c" for b
      proof -
        have "nat b < length (nc_blocks c1)" using that blocks_okD(1) [OF ok1] by (simp add: dims_ok_def c1_def)
        then have "ref_of c1 b \<noteq> 0" using Nil by (auto simp: filter_empty_conv ref_of_def)
        then show ?thesis using blocks_okD(3) [OF ok1, of b] that by (auto simp: c1_def count_inI)
      qed
      moreover have "acquire_block key c = (Inl (RuntimeError ''no free physical blocks''), c1)"
        unfolding acquire_block_def Let_def c1_def [symmetric] None Nil by simp
      ultimately show ?thesis using None by (auto simp: c1_def)
    next
      case (Cons x xs)
      from free_block [OF ok1 this, of "\<lambda>a b. candidate_block_less b a"] obtain b where
        b: "py_max (\<lambda>a b. candidate_block_less b a) x xs = nc_blocks c1 ! nat b" "cb_block_id (nc_blocks c1 ! nat b) = b"
          "0 \<le> b" "b < nc_num_blocks c1" "b \<notin># M" by auto
      have "acquire_block key c = (Inr (b, False), take_block b key c1)"
        unfolding acquire_block_def Let_def c1_def [symmetric] None Cons
        by (cases "cb_prefix_key (nc_blocks c1 ! nat b)"; cases key) (simp_all add: b take_block_def Let_def key_of_def)
      moreover have "acquired M key b False c (take_block b key c1)"
        using take_block_ok [OF ok1 b(3,4,5), of key] new unfolding same by simp
      ultimately show ?thesis by blast
    qed
  qed
qed

end
