(* ===== verification/PrefixCacheBatch.thy ===== *)
theory PrefixCacheBatch
  imports PrefixCacheBlocks
begin

text \<open>The operations on a batch keep the invariant, and what the tables of an allocation contain.\<close>

section \<open>The blocks of a prompt\<close>

text \<open>Between two states of an allocation in progress, blocks are only added and held blocks keep their keys.\<close>

definition grows :: "int list \<Rightarrow> NativePrefixCache \<Rightarrow> int list \<Rightarrow> NativePrefixCache \<Rightarrow> bool" where
  "grows acq c acq' c' \<longleftrightarrow> blocks_ok (mset acq') c' \<and> same_dims c c' \<and> set acq \<subseteq> set acq' \<and> (\<forall>b\<in>set acq. key_of c' b = key_of c b)"

lemma grows_refl: "blocks_ok (mset acq) c \<Longrightarrow> grows acq c acq c"
  by (simp add: grows_def)

lemma grows_trans: "grows a c a' c' \<Longrightarrow> grows a' c' a'' c'' \<Longrightarrow> grows a c a'' c''"
  unfolding grows_def using same_dims_trans by (metis subsetD subset_trans)

lemma acquired_grows: "acquired (mset acq) key b hit c c' \<Longrightarrow> grows acq c (acq @ [b]) c'"
  by (auto simp: acquired_def grows_def)

text \<open>The hits among the logical blocks \<open>ks\<close>, of which only those with a key can be.\<close>

abbreviation keyed :: "bool \<Rightarrow> int \<Rightarrow> int list \<Rightarrow> nat list \<Rightarrow> nat list" where
  "keyed en bs prompt ks \<equiv> filter (\<lambda>k. block_key en bs prompt k \<noteq> None) ks"

lemma allocate_blocks_ok:
  assumes "blocks_ok (mset acq) c" "distinct ks" "\<forall>k\<in>set ks. k < length table"
  shows "case allocate_blocks en prompt ks table cached acq c of
     (Inl e, acq', c') \<Rightarrow> grows acq c acq' c' \<and> e = RuntimeError ''no free physical blocks'' \<and> nc_num_blocks c < int (length acq + length ks)
   | (Inr (table', cached'), acq', c') \<Rightarrow> grows acq c acq' c' \<and> acq' = acq @ map ((!) table') ks \<and> length table' = length table \<and>
       (\<forall>j. j \<notin> set ks \<longrightarrow> table' ! j = table ! j) \<and> (\<forall>k\<in>set ks. key_of c' (table' ! k) = block_key en (nc_block_size c) prompt k) \<and>
       (\<exists>h\<le>length (keyed en (nc_block_size c) prompt ks). cached' = cached + nc_block_size c * int h)"
  using assms
proof (induction ks arbitrary: table cached acq c)
  case Nil
  then show ?case by (simp add: grows_refl)
next
  case (Cons k ks)
  let ?key = "block_key en (nc_block_size c) prompt k"
  from acquire_block_ok [OF Cons.prems(1), of ?key] show ?case
  proof (elim disjE exE conjE)
    fix b hit c1 assume a: "acquire_block ?key c = (Inr (b, hit), c1)" and acq: "acquired (mset acq) ?key b hit c c1"
    have g: "grows acq c (acq @ [b]) c1" and k: "key_of c1 b = ?key" and bs: "nc_block_size c1 = nc_block_size c" "nc_num_blocks c1 = nc_num_blocks c"
      and hit: "hit \<Longrightarrow> ?key \<noteq> None" using acq acquired_grows [OF acq] by (auto simp: acquired_def same_dims_def)
    let ?r = "allocate_blocks en prompt ks (table[k := b]) (if hit then cached + nc_block_size c1 else cached) (acq @ [b]) c1"
    have IH: "case ?r of
     (Inl e, acq', c') \<Rightarrow> grows (acq @ [b]) c1 acq' c' \<and> e = RuntimeError ''no free physical blocks'' \<and> nc_num_blocks c1 < int (length (acq @ [b]) + length ks)
   | (Inr (table', cached'), acq', c') \<Rightarrow> grows (acq @ [b]) c1 acq' c' \<and> acq' = (acq @ [b]) @ map ((!) table') ks \<and> length table' = length (table[k := b]) \<and>
       (\<forall>j. j \<notin> set ks \<longrightarrow> table' ! j = (table[k := b]) ! j) \<and> (\<forall>k\<in>set ks. key_of c' (table' ! k) = block_key en (nc_block_size c1) prompt k) \<and>
       (\<exists>h\<le>length (keyed en (nc_block_size c1) prompt ks). cached' = (if hit then cached + nc_block_size c1 else cached) + nc_block_size c1 * int h)"
      using Cons.IH [of "acq @ [b]" c1 "table[k := b]"] g Cons.prems(2,3) by (simp add: grows_def)
    have r: "allocate_blocks en prompt (k # ks) table cached acq c = ?r" by (simp add: a)
    obtain res acq' c' where rr: "?r = (res, acq', c')" by (metis prod_cases3)
    show ?thesis
    proof (cases res)
      case (Inl e)
      then show ?thesis using IH grows_trans [OF g] unfolding r rr by (simp add: bs)
    next
      case (Inr tc)
      obtain table' cached' where tc: "tc = (table', cached')" by (cases tc)
      have I: "grows (acq @ [b]) c1 acq' c'" "acq' = (acq @ [b]) @ map ((!) table') ks" "length table' = length table"
        "\<And>j. j \<notin> set ks \<Longrightarrow> table' ! j = (table[k := b]) ! j" "\<And>k. k \<in> set ks \<Longrightarrow> key_of c' (table' ! k) = block_key en (nc_block_size c) prompt k"
        "\<exists>h\<le>length (keyed en (nc_block_size c) prompt ks). cached' = (if hit then cached + nc_block_size c else cached) + nc_block_size c * int h"
        using IH unfolding rr Inr tc by (auto simp: bs)
      have tk: "table' ! k = b" using I(4) [of k] Cons.prems(2,3) by simp
      have kb: "key_of c' b = ?key" using I(1) k by (simp add: grows_def)
      obtain h where h: "h \<le> length (keyed en (nc_block_size c) prompt ks)" "cached' = (if hit then cached + nc_block_size c else cached) + nc_block_size c * int h"
        using I(6) by blast
      have "\<exists>h\<le>length (keyed en (nc_block_size c) prompt (k # ks)). cached' = cached + nc_block_size c * int h"
        using h hit by (intro exI [of _ "if hit then Suc h else h"]) (auto simp: algebra_simps)
      then show ?thesis using grows_trans [OF g I(1)] I(2,3,4,5) tk kb unfolding r rr Inr tc by auto
    qed
  next
    assume a: "acquire_block ?key c = (Inl (RuntimeError ''no free physical blocks''), c\<lparr>nc_clock := nc_clock c + 1\<rparr>)"
      and full: "{0..<nc_num_blocks c} \<subseteq> set_mset (mset acq)"
    have "nc_num_blocks c \<le> int (card (set acq))" using card_mono [of "set acq" "{0..<nc_num_blocks c}"] full by simp
    then have "nc_num_blocks c < int (length acq + length (k # ks))" using card_length [of acq] by simp
    then show ?thesis using a Cons.prems(1) by (simp add: grows_def clock_ok)
  qed
qed

section \<open>The tables of a batch\<close>

text \<open>
  The table of a prompt: a block for each of its logical blocks, under the key of the prefix where it has
  one, and nothing behind; the number of tokens reported as cached leaves at least the last token.
\<close>

definition table_for :: "bool \<Rightarrow> NativePrefixCache \<Rightarrow> int list \<Rightarrow> int list \<Rightarrow> int \<Rightarrow> bool" where
  "table_for en c prompt t cached \<longleftrightarrow>
     length t = nat (nc_blocks_per_sequence c) \<and> num_prompt_blocks (nc_block_size c) prompt \<le> length t \<and>
     (\<forall>k<num_prompt_blocks (nc_block_size c) prompt.
        0 \<le> t ! k \<and> t ! k < nc_num_blocks c \<and> key_of c (t ! k) = block_key en (nc_block_size c) prompt k) \<and>
     (\<forall>k<length t. num_prompt_blocks (nc_block_size c) prompt \<le> k \<longrightarrow> t ! k = -1) \<and>
     0 \<le> cached \<and> cached \<le> max 0 (int (length prompt) - 1) \<and> nc_block_size c dvd cached"

definition held :: "int list list \<Rightarrow> int list" where
  "held ts = filter (\<lambda>b. b \<noteq> -1) (concat ts)"

lemma held_simps [simp]: "held [] = []" "held (t # ts) = filter (\<lambda>b. b \<noteq> -1) t @ held ts"
  by (simp_all add: held_def)

lemma table_for_held:
  assumes "table_for en c prompt t cached"
  shows "filter (\<lambda>b. b \<noteq> -1) t = map ((!) t) [0..<num_prompt_blocks (nc_block_size c) prompt]"
proof -
  let ?m = "num_prompt_blocks (nc_block_size c) prompt"
  have t: "t = map ((!) t) [0..<?m] @ replicate (length t - ?m) (-1)"
  proof (rule nth_equalityI)
    show len: "length t = length (map ((!) t) [0..<?m] @ replicate (length t - ?m) (-1))" using assms by (simp add: table_for_def)
    show "t ! i = (map ((!) t) [0..<?m] @ replicate (length t - ?m) (-1)) ! i" if "i < length t" for i
      using assms that by (cases "i < ?m") (auto simp: table_for_def nth_append)
  qed
  have "filter (\<lambda>b. b \<noteq> -1) (map ((!) t) [0..<?m]) = map ((!) t) [0..<?m]"
  proof (rule filter_True, rule ballI)
    fix x assume "x \<in> set (map ((!) t) [0..<?m])"
    then obtain k where "k < ?m" "x = t ! k" by auto
    then show "x \<noteq> -1" using assms unfolding table_for_def by (metis neg_0_le_iff_le not_one_le_zero)
  qed
  then have "filter (\<lambda>b. b \<noteq> -1) (map ((!) t) [0..<?m] @ replicate (length t - ?m) (-1)) = map ((!) t) [0..<?m]"
    by (simp add: filter_replicate)
  then show ?thesis unfolding t [symmetric] .
qed

lemma table_for_mono:
  assumes "table_for en c prompt t cached" "same_dims c c'" "\<And>b. b \<in> set t \<Longrightarrow> b \<noteq> -1 \<Longrightarrow> key_of c' b = key_of c b"
  shows "table_for en c' prompt t cached"
proof -
  have "key_of c' (t ! k) = key_of c (t ! k)" if "k < num_prompt_blocks (nc_block_size c) prompt" for k
  proof (rule assms(3))
    have "k < length t" "0 \<le> t ! k" using assms(1) that by (simp_all add: table_for_def)
    then show "t ! k \<in> set t" "t ! k \<noteq> -1" by auto
  qed
  then show ?thesis using assms(1,2) by (auto simp: table_for_def same_dims_def)
qed

lemma keyed_count:
  assumes "0 < bs"
  shows "bs * int (length (keyed en bs prompt [0..<m])) \<le> max 0 (int (length prompt) - 1)"
proof -
  let ?full = "max 0 (int (length prompt) - 1) div bs"
  have pos: "0 \<le> ?full" using assms by (simp add: pos_imp_zdiv_nonneg_iff)
  have "set (keyed en bs prompt [0..<m]) \<subseteq> {..<nat ?full}" using pos by (auto simp: block_key_def Let_def split: if_splits)
  from card_mono [OF _ this] have "card (set (keyed en bs prompt [0..<m])) \<le> nat ?full" by simp
  then have "int (length (keyed en bs prompt [0..<m])) \<le> ?full" using pos by (simp add: distinct_card del: set_filter)
  then have "bs * int (length (keyed en bs prompt [0..<m])) \<le> bs * ?full" using assms by simp
  also have "\<dots> \<le> max 0 (int (length prompt) - 1)" using assms by (simp add: minus_mod_eq_mult_div [symmetric])
  finally show ?thesis .
qed

lemma num_prompt_blocks_le:
  assumes "0 < bs" "0 < n" "int (length prompt) \<le> n * bs"
  shows "num_prompt_blocks bs prompt \<le> nat n"
proof -
  have "int (length prompt) + bs - 1 < (n + 1) * bs" using assms by (simp add: algebra_simps)
  moreover have "(int (length prompt) + bs - 1) div bs * bs \<le> int (length prompt) + bs - 1"
    using pos_mod_sign [OF assms(1), of "int (length prompt) + bs - 1"] by (simp add: minus_mod_eq_div_mult [symmetric])
  ultimately have "(int (length prompt) + bs - 1) div bs * bs < (n + 1) * bs" by linarith
  then have "(int (length prompt) + bs - 1) div bs < n + 1" using assms(1) by (simp only: mult_less_cancel_right_pos)
  then show ?thesis by (simp add: num_prompt_blocks_def nat_mono)
qed

abbreviation too_long :: "NativePrefixCache \<Rightarrow> int list \<Rightarrow> bool" where
  "too_long c prompt \<equiv> int (length prompt) > nc_blocks_per_sequence c * nc_block_size c"

text \<open>The blocks that a batch needs when nothing is cached.\<close>

definition blocks_needed :: "NativePrefixCache \<Rightarrow> int list list \<Rightarrow> nat" where
  "blocks_needed c prompts = sum_list (map (num_prompt_blocks (nc_block_size c)) prompts)"

lemma allocate_prompt_ok:
  assumes ok: "blocks_ok (mset acq) c" and len: "\<not> too_long c prompt"
    and r: "allocate_blocks en prompt [0..<num_prompt_blocks (nc_block_size c) prompt] (replicate (nat (nc_blocks_per_sequence c)) (-1)) 0 acq c =
      (Inr (t, cached), acq', c')"
  shows "grows acq c acq' c'" "acq' = acq @ filter (\<lambda>b. b \<noteq> -1) t" "table_for en c' prompt t cached"
    "length (filter (\<lambda>b. b \<noteq> -1) t) = num_prompt_blocks (nc_block_size c) prompt"
proof -
  let ?m = "num_prompt_blocks (nc_block_size c) prompt"
  have pos: "0 < nc_block_size c" "0 < nc_blocks_per_sequence c" using blocks_okD(1) [OF ok] by (auto simp: dims_ok_def)
  have m: "?m \<le> nat (nc_blocks_per_sequence c)" using num_prompt_blocks_le [OF pos] len by simp
  from allocate_blocks_ok [OF ok, of "[0..<?m]" "replicate (nat (nc_blocks_per_sequence c)) (-1)" en prompt 0] m
  have g: "grows acq c acq' c'" and acq': "acq' = acq @ map ((!) t) [0..<?m]" and lt: "length t = nat (nc_blocks_per_sequence c)"
    and out: "\<And>j. \<not> j < ?m \<Longrightarrow> t ! j = replicate (nat (nc_blocks_per_sequence c)) (-1) ! j"
    and key: "\<And>k. k < ?m \<Longrightarrow> key_of c' (t ! k) = block_key en (nc_block_size c) prompt k"
    and h: "\<exists>h\<le>length (keyed en (nc_block_size c) prompt [0..<?m]). cached = nc_block_size c * int h"
    unfolding r by auto
  have dims: "nc_block_size c' = nc_block_size c" "nc_blocks_per_sequence c' = nc_blocks_per_sequence c" "nc_num_blocks c' = nc_num_blocks c"
    using g by (auto simp: grows_def same_dims_def)
  obtain h where h: "h \<le> length (keyed en (nc_block_size c) prompt [0..<?m])" "cached = nc_block_size c * int h" using h by blast
  have "cached \<le> nc_block_size c * int (length (keyed en (nc_block_size c) prompt [0..<?m]))"
    unfolding h(2) using h(1) pos(1) by (intro mult_left_mono) simp_all
  then have "cached \<le> max 0 (int (length prompt) - 1)" using keyed_count [OF pos(1), of en prompt ?m] by linarith
  moreover have "0 \<le> cached" "nc_block_size c dvd cached" using h(2) pos(1) by simp_all
  moreover have "0 \<le> t ! k \<and> t ! k < nc_num_blocks c" if "k < ?m" for k
    using g blocks_okD(2) [of "mset acq'" c' "t ! k"] that dims by (auto simp: grows_def acq')
  moreover have "t ! k = -1" if "k < length t" "?m \<le> k" for k using out [of k] that lt by simp
  ultimately show tf: "table_for en c' prompt t cached" using key lt m by (simp add: table_for_def dims)
  show "grows acq c acq' c'" by (rule g)
  show "acq' = acq @ filter (\<lambda>b. b \<noteq> -1) t" "length (filter (\<lambda>b. b \<noteq> -1) t) = ?m" using table_for_held [OF tf] acq' by (simp_all add: dims)
qed

lemma allocate_prompts_ok:
  assumes "blocks_ok (mset acq) c"
  shows "case allocate_prompts en prompts acq c of
     (Inl e, acq', c') \<Rightarrow> grows acq c acq' c' \<and> (list_ex (too_long c) prompts \<or> nc_num_blocks c < int (length acq + blocks_needed c prompts))
   | (Inr (tables, counts), acq', c') \<Rightarrow> grows acq c acq' c' \<and> acq' = acq @ held tables \<and> length counts = length tables \<and>
       list_all2 (\<lambda>prompt (t, cached). table_for en c' prompt t cached) prompts (zip tables counts)"
  using assms
proof (induction prompts arbitrary: acq c)
  case Nil
  then show ?case by (simp add: grows_refl)
next
  case (Cons p ps)
  show ?case
  proof (cases "too_long c p")
    case True
    then show ?thesis using Cons.prems by (simp add: grows_refl)
  next
    case False
    let ?m = "num_prompt_blocks (nc_block_size c) p"
    let ?a = "allocate_blocks en p [0..<?m] (replicate (nat (nc_blocks_per_sequence c)) (-1)) 0 acq c"
    have pos: "0 < nc_block_size c" "0 < nc_blocks_per_sequence c" using blocks_okD(1) [OF Cons.prems] by (auto simp: dims_ok_def)
    have m: "?m \<le> nat (nc_blocks_per_sequence c)" using num_prompt_blocks_le [OF pos] False by simp
    obtain r acq1 c1 where a: "?a = (r, acq1, c1)" by (metis prod_cases3)
    show ?thesis
    proof (cases r)
      case (Inl e)
      have "grows acq c acq1 c1 \<and> nc_num_blocks c < int (length acq + ?m)"
        using allocate_blocks_ok [OF Cons.prems, of "[0..<?m]" "replicate (nat (nc_blocks_per_sequence c)) (-1)" en p 0] m unfolding a Inl by simp
      then show ?thesis using False a Inl by (simp add: blocks_needed_def)
    next
      case (Inr tc)
      obtain t cached where tc: "tc = (t, cached)" by (cases tc)
      note A = allocate_prompt_ok [OF Cons.prems False, of en t cached acq1 c1, unfolded a Inr tc, OF refl]
      have ok1: "blocks_ok (mset acq1) c1" and dims: "same_dims c c1" using A(1) by (auto simp: grows_def)
      obtain r2 acq2 c2 where b: "allocate_prompts en ps acq1 c1 = (r2, acq2, c2)" by (metis prod_cases3)
      note IH = Cons.IH [OF ok1, unfolded b]
      show ?thesis
      proof (cases r2)
        case (Inl e)
        have "length acq1 = length acq + ?m" using A(2,4) by simp
        then show ?thesis using IH False a b Inr tc Inl dims grows_trans [OF A(1)] by (auto simp: blocks_needed_def same_dims_def)
      next
        case I2: (Inr tc2)
        obtain ts counts where tc2: "tc2 = (ts, counts)" by (cases tc2)
        have g2: "grows acq1 c1 acq2 c2" and rest: "acq2 = acq1 @ held ts" "length counts = length ts"
          "list_all2 (\<lambda>prompt (t, cached). table_for en c2 prompt t cached) ps (zip ts counts)" using IH by (auto simp: I2 tc2)
        have "table_for en c2 p t cached"
          using g2 A(2) by (intro table_for_mono [OF A(3)]) (auto simp: grows_def)
        then show ?thesis using rest A(2) grows_trans [OF A(1) g2] False a b Inr tc I2 tc2 by simp
      qed
    qed
  qed
qed

end
