(* ===== verification/PrefixCacheRuns.thy ===== *)
theory PrefixCacheRuns
  imports PrefixCacheBatch
begin

text \<open>The invariant of the cache between calls, and that every call keeps it, whatever its outcome.\<close>

section \<open>Between calls\<close>

definition tables_of :: "NativePrefixCache \<Rightarrow> int list list" where
  "tables_of c = (case nc_active_tables c of None \<Rightarrow> [] | Some ts \<Rightarrow> ts)"

definition cache_ok :: "NativePrefixCache \<Rightarrow> bool" where
  "cache_ok c \<longleftrightarrow> blocks_ok (mset (held (tables_of c))) c \<and> (\<forall>t\<in>set (tables_of c). length t = nat (nc_blocks_per_sequence c))"

lemma active_irrelevant [simp]: "blocks_ok M (c\<lparr>nc_active_tables := x\<rparr>) = blocks_ok M c" "key_of (c\<lparr>nc_active_tables := x\<rparr>) = key_of c"
  "ref_of (c\<lparr>nc_active_tables := x\<rparr>) = ref_of c" "table_for en (c\<lparr>nc_active_tables := x\<rparr>) = table_for en c"
  by (auto simp: blocks_ok_def dims_ok_def key_of_def ref_of_def table_for_def fun_eq_iff)

lemma prefix_cache_init_ok: "prefix_cache_init n bps bs = Inr c \<Longrightarrow> cache_ok c"
  by (auto simp: prefix_cache_init_def cache_ok_def tables_of_def blocks_ok_def dims_ok_def key_of_def ref_of_def split: if_splits)

section \<open>Allocation\<close>

lemma allocate_returned:
  assumes ok: "cache_ok c" and r: "allocate prompts en c = (Inr al, c')"
  shows "nc_active_tables c = None" "nc_active_tables c' = Some (al_block_tables al)" "cache_ok c'"
    "length (al_num_cached_tokens al) = length (al_block_tables al)"
    "list_all2 (\<lambda>prompt (t, cached). table_for en c' prompt t cached) prompts (zip (al_block_tables al) (al_num_cached_tokens al))"
    "nc_num_blocks c' = nc_num_blocks c" "nc_block_size c' = nc_block_size c" "nc_blocks_per_sequence c' = nc_blocks_per_sequence c"
proof -
  show none: "nc_active_tables c = None" using r by (auto simp: allocate_def split: if_splits)
  have ok0: "blocks_ok (mset []) c" using ok none by (simp add: cache_ok_def tables_of_def)
  obtain ts counts acq c1 where p: "allocate_prompts en prompts [] c = (Inr (ts, counts), acq, c1)"
    and al: "al = \<lparr>al_block_tables = ts, al_num_cached_tokens = counts\<rparr>" and c': "c' = c1\<lparr>nc_active_tables := Some ts\<rparr>"
    using r none by (auto simp: allocate_def split: sum.splits prod.splits)
  have g: "grows [] c (held ts) c1" and len: "length counts = length ts"
    and tf: "list_all2 (\<lambda>prompt (t, cached). table_for en c1 prompt t cached) prompts (zip ts counts)"
    using allocate_prompts_ok [OF ok0, where en = en and prompts = prompts] unfolding p by auto
  show "nc_active_tables c' = Some (al_block_tables al)" "length (al_num_cached_tokens al) = length (al_block_tables al)"
    "list_all2 (\<lambda>prompt (t, cached). table_for en c' prompt t cached) prompts (zip (al_block_tables al) (al_num_cached_tokens al))"
    using tf len by (simp_all add: al c')
  show "nc_num_blocks c' = nc_num_blocks c" "nc_block_size c' = nc_block_size c" "nc_blocks_per_sequence c' = nc_blocks_per_sequence c"
    using g by (simp_all add: grows_def same_dims_def c')
  have "length t = nat (nc_blocks_per_sequence c1)" if mem: "t \<in> set ts" for t
  proof -
    obtain i where i: "i < length ts" "t = ts ! i" using mem by (auto simp: in_set_conv_nth)
    then show ?thesis using list_all2_nthD2 [OF tf, of i] len by (simp add: table_for_def)
  qed
  then show "cache_ok c'" using g by (simp add: cache_ok_def tables_of_def c' grows_def)
qed

lemma allocate_raised:
  assumes ok: "cache_ok c" and r: "allocate prompts en c = (Inl e, c')"
  shows "cache_ok c'" "nc_active_tables c' = nc_active_tables c"
    "nc_active_tables c \<noteq> None \<or> list_ex (too_long c) prompts \<or> nc_num_blocks c < int (blocks_needed c prompts)"
proof -
  have "cache_ok c' \<and> nc_active_tables c' = nc_active_tables c \<and>
    (nc_active_tables c \<noteq> None \<or> list_ex (too_long c) prompts \<or> nc_num_blocks c < int (blocks_needed c prompts))"
  proof (cases "nc_active_tables c")
    case (Some ts)
    then show ?thesis using ok r by (simp add: allocate_def)
  next
    case None
    have ok0: "blocks_ok (mset []) c" using ok None by (simp add: cache_ok_def tables_of_def)
    obtain acq c1 where p: "allocate_prompts en prompts [] c = (Inl e, acq, c1)" and c': "c' = fold unref_block acq c1"
      using r None by (auto simp: allocate_def split: sum.splits prod.splits)
    have g: "blocks_ok (mset acq + {#}) c1" "same_dims c c1" and why: "list_ex (too_long c) prompts \<or> nc_num_blocks c < int (blocks_needed c prompts)"
      using allocate_prompts_ok [OF ok0, where en = en and prompts = prompts] unfolding p by (auto simp: grows_def)
    have "blocks_ok {#} c'" "same_dims c c'" using unref_all_ok [OF g(1)] g(2) same_dims_trans unfolding c' by blast+
    then show ?thesis using None why by (simp add: cache_ok_def tables_of_def same_dims_def)
  qed
  then show "cache_ok c'" "nc_active_tables c' = nc_active_tables c"
    "nc_active_tables c \<noteq> None \<or> list_ex (too_long c) prompts \<or> nc_num_blocks c < int (blocks_needed c prompts)" by auto
qed

section \<open>Release\<close>

lemma release_table_ok:
  "blocks_ok (mset (filter (\<lambda>b. b \<noteq> -1) t) + M) c \<Longrightarrow>
    \<exists>c'. release_table t c = (Inr (), c') \<and> blocks_ok M c' \<and> same_dims c c' \<and> nc_prefix_to_block c' = nc_prefix_to_block c"
proof (induction t arbitrary: c)
  case (Cons b t)
  show ?case
  proof (cases "b = -1")
    case True
    then show ?thesis using Cons by simp
  next
    case False
    then have ok: "blocks_ok (add_mset b (mset (filter (\<lambda>b. b \<noteq> -1) t) + M)) c" using Cons.prems by simp
    note U = unref_ok [OF ok]
    obtain c' where "release_table t (unref_block b c) = (Inr (), c')" "blocks_ok M c'" "same_dims (unref_block b c) c'"
      "nc_prefix_to_block c' = nc_prefix_to_block (unref_block b c)" using Cons.IH [OF U(1)] by blast
    then show ?thesis using U(3,5) False same_dims_trans [OF U(2)] by (auto simp: ref_of_def Let_def)
  qed
qed simp

lemma release_tables_ok:
  "blocks_ok (mset (held ts) + M) c \<Longrightarrow>
    \<exists>c'. release_tables ts c = (Inr (), c') \<and> blocks_ok M c' \<and> same_dims c c' \<and> nc_prefix_to_block c' = nc_prefix_to_block c"
proof (induction ts arbitrary: c)
  case (Cons t ts)
  obtain c1 where t: "release_table t c = (Inr (), c1)" "blocks_ok (mset (held ts) + M) c1" "same_dims c c1"
    "nc_prefix_to_block c1 = nc_prefix_to_block c"
    using release_table_ok [of t "mset (held ts) + M" c] Cons.prems by (auto simp: add.assoc)
  obtain c' where "release_tables ts c1 = (Inr (), c')" "blocks_ok M c'" "same_dims c1 c'" "nc_prefix_to_block c' = nc_prefix_to_block c1"
    using Cons.IH [OF t(2)] by blast
  then show ?case using t same_dims_trans [OF t(3)] by auto
qed simp

lemma release_ok:
  assumes ok: "cache_ok c"
  shows "\<exists>c'. release c = (Inr (), c') \<and> cache_ok c' \<and> nc_active_tables c' = None \<and> nc_prefix_to_block c' = nc_prefix_to_block c \<and>
    nc_num_blocks c' = nc_num_blocks c \<and> nc_block_size c' = nc_block_size c \<and> nc_blocks_per_sequence c' = nc_blocks_per_sequence c"
proof (cases "nc_active_tables c")
  case None
  then show ?thesis using ok by (simp add: release_def)
next
  case (Some ts)
  have "blocks_ok (mset (held ts) + {#}) c" using ok Some by (simp add: cache_ok_def tables_of_def)
  from release_tables_ok [OF this] Some show ?thesis by (auto simp: release_def cache_ok_def tables_of_def same_dims_def)
qed

section \<open>Growth\<close>

abbreviation set_entry :: "int list list \<Rightarrow> nat \<Rightarrow> nat \<Rightarrow> int \<Rightarrow> int list list" where
  "set_entry ts s k b \<equiv> ts[s := (ts ! s)[k := b]]"

lemma held_table_set:
  assumes "k < length t" "t ! k = -1" "b \<noteq> -1"
  shows "mset (filter (\<lambda>b. b \<noteq> -1) (t[k := b])) = add_mset b (mset (filter (\<lambda>b. b \<noteq> -1) t))"
  using assms by (simp add: mset_update)

lemma held_set:
  assumes "s < length ts" "k < length (ts ! s)" "ts ! s ! k = -1" "b \<noteq> -1"
  shows "mset (held (set_entry ts s k b)) = add_mset b (mset (held ts))"
  using assms
proof (induction ts arbitrary: s)
  case (Cons t ts)
  then show ?case using held_table_set [of k t b] by (cases s) (auto simp del: mset_filter)
qed simp

text \<open>The page tables after the updates that \<^const>\<open>ensure_capacity\<close> returns.\<close>

definition apply_updates :: "(int \<times> int \<times> int) list \<Rightarrow> int list list \<Rightarrow> int list list" where
  "apply_updates us ts = fold (\<lambda>(s, k, b) ts. set_entry ts (nat s) (nat k) b) us ts"

definition covered :: "int \<Rightarrow> int list list \<Rightarrow> int \<times> int \<Rightarrow> bool" where
  "covered bs ts w \<longleftrightarrow> 0 \<le> fst w \<and> fst w < int (length ts) \<and> ts ! nat (fst w) ! nat (snd w div bs) \<noteq> -1"

text \<open>Tables only grow: same shape, and entries that were set keep their block.\<close>

definition extends :: "int list list \<Rightarrow> int list list \<Rightarrow> bool" where
  "extends ts ts' \<longleftrightarrow> map length ts' = map length ts \<and> (\<forall>s<length ts. \<forall>k<length (ts ! s). ts ! s ! k \<noteq> -1 \<longrightarrow> ts' ! s ! k = ts ! s ! k)"

lemma extends_refl [simp]: "extends ts ts"
  by (simp add: extends_def)

lemma extends_lengths: "extends ts ts' \<Longrightarrow> length ts' = length ts" "extends ts ts' \<Longrightarrow> s < length ts \<Longrightarrow> length (ts' ! s) = length (ts ! s)"
  unfolding extends_def by (metis length_map) (metis length_map nth_map)

lemma extends_trans: "extends a b \<Longrightarrow> extends b c \<Longrightarrow> extends a c"
  using extends_lengths [of a b] unfolding extends_def by (metis (no_types, lifting))

lemma extends_set:
  assumes "s < length ts" "k < length (ts ! s)" "ts ! s ! k = -1"
  shows "extends ts (set_entry ts s k b)"
  using assms unfolding extends_def by (auto simp: nth_list_update map_update list_update_same_conv)

lemma extends_covered:
  assumes "extends ts ts'" "covered bs ts w" "nat (snd w div bs) < length (ts ! nat (fst w))"
  shows "covered bs ts' w"
  using assms extends_lengths(1) [OF assms(1)] by (auto simp: covered_def extends_def)

text \<open>What a successful call guarantees, for positions that are not negative.\<close>

definition grown :: "NativePrefixCache \<Rightarrow> (int \<times> int) list \<Rightarrow> int list list \<Rightarrow> (int \<times> int \<times> int) list \<Rightarrow> int list list \<Rightarrow> bool" where
  "grown c ws ts us ts' \<longleftrightarrow> ((\<forall>w\<in>set ws. 0 \<le> snd w) \<longrightarrow> ts' = apply_updates us ts \<and> (\<forall>w\<in>set ws. covered (nc_block_size c) ts' w))"

lemma py_index_Some: "py_index n i = Some k \<Longrightarrow> k < n" "py_index n i = Some k \<Longrightarrow> 0 \<le> i \<Longrightarrow> k = nat i"
  by (auto simp: py_index_def split: if_splits)

lemma ensure_positions_ok:
  assumes "blocks_ok (mset (held ts)) c" "\<forall>t\<in>set ts. length t = nat (nc_blocks_per_sequence c)"
  shows "\<exists>r ts' c'. ensure_positions ws ts c = (r, ts', c') \<and> blocks_ok (mset (held ts')) c' \<and> same_dims c c' \<and> extends ts ts' \<and>
    (\<forall>us. r = Inr us \<longrightarrow> grown c ws ts us ts')"
  using assms
proof (induction ws arbitrary: ts c)
  case Nil
  then show ?case by (auto simp: grown_def apply_updates_def)
next
  case (Cons w ws)
  obtain s p where w: "w = (s, p)" by (cases w)
  let ?l = "p div nc_block_size c"
  have pos: "0 < nc_block_size c" using blocks_okD(1) [OF Cons.prems(1)] by (simp add: dims_ok_def)
  consider "s < 0 \<or> s \<ge> int (length ts) \<or> ?l \<ge> nc_blocks_per_sequence c \<or> py_index (length (ts ! nat s)) ?l = None"
    | k where "0 \<le> s" "s < int (length ts)" "?l < nc_blocks_per_sequence c" "py_index (length (ts ! nat s)) ?l = Some k"
    by fastforce
  then show ?case
  proof cases
    case 1
    then show ?thesis using Cons.prems by (auto simp: w Let_def)
  next
    case 2
    have k: "nat s < length ts" "k < length (ts ! nat s)" "0 \<le> p \<Longrightarrow> k = nat ?l"
      using 2 pos py_index_Some [OF 2(4)] by (auto simp: pos_imp_zdiv_nonneg_iff)
    have ls: "length (ts ! nat s) = nat (nc_blocks_per_sequence c)" using Cons.prems(2) k(1) by simp
    show ?thesis
    proof (cases "ts ! nat s ! k = -1")
      case False
      obtain r ts' c' where I: "ensure_positions ws ts c = (r, ts', c')" "blocks_ok (mset (held ts')) c'" "same_dims c c'" "extends ts ts'"
        "\<And>us. r = Inr us \<Longrightarrow> grown c ws ts us ts'" using Cons.IH [OF Cons.prems] by blast
      have "covered (nc_block_size c) ts' w" if "0 \<le> p"
        using extends_covered [OF I(4), of "nc_block_size c" w] 2 k False that by (simp add: covered_def w)
      then have "grown c (w # ws) ts us ts'" if "r = Inr us" for us using I(5) [OF that] by (auto simp: grown_def w)
      then show ?thesis using I 2 False by (auto simp: w Let_def)
    next
      case True
      from acquire_block_ok [OF Cons.prems(1), of None] show ?thesis
      proof (elim disjE exE conjE)
        fix b hit c1 assume a: "acquire_block None c = (Inr (b, hit), c1)" and acq: "acquired (mset (held ts)) None b hit c c1"
        let ?ts = "set_entry ts (nat s) k b"
        have ok1: "blocks_ok (add_mset b (mset (held ts))) c1" and dims: "same_dims c c1" using acq by (auto simp: acquired_def)
        have b: "b \<noteq> -1" using blocks_okD(2) [OF ok1, of b] by auto
        have ext: "extends ts ?ts" by (rule extends_set [OF k(1,2) True])
        have ok2: "blocks_ok (mset (held ?ts)) c1" using ok1 held_set [OF k(1,2) True b] by simp
        have len: "\<forall>t\<in>set ?ts. length t = nat (nc_blocks_per_sequence c1)"
          using Cons.prems(2) ls dims by (auto simp: same_dims_def dest!: set_update_subset_insert [THEN subsetD])
        obtain r ts' c' where I: "ensure_positions ws ?ts c1 = (r, ts', c')" "blocks_ok (mset (held ts')) c'" "same_dims c1 c'" "extends ?ts ts'"
          "\<And>us. r = Inr us \<Longrightarrow> grown c1 ws ?ts us ts'" using Cons.IH [OF ok2 len] by blast
        let ?r = "map_sum id (\<lambda>us. (s, ?l, b) # us) r"
        have step: "ensure_positions (w # ws) ts c = (?r, ts', c')" using 2 True a I(1) by (cases r) (auto simp: w Let_def)
        have cov: "covered (nc_block_size c) ts' w" if "0 \<le> p"
          using extends_covered [OF I(4), of "nc_block_size c" w] 2 k b that by (simp add: covered_def w)
        have "grown c (w # ws) ts us' ts'" if "?r = Inr us'" for us'
        proof -
          obtain us where us: "r = Inr us" "us' = (s, ?l, b) # us" using \<open>?r = Inr us'\<close> by (cases r) auto
          show ?thesis using I(5) [OF us(1)] cov k(3) dims by (auto simp: grown_def us(2) w apply_updates_def same_dims_def)
        qed
        then show ?thesis using step I(2) same_dims_trans [OF dims I(3)] extends_trans [OF ext I(4)] by blast
      next
        assume "acquire_block None c = (Inl (RuntimeError ''no free physical blocks''), c\<lparr>nc_clock := nc_clock c + 1\<rparr>)"
        then show ?thesis using 2 True Cons.prems(1) by (auto simp: w Let_def clock_ok)
      qed
    qed
  qed
qed

lemma ensure_capacity_ok:
  assumes ok: "cache_ok c"
  shows "cache_ok (snd (ensure_capacity ids ps c))"
    "ensure_capacity ids ps c = (Inr us, c') \<Longrightarrow> \<exists>ts ts'. nc_active_tables c = Some ts \<and> nc_active_tables c' = Some ts' \<and> extends ts ts' \<and>
       grown c (zip ids ps) ts us ts' \<and> length ids = length ps"
proof -
  have "cache_ok (snd (ensure_capacity ids ps c)) \<and> (\<forall>us c'. ensure_capacity ids ps c = (Inr us, c') \<longrightarrow>
    (\<exists>ts ts'. nc_active_tables c = Some ts \<and> nc_active_tables c' = Some ts' \<and> extends ts ts' \<and> grown c (zip ids ps) ts us ts' \<and> length ids = length ps))"
  proof (cases "nc_active_tables c")
    case None
    then show ?thesis using ok by (simp add: ensure_capacity_def)
  next
    case (Some ts)
    have ts: "blocks_ok (mset (held ts)) c" "\<forall>t\<in>set ts. length t = nat (nc_blocks_per_sequence c)" using ok Some by (auto simp: cache_ok_def tables_of_def)
    obtain r ts' c' where r: "ensure_positions (zip ids ps) ts c = (r, ts', c')" "blocks_ok (mset (held ts')) c'" "same_dims c c'" "extends ts ts'"
      "\<And>us. r = Inr us \<Longrightarrow> grown c (zip ids ps) ts us ts'" using ensure_positions_ok [OF ts, of "zip ids ps"] by blast
    have "length t = nat (nc_blocks_per_sequence c)" if mem: "t \<in> set ts'" for t
    proof -
      obtain i where "i < length ts'" "t = ts' ! i" using mem by (auto simp: in_set_conv_nth)
      then show ?thesis using extends_lengths [OF r(4)] ts(2) by simp
    qed
    then have "cache_ok (c'\<lparr>nc_active_tables := Some ts'\<rparr>)" using r(2,3) by (simp add: cache_ok_def tables_of_def same_dims_def)
    then show ?thesis using ok Some r by (auto simp: ensure_capacity_def)
  qed
  then show "cache_ok (snd (ensure_capacity ids ps c))"
    "ensure_capacity ids ps c = (Inr us, c') \<Longrightarrow> \<exists>ts ts'. nc_active_tables c = Some ts \<and> nc_active_tables c' = Some ts' \<and> extends ts ts' \<and>
       grown c (zip ids ps) ts us ts' \<and> length ids = length ps" by blast+
qed

section \<open>Runs\<close>

inductive cache_step :: "NativePrefixCache \<Rightarrow> NativePrefixCache \<Rightarrow> bool" where
  alloc: "allocate prompts en c = (r, c') \<Longrightarrow> cache_step c c'"
| extend: "ensure_capacity ids ps c = (r, c') \<Longrightarrow> cache_step c c'"
| free: "release c = (r, c') \<Longrightarrow> cache_step c c'"

abbreviation cache_run :: "NativePrefixCache \<Rightarrow> NativePrefixCache \<Rightarrow> bool" where
  "cache_run \<equiv> cache_step\<^sup>*\<^sup>*"

lemma cache_step_ok:
  assumes "cache_step c c'" "cache_ok c"
  shows "cache_ok c'"
  using assms(1)
proof (cases rule: cache_step.cases)
  case (alloc prompts en r)
  then show ?thesis using allocate_returned(3) [OF assms(2)] allocate_raised(1) [OF assms(2)] by (cases r) auto
next
  case (extend ids ps r)
  then show ?thesis using ensure_capacity_ok(1) [OF assms(2), of ids ps] by simp
next
  case (free r)
  then show ?thesis using release_ok [OF assms(2)] by auto
qed

lemma cache_run_ok: "cache_run c c' \<Longrightarrow> cache_ok c \<Longrightarrow> cache_ok c'"
  by (induction rule: rtranclp_induct) (auto intro: cache_step_ok)

section \<open>Reuse of a prefix\<close>

lemma allocate_blocks_append:
  "allocate_blocks en p (ks @ ls) t cached acq c =
     (case allocate_blocks en p ks t cached acq c of
        (Inl e, acq', c') \<Rightarrow> (Inl e, acq', c')
      | (Inr (t', cached'), acq', c') \<Rightarrow> allocate_blocks en p ls t' cached' acq' c')"
  by (induction ks arbitrary: t cached acq c) (auto split: sum.splits prod.splits)

lemma allocate_blocks_hits:
  assumes "blocks_ok (mset acq) c" "\<forall>k\<in>set ks. \<exists>key. block_key en (nc_block_size c) p k = Some key \<and> nc_prefix_to_block c key \<noteq> None"
  shows "\<exists>t' acq' c'. allocate_blocks en p ks t cached acq c = (Inr (t', cached + nc_block_size c * int (length ks)), acq', c') \<and>
    blocks_ok (mset acq') c' \<and> same_dims c c' \<and> length t' = length t"
  using assms
proof (induction ks arbitrary: t cached acq c)
  case (Cons k ks)
  obtain key where key: "block_key en (nc_block_size c) p k = Some key" "nc_prefix_to_block c key \<noteq> None" using Cons.prems(2) by auto
  from acquire_block_ok [OF Cons.prems(1), of "Some key"] key(2) obtain b hit c1 where
    a: "acquire_block (Some key) c = (Inr (b, hit), c1)" "acquired (mset acq) (Some key) b hit c c1" by auto
  have c1: "hit" "blocks_ok (mset (acq @ [b])) c1" "nc_prefix_to_block c1 = nc_prefix_to_block c" "same_dims c c1"
    using a(2) key(2) by (auto simp: acquired_def)
  have bs: "nc_block_size c1 = nc_block_size c" using c1(4) by (simp add: same_dims_def)
  have "\<forall>k\<in>set ks. \<exists>key. block_key en (nc_block_size c1) p k = Some key \<and> nc_prefix_to_block c1 key \<noteq> None"
    using Cons.prems(2) by (simp add: bs c1(3))
  from Cons.IH [OF c1(2) this, of "t[k := b]" "cached + nc_block_size c"] show ?case
    using a(1) key(1) c1(1) same_dims_trans [OF c1(4)] by (auto simp: bs algebra_simps)
qed simp

lemma reuse_count:
  assumes ok: "blocks_ok {#} c" and none: "nc_active_tables c = None" and short: "\<not> too_long c p"
    and idx: "\<And>k. int k < max 0 (int (length p) - 1) div nc_block_size c \<Longrightarrow>
      \<exists>key. block_key True (nc_block_size c) p k = Some key \<and> nc_prefix_to_block c key \<noteq> None"
    and r: "allocate [p] True c = (Inr al, c')"
  shows "al_num_cached_tokens al = [nc_block_size c * (max 0 (int (length p) - 1) div nc_block_size c)]"
proof -
  let ?bs = "nc_block_size c"
  define full where "full = nat (max 0 (int (length p) - 1) div ?bs)"
  let ?m = "num_prompt_blocks ?bs p"
  let ?t = "replicate (nat (nc_blocks_per_sequence c)) (-1)"
  have pos: "0 < ?bs" "0 < nc_blocks_per_sequence c" using blocks_okD(1) [OF ok] by (auto simp: dims_ok_def)
  have m: "?m \<le> nat (nc_blocks_per_sequence c)" using num_prompt_blocks_le [OF pos] short by simp
  have f0: "int full = max 0 (int (length p) - 1) div ?bs" using pos(1) by (simp add: full_def pos_imp_zdiv_nonneg_iff)
  have "max 0 (int (length p) - 1) div ?bs \<le> (int (length p) + ?bs - 1) div ?bs" using pos(1) by (intro zdiv_mono1) auto
  then have fm: "full \<le> ?m" unfolding full_def num_prompt_blocks_def by (rule nat_mono)
  have split: "[0..<?m] = [0..<full] @ [full..<?m]" using upt_add_eq_append [of 0 full "?m - full"] fm by simp
  have "\<forall>k\<in>set [0..<full]. \<exists>key. block_key True ?bs p k = Some key \<and> nc_prefix_to_block c key \<noteq> None" 
    using idx unfolding f0 [symmetric] by simp
  from allocate_blocks_hits [OF _ this, of "[]" ?t 0] ok obtain t1 acq1 c1 where
    h: "allocate_blocks True p [0..<full] ?t 0 [] c = (Inr (t1, ?bs * int full), acq1, c1)" "blocks_ok (mset acq1) c1" "same_dims c c1" "length t1 = length ?t"
    by auto
  have bs: "nc_block_size c1 = ?bs" using h(3) by (simp add: same_dims_def)
  obtain t cached acq c2 where whole: "allocate_blocks True p [0..<?m] ?t 0 [] c = (Inr (t, cached), acq, c2)" and al: "al_num_cached_tokens al = [cached]"
    using r none short by (auto simp: allocate_def split: sum.splits prod.splits)
  have tail: "allocate_blocks True p [full..<?m] t1 (?bs * int full) acq1 c1 = (Inr (t, cached), acq, c2)"
    using whole unfolding split allocate_blocks_append h(1) by simp
  have "block_key True ?bs p k = None" if "full \<le> k" for k using that unfolding block_key_def Let_def f0 [symmetric] by simp
  then have "keyed True ?bs p [full..<?m] = []" by (simp add: filter_empty_conv)
  then have "cached = ?bs * int full"
    using allocate_blocks_ok [OF h(2), of "[full..<?m]" t1 True p "?bs * int full"] m h(4) unfolding tail by (simp add: bs)
  then show ?thesis by (simp add: al f0)
qed

end
