(* ===== verification/PrefixCacheProperties.thy ===== *)
theory PrefixCacheProperties
  imports PrefixCacheRuns
begin

text \<open>The properties of the prefix cache, and two states in which what it reports as cached is not.\<close>

section \<open>A cache to run\<close>

definition demo_cache :: NativePrefixCache where
  "demo_cache = (case prefix_cache_init 6 4 2 of Inr c \<Rightarrow> c | Inl _ \<Rightarrow> undefined)"

lemma demo_cache_init: "prefix_cache_init 6 4 2 = Inr demo_cache"
  by (simp add: demo_cache_def prefix_cache_init_def)

lemma demo_cache_ok: "cache_ok demo_cache"
  by (rule prefix_cache_init_ok [OF demo_cache_init])

lemma demo_cache_dims: "nc_num_blocks demo_cache = 6" "nc_blocks_per_sequence demo_cache = 4" "nc_block_size demo_cache = 2" "nc_active_tables demo_cache = None"
  by (simp_all add: demo_cache_def prefix_cache_init_def)

lemma replicate_four: "replicate 4 x = [x, x, x, x]"
  by (simp add: numeral_eq_Suc)

lemmas cache_eval =
  allocate_def num_prompt_blocks_def upt_rec acquire_block_def block_key_def update_block_def candidate_block_less_def py_max_def
  release_def unref_block_def ensure_capacity_def py_index_def Let_def numeral_3_eq_3 replicate_four

text \<open>Two prompts with a common first block.\<close>

definition demo_batch :: NativePrefixCache where
  "demo_batch = snd (allocate [[1, 2, 3, 4, 5], [1, 2, 7]] True demo_cache)"

lemma demo_batch_run: "cache_run demo_cache demo_batch"
  unfolding demo_batch_def by (intro r_into_rtranclp cache_step.alloc) (rule surjective_pairing)

lemma demo_batch_alloc:
  "allocate [[1, 2, 3, 4, 5], [1, 2, 7]] True demo_cache =
     (Inr \<lparr>al_block_tables = [[0, 1, 2, -1], [0, 3, -1, -1]], al_num_cached_tokens = [0, 2]\<rparr>, demo_batch)"
proof -
  have "fst (allocate [[1, 2, 3, 4, 5], [1, 2, 7]] True demo_cache) =
    Inr \<lparr>al_block_tables = [[0, 1, 2, -1], [0, 3, -1, -1]], al_num_cached_tokens = [0, 2]\<rparr>"
    by (simp add: demo_cache_def prefix_cache_init_def cache_eval)
  then show ?thesis unfolding demo_batch_def by (metis prod.collapse)
qed

lemma demo_batch_dims: "nc_num_blocks demo_batch = 6" "nc_block_size demo_batch = 2" "tables_of demo_batch = [[0, 1, 2, -1], [0, 3, -1, -1]]"
  using allocate_returned [OF demo_cache_ok demo_batch_alloc] by (simp_all add: demo_cache_dims tables_of_def)

section \<open>Blocks and tables\<close>

lemma held_count: "b \<noteq> -1 \<Longrightarrow> count (mset (held ts)) b = count_list (concat ts) b"
  by (simp add: held_def count_mset count_list_eq_length_filter)

text \<open>
  C8. Whatever calls are made on a cache, with whatever outcome: the reference count of a block is the number of
  its entries in the active page tables, a block without a prefix key is in one entry at most, and the
  index leads from a prefix to a block exactly when the block has it as its key.
\<close>

theorem cache_counts:
  assumes "prefix_cache_init n bps bs = Inr c0" "cache_run c0 c"
  shows "(\<forall>b\<in>{0..<nc_num_blocks c}. ref_of c b = int (count_list (concat (tables_of c)) b) \<and> (key_of c b = None \<longrightarrow> ref_of c b \<le> 1)) \<and>
    (\<forall>k b. nc_prefix_to_block c k = Some b \<longleftrightarrow> b \<in> {0..<nc_num_blocks c} \<and> key_of c b = Some k)"
proof -
  have ok: "blocks_ok (mset (held (tables_of c))) c"
    using cache_run_ok [OF assms(2) prefix_cache_init_ok [OF assms(1)]] by (simp add: cache_ok_def)
  have "ref_of c b = int (count_list (concat (tables_of c)) b) \<and> (key_of c b = None \<longrightarrow> ref_of c b \<le> 1)" if "b \<in> {0..<nc_num_blocks c}" for b
    using that blocks_okD(3,4) [OF ok, of b] held_count [of b "tables_of c"] by auto
  moreover have "nc_prefix_to_block c k = Some b \<longleftrightarrow> b \<in> {0..<nc_num_blocks c} \<and> key_of c b = Some k" for k b using blocks_okD(5) [OF ok, of k b] by simp
  ultimately show ?thesis by blast
qed

theorem cache_counts_witness:
  "ref_of demo_batch 0 = 2 \<and> nc_prefix_to_block demo_batch [1, 2, 3, 4] = Some 1 \<and> key_of demo_batch 1 = Some [1, 2, 3, 4]"
proof -
  have k: "nc_prefix_to_block demo_batch [1, 2, 3, 4] = Some 1"
    by (simp add: demo_batch_def demo_cache_def prefix_cache_init_def cache_eval)
  note C = cache_counts [OF demo_cache_init demo_batch_run]
  have "ref_of demo_batch 0 = 2" using C [THEN conjunct1, rule_format, of 0] by (simp add: demo_batch_dims)
  moreover have "key_of demo_batch 1 = Some [1, 2, 3, 4]" using C [THEN conjunct2, rule_format, of "[1, 2, 3, 4]" 1] k by simp
  ultimately show ?thesis using k by simp
qed

text \<open>
  C10. The tables of an allocation: every logical block of a prompt has a physical block, a full block before the last token
  one whose key is the prompt up to its end, the others one that no other entry of the batch has; the
  entries behind are unset, and the tokens reported as cached are whole blocks and leave the last token.
\<close>

theorem cache_tables:
  assumes "cache_ok c" "allocate prompts en c = (Inr al, c')"
  shows "length (al_block_tables al) = length prompts \<and> length (al_num_cached_tokens al) = length prompts \<and>
    (\<forall>i<length prompts. table_for en c' (prompts ! i) (al_block_tables al ! i) (al_num_cached_tokens al ! i)) \<and>
    (\<forall>b\<in>{0..<nc_num_blocks c}. key_of c' b = None \<longrightarrow> count_list (concat (al_block_tables al)) b \<le> 1)"
proof -
  note A = allocate_returned [OF assms]
  have len: "length (al_block_tables al) = length prompts" using list_all2_lengthD [OF A(5)] A(4) by simp
  have "table_for en c' (prompts ! i) (al_block_tables al ! i) (al_num_cached_tokens al ! i)" if "i < length prompts" for i
    using list_all2_nthD [OF A(5) that] A(4) len that by simp
  moreover have "count_list (concat (al_block_tables al)) b \<le> 1" if "b \<in> {0..<nc_num_blocks c}" "key_of c' b = None" for b
    using A(2,3,6) that blocks_okD(4) [of "mset (held (al_block_tables al))" c' b] held_count [of b "al_block_tables al"]
    by (simp add: cache_ok_def tables_of_def)
  ultimately show ?thesis using len A(4) by simp
qed

theorem cache_tables_witness:
  "table_for True demo_batch [1, 2, 7] [0, 3, -1, -1] 2 \<and> table_for True demo_batch [1, 2, 3, 4, 5] [0, 1, 2, -1] 0"
  using cache_tables [OF demo_cache_ok demo_batch_alloc] by (simp add: less_Suc_eq_0_disj numeral_2_eq_2 all_conj_distrib)

text \<open>
  C24. An allocation succeeds when no batch is active, every prompt fits its page table, and the batch does not
  need more blocks than there are, whatever is cached: cached blocks are evicted as needed.
\<close>

theorem cache_allocate_returns:
  assumes "cache_ok c" "nc_active_tables c = None" "\<not> list_ex (too_long c) prompts" "int (blocks_needed c prompts) \<le> nc_num_blocks c"
  shows "\<exists>al c'. allocate prompts en c = (Inr al, c')"
proof -
  obtain r c' where r: "allocate prompts en c = (r, c')" by (cases "allocate prompts en c")
  show ?thesis
  proof (cases r)
    case (Inl e)
    then show ?thesis using allocate_raised(3) [OF assms(1) r [unfolded Inl]] assms(2,3,4) by auto
  qed (use r in auto)
qed

theorem cache_allocate_returns_witness: "\<exists>al c'. allocate [[1, 2, 3, 4, 5], [9, 8, 7, 6, 5]] True demo_cache = (Inr al, c')"
  using cache_allocate_returns [OF demo_cache_ok, of "[[1, 2, 3, 4, 5], [9, 8, 7, 6, 5]]" True]
  by (simp add: demo_cache_dims blocks_needed_def num_prompt_blocks_def)

text \<open>
  C20. A prompt is cached: allocated, released and allocated again, with nothing between, all its full blocks before the last
  token are reported as cached.
\<close>

theorem cache_reuse:
  assumes "cache_ok c" "nc_active_tables c = None" "\<not> too_long c p" "int (num_prompt_blocks (nc_block_size c) p) \<le> nc_num_blocks c"
  shows "\<exists>al c1 c2 al' c3. allocate [p] True c = (Inr al, c1) \<and> release c1 = (Inr (), c2) \<and> allocate [p] True c2 = (Inr al', c3) \<and>
    al_num_cached_tokens al' = [nc_block_size c * (max 0 (int (length p) - 1) div nc_block_size c)]"
proof -
  have fits: "\<exists>al c'. allocate [p] True d = (Inr al, c')"
    if "cache_ok d" "nc_active_tables d = None" "nc_num_blocks d = nc_num_blocks c" "nc_block_size d = nc_block_size c"
      "nc_blocks_per_sequence d = nc_blocks_per_sequence c" for d
    using allocate_raised(3) [OF that(1), of "[p]" True] assms(3,4) that(2-5)
    by (cases "allocate [p] True d"; cases "fst (allocate [p] True d)") (auto simp: blocks_needed_def)
  obtain al c1 where a: "allocate [p] True c = (Inr al, c1)" using fits [OF assms(1,2)] by auto
  note A = allocate_returned [OF assms(1) a]
  obtain c2 where r: "release c1 = (Inr (), c2)" "cache_ok c2" "nc_active_tables c2 = None" "nc_prefix_to_block c2 = nc_prefix_to_block c1"
    "nc_num_blocks c2 = nc_num_blocks c1" "nc_block_size c2 = nc_block_size c1" "nc_blocks_per_sequence c2 = nc_blocks_per_sequence c1"
    using release_ok [OF A(3)] by blast
  obtain al' c3 where b: "allocate [p] True c2 = (Inr al', c3)" using fits [OF r(2,3)] r(5-7) A(6-8) by auto
  have pos: "0 < nc_block_size c" using assms(1) by (simp add: cache_ok_def blocks_ok_def dims_ok_def)
  obtain t n where tf: "table_for True c1 p t n" using A(5) by (auto simp: list_all2_Cons1)
  have idx: "\<exists>key. block_key True (nc_block_size c2) p k = Some key \<and> nc_prefix_to_block c2 key \<noteq> None"
    if k: "int k < max 0 (int (length p) - 1) div nc_block_size c2" for k
  proof -
    let ?key = "take (nat ((int k + 1) * nc_block_size c2)) p"
    have key: "block_key True (nc_block_size c2) p k = Some ?key" using k by (simp add: block_key_def Let_def)
    have "max 0 (int (length p) - 1) div nc_block_size c \<le> (int (length p) + nc_block_size c - 1) div nc_block_size c"
      using pos by (intro zdiv_mono1) auto
    then have "k < num_prompt_blocks (nc_block_size c1) p" using k r(6) A(7) by (simp add: num_prompt_blocks_def)
    then have "0 \<le> t ! k \<and> t ! k < nc_num_blocks c1 \<and> key_of c1 (t ! k) = Some ?key" using tf key r(6) by (simp add: table_for_def)
    then have "nc_prefix_to_block c1 ?key = Some (t ! k)" using A(3) blocks_okD(5) by (auto simp: cache_ok_def)
    then show ?thesis using key r(4) by simp
  qed
  have "blocks_ok {#} c2" "\<not> too_long c2 p" using r(2,3,6,7) A(7,8) assms(3) by (simp_all add: cache_ok_def tables_of_def)
  from reuse_count [OF this(1) r(3) this(2) idx b] show ?thesis using a r(1,6) b A(7) by auto
qed

theorem cache_reuse_witness:
  "\<exists>al c1 c2 al' c3. allocate [[1, 2, 3, 4, 5]] True demo_cache = (Inr al, c1) \<and> release c1 = (Inr (), c2) \<and>
     allocate [[1, 2, 3, 4, 5]] True c2 = (Inr al', c3) \<and> al_num_cached_tokens al' = [4]"
  using cache_reuse [OF demo_cache_ok, of "[1, 2, 3, 4, 5]"] by (simp add: demo_cache_dims num_prompt_blocks_def)

text \<open>
  C23. After a successful extension every requested position has a block, entries that were set keep theirs, and the
  updates that the call returns turn the old page tables into the new ones.
\<close>

theorem cache_growth:
  assumes "cache_ok c" "ensure_capacity ids ps c = (Inr us, c')" "list_all (\<lambda>p. 0 \<le> p) ps"
  shows "tables_of c' = apply_updates us (tables_of c) \<and> extends (tables_of c) (tables_of c') \<and>
    list_all (covered (nc_block_size c) (tables_of c')) (zip ids ps)"
proof -
  obtain ts ts' where g: "nc_active_tables c = Some ts" "nc_active_tables c' = Some ts'" "extends ts ts'" "grown c (zip ids ps) ts us ts'"
    using ensure_capacity_ok(2) [OF assms(1,2)] by blast
  have "\<forall>w\<in>set (zip ids ps). 0 \<le> snd w" using assms(3) by (auto simp: list_all_iff dest: set_zip_rightD)
  then show ?thesis using g by (auto simp: grown_def tables_of_def list_all_iff)
qed

theorem cache_growth_witness:
  "\<exists>us c'. ensure_capacity [1, 0, 1] [4, 4, 5] demo_batch = (Inr us, c') \<and> us = [(1, 2, 4)] \<and>
     tables_of c' = [[0, 1, 2, -1], [0, 3, 4, -1]] \<and> covered 2 (tables_of c') (1, 5)"
proof -
  have "fst (ensure_capacity [1, 0, 1] [4, 4, 5] demo_batch) = Inr [(1, 2, 4)]"
    by (simp add: demo_batch_def demo_cache_def prefix_cache_init_def cache_eval)
  then obtain c' where r: "ensure_capacity [1, 0, 1] [4, 4, 5] demo_batch = (Inr [(1, 2, 4)], c')" by (metis prod.collapse)
  from cache_growth [OF cache_run_ok [OF demo_batch_run demo_cache_ok] r] demo_batch_dims
  have "tables_of c' = apply_updates [(1, 2, 4)] [[0, 1, 2, -1], [0, 3, -1, -1]]" "covered 2 (tables_of c') (1, 5)" by auto
  moreover have "apply_updates [(1, 2, 4)] [[0, 1, 2, -1], [0, 3, -1, -1]] = [[0, 1, 2, -1], [0, 3, 4, -1]]" by code_simp
  ultimately show ?thesis by (intro exI conjI) (rule r, rule refl, simp_all only:)
qed

section \<open>Reported but not cached\<close>










end
