(* ===== verification/TreePlan.thy ===== *)
theory TreePlan
  imports Rhythm
begin

text \<open>
  Trees of draft candidates (\<^verbatim>\<open>vllm_ascend/spec_decode/pearl/tree.py\<close>): the shape of a uniform tree, its attention mask, the
  selection of candidates, and the tree for a budget of the control plane. Tensors of one dimension
  are lists and the mask a list of rows; their integers are model lengths and fit 32 bits. The loops along the
  parents are \<open>partial_function (option)\<close>, where \<^term>\<open>None\<close> is a loop that does not end.
\<close>

section \<open>Shape\<close>

definition make_spine_first_parents :: "int \<Rightarrow> int \<Rightarrow> py_exc + int list" where
  "make_spine_first_parents width depth =
     (if width < 1 \<or> depth < 1 then Inl (ValueError ''width and depth'')
      else Inr ((-1 # map int [0..<nat (depth - 1)]) @
                concat (map (\<lambda>level. replicate (nat (width - 1)) (if level = 0 then -1 else int level - 1)) [0..<nat depth])))"

definition node_levels :: "int \<Rightarrow> int \<Rightarrow> int list" where
  "node_levels width depth =
     map (\<lambda>level. int level + 1) [0..<nat depth] @ concat (map (\<lambda>level. replicate (nat (width - 1)) (int level + 1)) [0..<nat depth])"

section \<open>Attention mask\<close>

text \<open>\<^verbatim>\<open>mask[row, col] = False\<close>, for indices that are not negative.\<close>

definition unblock :: "int \<Rightarrow> int \<Rightarrow> bool list list \<Rightarrow> py_exc + bool list list" where
  "unblock row col msk =
     (if row < int (length msk) \<and> col < int (length (msk ! nat row)) then Inr (msk[nat row := (msk ! nat row)[nat col := False]])
      else Inl IndexError)"

partial_function (option) unblock_chain ::
  "int list \<Rightarrow> int \<Rightarrow> int \<Rightarrow> int \<Rightarrow> bool list list \<Rightarrow> (py_exc + bool list list) option" where
  "unblock_chain parents prefix_len row current msk =
     (if current \<ge> 0
      then (case unblock row (prefix_len + current + 1) msk of
              Inl e \<Rightarrow> Some (Inl e)
            | Inr msk \<Rightarrow> unblock_chain parents prefix_len row (parents ! nat current) msk)
      else Some (Inr msk))"

declare unblock_chain.simps [code]

primrec unblock_nodes :: "int list \<Rightarrow> int \<Rightarrow> nat list \<Rightarrow> bool list list \<Rightarrow> (py_exc + bool list list) option" where
  "unblock_nodes parents prefix_len [] msk = Some (Inr msk)"
| "unblock_nodes parents prefix_len (node # nodes) msk =
     (case unblock (int node + 1) prefix_len msk of
        Inl e \<Rightarrow> Some (Inl e)
      | Inr msk \<Rightarrow>
        (case unblock_chain parents prefix_len (int node + 1) (int node) msk of
           None \<Rightarrow> None
         | Some (Inl e) \<Rightarrow> Some (Inl e)
         | Some (Inr msk) \<Rightarrow> unblock_nodes parents prefix_len nodes msk))"

definition build_tree_attention_mask :: "int \<Rightarrow> int \<Rightarrow> int \<Rightarrow> int \<Rightarrow> (py_exc + bool list list) option" where
  "build_tree_attention_mask width depth prefix_len max_model_len =
     (if prefix_len < 0 \<or> max_model_len \<le> 0 then Some (Inl (ValueError ''lengths''))
      else if prefix_len + depth \<ge> max_model_len then Some (Inl (ValueError ''positions''))
      else (case make_spine_first_parents width depth of
              Inl e \<Rightarrow> Some (Inl e)
            | Inr parents \<Rightarrow>
              let query_len = 1 + width * depth;
                  msk = replicate (nat query_len) (replicate (nat max_model_len) True);
                  msk = map (\<lambda>row. replicate (nat prefix_len) False @ drop (nat prefix_len) row) msk
              in (case unblock 0 prefix_len msk of
                    Inl e \<Rightarrow> Some (Inl e)
                  | Inr msk \<Rightarrow>
                    (case unblock_nodes parents prefix_len [0..<length parents] msk of
                       None \<Rightarrow> None
                     | Some (Inl e) \<Rightarrow> Some (Inl e)
                     | Some (Inr msk) \<Rightarrow>
                       if length (node_levels width depth) = length parents then Some (Inr msk) else Some (Inl AssertionError)))))"

section \<open>Plans\<close>

record TreeSpeculationPlan =
  tp_width :: int
  tp_depth :: int
  tp_candidate_budget :: int
  tp_prefix_len :: int
  tp_max_model_len :: int
  tp_parent_indices :: "int list"
  tp_positions :: "int list"
  tp_attention_mask :: "bool list list"

definition tree_plan_post_init :: "TreeSpeculationPlan \<Rightarrow> py_exc + TreeSpeculationPlan" where
  "tree_plan_post_init p =
     (let nodes = tp_width p * tp_depth p
      in if tp_candidate_budget p < 1 \<or> tp_candidate_budget p > nodes then Inl (ValueError ''candidate_budget'')
         else if int (length (tp_parent_indices p)) \<noteq> nodes then Inl (ValueError ''parent_indices'')
         else if int (length (tp_positions p)) \<noteq> nodes + 1 then Inl (ValueError ''positions'')
         else if int (length (tp_attention_mask p)) \<noteq> nodes + 1 \<or>
                 list_ex (\<lambda>row. int (length row) \<noteq> tp_max_model_len p) (tp_attention_mask p) then Inl (ValueError ''attention_mask'')
         else Inr p)"

definition build_tree_speculation_plan ::
  "int \<Rightarrow> int \<Rightarrow> int \<Rightarrow> int \<Rightarrow> int option \<Rightarrow> (py_exc + TreeSpeculationPlan) option" where
  "build_tree_speculation_plan width depth prefix_len max_model_len candidate_budget =
     (if width < 1 \<or> depth < 1 then Some (Inl (ValueError ''width and depth''))
      else
        (let budget = (case candidate_budget of None \<Rightarrow> width * depth | Some b \<Rightarrow> b)
         in if \<not> (1 \<le> budget \<and> budget \<le> width * depth) then Some (Inl (ValueError ''candidate_budget''))
            else (case make_spine_first_parents width depth of
                    Inl e \<Rightarrow> Some (Inl e)
                  | Inr parents \<Rightarrow>
                    let levels = 0 # node_levels width depth;
                        positions = map (\<lambda>level. level + prefix_len) levels
                    in (case build_tree_attention_mask width depth prefix_len max_model_len of
                          None \<Rightarrow> None
                        | Some (Inl e) \<Rightarrow> Some (Inl e)
                        | Some (Inr msk) \<Rightarrow>
                          Some (tree_plan_post_init
                            \<lparr>tp_width = width, tp_depth = depth, tp_candidate_budget = budget, tp_prefix_len = prefix_len,
                             tp_max_model_len = max_model_len, tp_parent_indices = parents, tp_positions = positions,
                             tp_attention_mask = msk\<rparr>)))))"

section \<open>Selection of candidates\<close>

record TreeCandidateSelection =
  ts_indices :: "int list"
  ts_token_ids :: "int list"

partial_function (option) ancestor_chain :: "int list \<Rightarrow> int set \<Rightarrow> int \<Rightarrow> int list option" where
  "ancestor_chain parents selected current =
     (if current \<ge> 0 \<and> current \<notin> selected
      then Option.bind (ancestor_chain parents selected (parents ! nat current)) (\<lambda>chain. Some (current # chain))
      else Some [])"

declare ancestor_chain.simps [code]

primrec select_nodes :: "int list \<Rightarrow> int \<Rightarrow> int list \<Rightarrow> int set \<Rightarrow> int set option" where
  "select_nodes parents budget [] selected = Some selected"
| "select_nodes parents budget (index # order) selected =
     (case ancestor_chain parents selected index of
        None \<Rightarrow> None
      | Some chain \<Rightarrow>
        select_nodes parents budget order
          (if int (card selected) + int (length chain) \<le> budget then selected \<union> set chain else selected))"

text \<open>The order of the keys \<^verbatim>\<open>(-score, index)\<close>; negated floats compare the other way round.\<close>

definition score_less :: "'f flt \<Rightarrow> 'f list \<Rightarrow> int \<Rightarrow> int \<Rightarrow> bool" where
  "score_less fo scores i j =
     (if \<not> f_eq fo (scores ! nat i) (scores ! nat j) then f_lt fo (scores ! nat j) (scores ! nat i) else i < j)"

definition select_tree_candidates ::
  "'f flt \<Rightarrow> int list \<Rightarrow> int list \<Rightarrow> 'f list \<Rightarrow> int \<Rightarrow> (py_exc + TreeCandidateSelection) option" where
  "select_tree_candidates fo candidate_token_ids parents scores budget =
     (if length parents \<noteq> length candidate_token_ids then Some (Inl (ValueError ''aligned''))
      else if length scores \<noteq> length candidate_token_ids then Some (Inl (ValueError ''scores''))
      else if \<not> (1 \<le> budget \<and> budget \<le> int (length candidate_token_ids)) then Some (Inl (ValueError ''budget''))
      else if list_ex (\<lambda>index. parents ! index < -1 \<or> parents ! index \<ge> int index) [0..<length parents] then Some (Inl (ValueError ''parent''))
      else
        (let order = sorted_desc (\<lambda>i j. score_less fo scores j i) (map int [0..<length parents])
         in map_option (\<lambda>selected.
              let indices = sorted_list_of_set selected
              in Inr \<lparr>ts_indices = indices, ts_token_ids = map (\<lambda>i. candidate_token_ids ! nat i) indices\<rparr>)
              (select_nodes parents budget order {})))"

section \<open>Trees for budgets\<close>

definition tree_budget_from_spec_rhythm :: "'f SpecRhythmBudgetPlan \<Rightarrow> int \<Rightarrow> int \<Rightarrow> int \<Rightarrow> py_exc + int" where
  "tree_budget_from_spec_rhythm plan request_index width max_depth =
     (if width < 1 \<or> max_depth < 1 then Inl (ValueError ''width and max_depth'')
      else
        (let allocated = dict_get (bp_normal_budgets plan) request_index 0 + dict_get (bp_eager_budgets plan) request_index 0
         in Inr (max 0 (min allocated (width * max_depth)))))"

record SpecRhythmTreeCoordinator =
  tc_width :: int
  tc_max_depth :: int

definition tree_coordinator_init :: "int \<Rightarrow> int \<Rightarrow> py_exc + SpecRhythmTreeCoordinator" where
  "tree_coordinator_init width max_depth =
     (if width < 1 \<or> max_depth < 1 then Inl (ValueError ''width and max_depth'') else Inr \<lparr>tc_width = width, tc_max_depth = max_depth\<rparr>)"

text \<open>The quotient is rounded up; below \<open>2 ^ 53\<close> the division of floats does not change that.\<close>

definition for_request ::
  "SpecRhythmTreeCoordinator \<Rightarrow> 'f SpecRhythmBudgetPlan \<Rightarrow> int \<Rightarrow> int \<Rightarrow> int \<Rightarrow> (py_exc + TreeSpeculationPlan option) option" where
  "for_request tc budget_plan request_index prefix_len max_model_len =
     (case tree_budget_from_spec_rhythm budget_plan request_index (tc_width tc) (tc_max_depth tc) of
        Inl e \<Rightarrow> Some (Inl e)
      | Inr budget \<Rightarrow>
        if budget = 0 then Some (Inr None)
        else
          (let depth = min (tc_max_depth tc) (max 1 ((budget + tc_width tc - 1) div tc_width tc))
           in map_option (map_sum id Some)
                (build_tree_speculation_plan (tc_width tc) depth prefix_len max_model_len (Some (min budget (tc_width tc * depth))))))"

end
