(* ===== verification/TreeSelect.thy ===== *)
theory TreeSelect
  imports TreePlan
begin

text \<open>Ancestors in a tree whose parents are earlier nodes, and the greedy selection over them.\<close>

section \<open>Ancestors\<close>

definition parents_ok :: "int list \<Rightarrow> bool" where
  "parents_ok parents \<longleftrightarrow> (\<forall>i<length parents. -1 \<le> parents ! i \<and> parents ! i < int i)"

definition anc :: "int list \<Rightarrow> int \<Rightarrow> int set" where
  "anc parents i = set (the (ancestor_chain parents {} i))"

definition closed_nodes :: "int list \<Rightarrow> int set \<Rightarrow> bool" where
  "closed_nodes parents S \<longleftrightarrow> (\<forall>i\<in>S. 0 \<le> i \<and> i < int (length parents) \<and> (parents ! nat i = -1 \<or> parents ! nat i \<in> S))"

lemma parents_okD: "parents_ok parents \<Longrightarrow> 0 \<le> i \<Longrightarrow> i < int (length parents) \<Longrightarrow> -1 \<le> parents ! nat i \<and> parents ! nat i < i"
  unfolding parents_ok_def by (metis int_nat_eq nat_less_iff)

lemma chain_returns:
  assumes "parents_ok parents" "i < int (length parents)"
  shows "\<exists>xs. ancestor_chain parents S i = Some xs \<and> distinct xs \<and> set xs \<subseteq> {0..i} - S"
  using assms(2)
proof (induction "nat (i + 1)" arbitrary: i rule: less_induct)
  case less
  show ?case
  proof (cases "0 \<le> i \<and> i \<notin> S")
    case True
    let ?p = "parents ! nat i"
    have p: "?p < i" "-1 \<le> ?p" using parents_okD [OF assms(1)] True less.prems by auto
    then obtain xs where "ancestor_chain parents S ?p = Some xs" "distinct xs" "set xs \<subseteq> {0..?p} - S"
      using less.hyps [of ?p] True less.prems by auto
    then show ?thesis using True p by (subst ancestor_chain.simps) auto
  next
    case False
    then show ?thesis by (subst ancestor_chain.simps) auto
  qed
qed

lemma anc_neg [simp]: "i < 0 \<Longrightarrow> anc parents i = {}"
  unfolding anc_def by (subst ancestor_chain.simps) simp

lemma anc_step:
  assumes "parents_ok parents" "0 \<le> i" "i < int (length parents)"
  shows "anc parents i = insert i (anc parents (parents ! nat i))"
proof -
  obtain xs where "ancestor_chain parents {} (parents ! nat i) = Some xs"
    using chain_returns [OF assms(1), of "parents ! nat i" "{}"] parents_okD [OF assms] assms(3) by auto
  then show ?thesis unfolding anc_def using assms(2) by (subst ancestor_chain.simps) simp
qed

lemma anc_bounds: "parents_ok parents \<Longrightarrow> i < int (length parents) \<Longrightarrow> anc parents i \<subseteq> {0..i}"
  using chain_returns [of parents i "{}"] by (auto simp: anc_def)

lemma anc_self: "parents_ok parents \<Longrightarrow> 0 \<le> i \<Longrightarrow> i < int (length parents) \<Longrightarrow> i \<in> anc parents i"
  by (simp add: anc_step)

lemma anc_closed:
  assumes "parents_ok parents" "i < int (length parents)"
  shows "closed_nodes parents (anc parents i)"
  using assms(2)
proof (induction "nat (i + 1)" arbitrary: i rule: less_induct)
  case less
  show ?case
  proof (cases "0 \<le> i")
    case True
    let ?p = "parents ! nat i"
    have p: "?p < i" "-1 \<le> ?p" using parents_okD [OF assms(1)] True less.prems by auto
    have "closed_nodes parents (anc parents ?p)" using less.hyps [of ?p] p True less.prems by simp
    moreover have "?p = -1 \<or> ?p \<in> anc parents ?p" using anc_self [OF assms(1), of ?p] p less.prems by force
    ultimately show ?thesis unfolding anc_step [OF assms(1) True less.prems] using True less.prems by (auto simp: closed_nodes_def)
  qed (simp add: closed_nodes_def)
qed

lemma anc_least:
  assumes "parents_ok parents" "closed_nodes parents S" "i \<in> S"
  shows "anc parents i \<subseteq> S"
  using assms(3)
proof (induction "nat (i + 1)" arbitrary: i rule: less_induct)
  case less
  let ?p = "parents ! nat i"
  have i: "0 \<le> i" "i < int (length parents)" "?p = -1 \<or> ?p \<in> S" using assms(2) less.prems by (auto simp: closed_nodes_def)
  have "?p < i" using parents_okD [OF assms(1) i(1,2)] by simp
  then have "anc parents ?p \<subseteq> S" using i less.hyps [of ?p] by auto
  then show ?case using anc_step [OF assms(1) i(1,2)] less.prems by simp
qed

lemma chain_anc:
  assumes "parents_ok parents" "closed_nodes parents S" "i < int (length parents)"
  shows "\<exists>xs. ancestor_chain parents S i = Some xs \<and> distinct xs \<and> set xs = anc parents i - S"
  using assms(3)
proof (induction "nat (i + 1)" arbitrary: i rule: less_induct)
  case less
  show ?case
  proof (cases "0 \<le> i \<and> i \<notin> S")
    case True
    let ?p = "parents ! nat i"
    have p: "?p < i" "-1 \<le> ?p" using parents_okD [OF assms(1)] True less.prems by auto
    then obtain xs where xs: "ancestor_chain parents S ?p = Some xs" "distinct xs" "set xs = anc parents ?p - S"
      using less.hyps [of ?p] True less.prems by auto
    have "i \<notin> anc parents ?p" using anc_bounds [OF assms(1), of ?p] p less.prems by auto
    then show ?thesis using True xs anc_step [OF assms(1) _ less.prems] by (subst ancestor_chain.simps) auto
  next
    case False
    then have "anc parents i \<subseteq> S" using anc_least [OF assms(1,2)] by (cases "i < 0") auto
    then show ?thesis using False by (subst ancestor_chain.simps) auto
  qed
qed

section \<open>Selection\<close>

lemma select_nodes_ok:
  assumes ok: "parents_ok parents"
    and "closed_nodes parents S" "finite S" "int (card S) \<le> budget" "set order \<subseteq> {0..<int (length parents)}"
  shows "\<exists>S'. select_nodes parents budget order S = Some S' \<and> S \<subseteq> S' \<and> closed_nodes parents S' \<and> finite S' \<and> int (card S') \<le> budget \<and>
    (\<forall>i\<in>set order. i \<in> S' \<or> budget < int (card (S' \<union> anc parents i)))"
  using assms(2-)
proof (induction order arbitrary: S)
  case (Cons i order)
  have i: "0 \<le> i" "i < int (length parents)" using Cons.prems(4) by auto
  obtain xs where xs: "ancestor_chain parents S i = Some xs" "distinct xs" "set xs = anc parents i - S"
    using chain_anc [OF ok Cons.prems(1) i(2)] by blast
  have "S \<inter> set xs = {}" using xs(3) by auto
  from card_Un_disjoint [OF Cons.prems(2) finite_set this] have "card (S \<union> set xs) = card S + card (set xs)" .
  then have un: "S \<union> set xs = S \<union> anc parents i" "card (S \<union> set xs) = card S + length xs"
    using xs(3) distinct_card [OF xs(2)] by auto
  have ci: "closed_nodes parents (S \<union> anc parents i)" using Cons.prems(1) anc_closed [OF ok i(2)] by (auto simp: closed_nodes_def)
  let ?S = "if int (card S) + int (length xs) \<le> budget then S \<union> set xs else S"
  have fin: "finite (anc parents i)" using finite_subset [OF anc_bounds [OF ok i(2)]] by simp
  have "closed_nodes parents ?S" "finite ?S" "int (card ?S) \<le> budget" using Cons.prems un ci fin by auto
  from Cons.IH [OF this] Cons.prems(4) obtain S' where
    S': "select_nodes parents budget order ?S = Some S'" "?S \<subseteq> S'" "closed_nodes parents S'" "finite S'" "int (card S') \<le> budget"
      "\<forall>i\<in>set order. i \<in> S' \<or> budget < int (card (S' \<union> anc parents i))" by auto
  have "i \<in> S' \<or> budget < int (card (S' \<union> anc parents i))"
  proof (cases "int (card S) + int (length xs) \<le> budget")
    case True
    then show ?thesis using S'(2) un(1) anc_self [OF ok i] by auto
  next
    case False
    have "card (S \<union> anc parents i) \<le> card (S' \<union> anc parents i)" using S'(2,4) False fin by (intro card_mono) auto
    then show ?thesis using False un by simp
  qed
  moreover have "S \<subseteq> S'" using S'(2) by (auto split: if_splits)
  ultimately show ?case using xs(1) S' by auto
qed simp

section \<open>The spine-first tree\<close>

definition spine_parents :: "int \<Rightarrow> int \<Rightarrow> int list" where
  "spine_parents width depth =
     (-1 # map int [0..<nat (depth - 1)]) @
     concat (map (\<lambda>level. replicate (nat (width - 1)) (if level = 0 then -1 else int level - 1)) [0..<nat depth])"

lemma make_spine_first_parents_eq:
  "1 \<le> width \<Longrightarrow> 1 \<le> depth \<Longrightarrow> make_spine_first_parents width depth = Inr (spine_parents width depth)"
  by (simp add: make_spine_first_parents_def spine_parents_def)

lemma length_levels: "length (concat (map (\<lambda>level. replicate n (f level)) [0..<d])) = d * n"
  by (induction d) simp_all

lemma spine_length:
  assumes "1 \<le> width" "1 \<le> depth"
  shows "int (length (spine_parents width depth)) = width * depth" "length (node_levels width depth) = length (spine_parents width depth)"
proof -
  have d: "nat depth = Suc (nat (depth - 1))" using assms(2) by simp
  have "int (length (spine_parents width depth)) = depth + depth * (width - 1)"
    using assms by (simp add: spine_parents_def length_levels d algebra_simps)
  then show "int (length (spine_parents width depth)) = width * depth" by (simp add: algebra_simps)
  show "length (node_levels width depth) = length (spine_parents width depth)"
    using d by (simp add: spine_parents_def node_levels_def length_levels)
qed

lemma spine_parents_ok:
  assumes "1 \<le> width" "1 \<le> depth"
  shows "parents_ok (spine_parents width depth)"
  unfolding parents_ok_def
proof (intro allI impI)
  fix i assume i: "i < length (spine_parents width depth)"
  show "-1 \<le> spine_parents width depth ! i \<and> spine_parents width depth ! i < int i"
  proof (cases "i < nat depth")
    case True
    then show ?thesis using assms by (cases i) (auto simp: spine_parents_def nth_append)
  next
    case False
    let ?tail = "concat (map (\<lambda>level. replicate (nat (width - 1)) (if level = 0 then -1 else int level - 1)) [0..<nat depth])"
    have e: "spine_parents width depth ! i = ?tail ! (i - nat depth)" "i - nat depth < length ?tail"
      using False i assms by (auto simp: spine_parents_def nth_append Suc_nat_eq_nat_zadd1)
    have "?tail ! (i - nat depth) \<in> set ?tail" using e(2) by (rule nth_mem)
    then have "-1 \<le> ?tail ! (i - nat depth) \<and> ?tail ! (i - nat depth) < depth" by (auto split: if_splits)
    moreover have "depth \<le> int i" using False by linarith
    ultimately show ?thesis unfolding e(1) by linarith
  qed
qed

section \<open>Unblocking\<close>

text \<open>A mask of the right shape, as the set of its visible entries.\<close>

definition mask_ok :: "nat \<Rightarrow> nat \<Rightarrow> bool list list \<Rightarrow> bool" where
  "mask_ok rows cols msk \<longleftrightarrow> length msk = rows \<and> (\<forall>r<rows. length (msk ! r) = cols)"

definition visible :: "bool list list \<Rightarrow> (int \<times> int) set" where
  "visible msk = {(r, k). 0 \<le> r \<and> r < int (length msk) \<and> 0 \<le> k \<and> k < int (length (msk ! nat r)) \<and> \<not> msk ! nat r ! nat k}"

lemma unblock_ok:
  assumes "mask_ok rows cols msk" "0 \<le> r" "r < int rows" "0 \<le> k" "k < int cols"
  shows "\<exists>msk'. unblock r k msk = Inr msk' \<and> mask_ok rows cols msk' \<and> visible msk' = insert (r, k) (visible msk)"
proof -
  let ?m = "msk[nat r := (msk ! nat r)[nat k := False]]"
  have r: "nat r < length msk" "nat k < length (msk ! nat r)" using assms by (auto simp: mask_ok_def nat_less_iff)
  have "unblock r k msk = Inr ?m" using r assms(2,4) by (simp add: unblock_def nat_less_iff)
  moreover have "mask_ok rows cols ?m" using assms(1) r by (auto simp: mask_ok_def nth_list_update)
  moreover have "visible ?m = insert (r, k) (visible msk)"
    using r assms(2,4) by (auto simp: visible_def nth_list_update nat_eq_iff nat_less_iff split: if_splits)
  ultimately show ?thesis by blast
qed

lemma unblock_chain_ok:
  assumes ok: "parents_ok parents" and r: "0 \<le> r" "r < int rows" and p: "0 \<le> prefix_len" "prefix_len + int (length parents) < int cols"
    and "mask_ok rows cols msk" "i < int (length parents)"
  shows "\<exists>msk'. unblock_chain parents prefix_len r i msk = Some (Inr msk') \<and> mask_ok rows cols msk' \<and>
    visible msk' = visible msk \<union> (\<lambda>a. (r, prefix_len + a + 1)) ` anc parents i"
  using assms(6,7)
proof (induction "nat (i + 1)" arbitrary: i msk rule: less_induct)
  case less
  show ?case
  proof (cases "0 \<le> i")
    case True
    let ?p = "parents ! nat i"
    have q: "?p < i" "-1 \<le> ?p" using parents_okD [OF ok] True less.prems by auto
    obtain m1 where m1: "unblock r (prefix_len + i + 1) msk = Inr m1" "mask_ok rows cols m1" "visible m1 = insert (r, prefix_len + i + 1) (visible msk)"
      using unblock_ok [OF less.prems(1) r, of "prefix_len + i + 1"] p True less.prems(2) by auto
    obtain msk' where "unblock_chain parents prefix_len r ?p m1 = Some (Inr msk')" "mask_ok rows cols msk'"
      "visible msk' = visible m1 \<union> (\<lambda>a. (r, prefix_len + a + 1)) ` anc parents ?p"
      using less.hyps [of ?p m1] q True less.prems(2) m1(2) by auto
    then show ?thesis using m1 True anc_step [OF ok True less.prems(2)] by (subst unblock_chain.simps) auto
  next
    case False
    then show ?thesis using less.prems(1) by (subst unblock_chain.simps) simp
  qed
qed

text \<open>The entries that the rows of the nodes \<open>ns\<close> make visible: the root and the ancestors.\<close>

definition node_entries :: "int list \<Rightarrow> int \<Rightarrow> nat set \<Rightarrow> (int \<times> int) set" where
  "node_entries parents prefix_len ns = (\<Union>n\<in>ns. insert (int n + 1, prefix_len) ((\<lambda>a. (int n + 1, prefix_len + a + 1)) ` anc parents (int n)))"

lemma unblock_nodes_ok:
  assumes ok: "parents_ok parents" and p: "0 \<le> prefix_len" "prefix_len + int (length parents) < int cols"
    and "mask_ok (length parents + 1) cols msk" "set ns \<subseteq> {..<length parents}"
  shows "\<exists>msk'. unblock_nodes parents prefix_len ns msk = Some (Inr msk') \<and> mask_ok (length parents + 1) cols msk' \<and>
    visible msk' = visible msk \<union> node_entries parents prefix_len (set ns)"
  using assms(4,5)
proof (induction ns arbitrary: msk)
  case Nil
  then show ?case by (simp add: node_entries_def)
next
  case (Cons n ns)
  have n: "0 \<le> int n + 1" "int n + 1 < int (length parents + 1)" "int n < int (length parents)" using Cons.prems(2) by auto
  obtain m1 where m1: "unblock (int n + 1) prefix_len msk = Inr m1" "mask_ok (length parents + 1) cols m1"
    "visible m1 = insert (int n + 1, prefix_len) (visible msk)" using unblock_ok [OF Cons.prems(1) n(1,2) p(1)] p(2) by auto
  obtain m2 where m2: "unblock_chain parents prefix_len (int n + 1) (int n) m1 = Some (Inr m2)" "mask_ok (length parents + 1) cols m2"
    "visible m2 = visible m1 \<union> (\<lambda>a. (int n + 1, prefix_len + a + 1)) ` anc parents (int n)"
    using unblock_chain_ok [OF ok n(1,2) p m1(2) n(3)] by blast
  obtain msk' where "unblock_nodes parents prefix_len ns m2 = Some (Inr msk')" "mask_ok (length parents + 1) cols msk'"
    "visible msk' = visible m2 \<union> node_entries parents prefix_len (set ns)" using Cons.IH [OF m2(2)] Cons.prems(2) by auto
  then show ?case using m1 m2 by (auto simp: node_entries_def)
qed

end
