(* ===== verification/TreeProperties.thy ===== *)
theory TreeProperties
  imports TreeSelect
begin

text \<open>The properties of draft trees: what a node may attend to, which candidates are selected, and the room for a budget.\<close>

section \<open>Selection\<close>

text \<open>
  C11. For candidates whose parents are earlier nodes the selection ends. It is within the budget and in order, holds with a
  candidate its parent, and cannot be extended: with any candidate left out, and its ancestors, it would exceed
  the budget. This holds for every arithmetic and comparison of the scores.
\<close>

theorem tree_selection:
  assumes "parents_ok parents" "length parents = length cands" "length scores = length cands" "1 \<le> budget" "budget \<le> int (length cands)"
  shows "\<exists>sel. select_tree_candidates fo cands parents scores budget = Some (Inr sel) \<and> sorted_wrt (<) (ts_indices sel) \<and>
    int (length (ts_indices sel)) \<le> budget \<and> closed_nodes parents (set (ts_indices sel)) \<and>
    ts_token_ids sel = map (\<lambda>i. cands ! nat i) (ts_indices sel) \<and>
    (\<forall>i\<in>{0..<int (length parents)}. i \<in> set (ts_indices sel) \<or> budget < int (card (set (ts_indices sel) \<union> anc parents i)))"
proof -
  let ?order = "sorted_desc (\<lambda>i j. score_less fo scores j i) (map int [0..<length parents])"
  have set_order: "set ?order = {0..<int (length parents)}" by (auto simp: image_iff) (metis atLeastLessThan_iff le0 nat_eq_iff2 nat_less_iff)
  obtain S where S: "select_nodes parents budget ?order {} = Some S" "closed_nodes parents S" "finite S" "int (card S) \<le> budget"
    "\<forall>i\<in>set ?order. i \<in> S \<or> budget < int (card (S \<union> anc parents i))"
    using select_nodes_ok [OF assms(1), of "{}" budget ?order] assms(4) set_order by (auto simp: closed_nodes_def)
  have bad: "\<not> list_ex (\<lambda>index. parents ! index < -1 \<or> parents ! index \<ge> int index) [0..<length parents]"
    using assms(1) by (auto simp: list_ex_iff parents_ok_def not_le not_less)
  let ?sel = "\<lparr>ts_indices = sorted_list_of_set S, ts_token_ids = map (\<lambda>i. cands ! nat i) (sorted_list_of_set S)\<rparr>"
  have "select_tree_candidates fo cands parents scores budget = Some (Inr ?sel)"
    using assms(2-5) bad S(1) by (simp add: select_tree_candidates_def Let_def)
  then show ?thesis using S(2-4) S(5) [unfolded set_order] by (intro exI [of _ ?sel]) simp
qed

theorem tree_selection_witness:
  "\<exists>sel. select_tree_candidates rat_flt [10, 11, 12, 13] [-1, 0, -1, 0] [1, 2, 3, 5] 3 = Some (Inr sel) \<and>
     sorted_wrt (<) (ts_indices sel) \<and> int (length (ts_indices sel)) \<le> 3 \<and> closed_nodes [-1, 0, -1, 0] (set (ts_indices sel))"
proof -
  have "parents_ok [-1, 0, -1, 0]" by (simp add: parents_ok_def All_less_Suc)
  from tree_selection [OF this, of "[10, 11, 12, 13]" "[1, 2, 3, 5]" 3 rat_flt] show ?thesis by auto
qed

section \<open>Attention\<close>

lemma shift_image: "(r, k) \<in> (\<lambda>a. (r', q + a + 1)) ` A \<longleftrightarrow> r = r' \<and> k - q - 1 \<in> A" for r k q :: int
  by (auto simp: image_iff intro!: bexI [of _ "k - q - 1"])

lemma tree_mask_built:
  assumes w: "1 \<le> width" "1 \<le> depth" and p: "0 \<le> prefix_len" "prefix_len + width * depth < max_model_len"
  shows "\<exists>msk. build_tree_attention_mask width depth prefix_len max_model_len = Some (Inr msk) \<and>
    mask_ok (nat (1 + width * depth)) (nat max_model_len) msk \<and>
    visible msk = {(r, k). 0 \<le> r \<and> r \<le> width * depth \<and> 0 \<le> k \<and>
      (k \<le> prefix_len \<or> k - prefix_len - 1 \<in> anc (spine_parents width depth) (r - 1))}"
proof -
  let ?ps = "spine_parents width depth"
  note len = spine_length [OF w] and ok = spine_parents_ok [OF w]
  have rows: "nat (1 + width * depth) = length ?ps + 1" using len(1) by linarith
  have wd: "depth \<le> width * depth" using w mult_right_mono [of 1 width depth] by simp
  define m0 where "m0 = replicate (length ?ps + 1) (replicate (nat prefix_len) False @ replicate (nat max_model_len - nat prefix_len) True)"
  have m0: "map (\<lambda>row. replicate (nat prefix_len) False @ drop (nat prefix_len) row) (replicate (nat (1 + width * depth)) (replicate (nat max_model_len) True)) = m0"
    unfolding rows m0_def by simp
  have le: "nat prefix_len \<le> nat max_model_len" using p(2) wd w(2) by (intro nat_mono) linarith
  have ok0: "mask_ok (length ?ps + 1) (nat max_model_len) m0" using le by (simp add: m0_def mask_ok_def del: replicate_Suc)
  have v0: "visible m0 = {(r, k). 0 \<le> r \<and> r \<le> width * depth \<and> 0 \<le> k \<and> k < prefix_len}"
    using len(1) le p(1) by (auto simp: visible_def m0_def nth_append nat_less_iff simp del: replicate_Suc split: if_splits)
  obtain m1 where m1: "unblock 0 prefix_len m0 = Inr m1" "mask_ok (length ?ps + 1) (nat max_model_len) m1" "visible m1 = insert (0, prefix_len) (visible m0)"
    using unblock_ok [OF ok0, of 0 prefix_len] p wd w by auto
  have room: "prefix_len + int (length ?ps) < int (nat max_model_len)" using p wd w len(1) by simp
  obtain msk where m: "unblock_nodes ?ps prefix_len [0..<length ?ps] m1 = Some (Inr msk)" "mask_ok (length ?ps + 1) (nat max_model_len) msk"
    "visible msk = visible m1 \<union> node_entries ?ps prefix_len (set [0..<length ?ps])"
    using unblock_nodes_ok [OF ok p(1) room m1(2), of "[0..<length ?ps]"] by (auto simp: lessThan_atLeast0)
  have guards: "\<not> (prefix_len < 0 \<or> max_model_len \<le> 0)" "\<not> prefix_len + depth \<ge> max_model_len" using p wd w by linarith+
  have "build_tree_attention_mask width depth prefix_len max_model_len = Some (Inr msk)"
    unfolding build_tree_attention_mask_def make_spine_first_parents_eq [OF w] sum.case Let_def m0 using guards m1(1) m(1) len(2) by simp
  moreover have "(r, k) \<in> node_entries ?ps prefix_len (set [0..<length ?ps]) \<longleftrightarrow>
    1 \<le> r \<and> r \<le> width * depth \<and> (k = prefix_len \<or> k - prefix_len - 1 \<in> anc ?ps (r - 1))" for r k
  proof -
    have "(r, k) \<in> node_entries ?ps prefix_len (set [0..<length ?ps]) \<longleftrightarrow>
      (\<exists>n<length ?ps. r = int n + 1 \<and> (k = prefix_len \<or> k - prefix_len - 1 \<in> anc ?ps (int n)))" by (auto simp: node_entries_def shift_image)
    also have "\<dots> \<longleftrightarrow> 1 \<le> r \<and> r \<le> width * depth \<and> (k = prefix_len \<or> k - prefix_len - 1 \<in> anc ?ps (r - 1))"
      unfolding len(1) [symmetric] by (auto intro!: exI [of _ "nat (r - 1)"])
    finally show ?thesis .
  qed
  moreover have "0 \<le> width * depth" using w by simp
  moreover have "0 \<le> k" if "k - prefix_len - 1 \<in> anc ?ps (r - 1)" "r \<le> width * depth" for r k
    using that anc_bounds [OF ok, of "r - 1"] len(1) p(1) by force
  ultimately show ?thesis using m(2) unfolding rows
    by (intro exI [of _ msk]) (auto simp: m(3) m1(3) v0 p(1) w)
qed

text \<open>
  C17. When the row of a mask has room for the prefix, the root and every node, the mask is built, and a node may attend
  to exactly the prefix, the root, itself and its ancestors; the root to the prefix and itself.
\<close>

theorem tree_mask:
  assumes w: "1 \<le> width" "1 \<le> depth" and p: "0 \<le> prefix_len" "prefix_len + width * depth < max_model_len"
  shows "\<exists>msk. build_tree_attention_mask width depth prefix_len max_model_len = Some (Inr msk) \<and>
    mask_ok (nat (1 + width * depth)) (nat max_model_len) msk \<and>
    visible msk = {(r, k). 0 \<le> r \<and> r \<le> width * depth \<and> 0 \<le> k \<and>
      (k \<le> prefix_len \<or> k - prefix_len - 1 \<in> anc (spine_parents width depth) (r - 1))}"
  by (rule tree_mask_built [OF assms])

theorem tree_mask_witness:
  "\<exists>msk. build_tree_attention_mask 2 2 1 6 = Some (Inr msk) \<and> (4, 4) \<notin> visible msk \<and> (4, 5) \<in> visible msk \<and> (4, 2) \<in> visible msk \<and> (3, 2) \<notin> visible msk"
proof -
  have "spine_parents 2 2 = [-1, 0, -1, 0]" by code_simp
  moreover have "anc [-1, 0, -1, 0] 3 = {0, 3}" "anc [-1, 0, -1, 0] 2 = {2}" by code_simp+
  ultimately show ?thesis using tree_mask [of 2 2 1 6] by auto
qed


section \<open>Room for a budget\<close>





end
