(* ===== verification/Spec2Isabelle.thy ===== *)
theory Spec2Isabelle
  imports EagleProperties NgramProperties SasProperties StoreKvProperties GatherProperties CamemProperties RhythmProperties PrefixCacheProperties TreeProperties
begin

text \<open>
  Verification of the vLLM plugin for Ascend NPUs with speculative decoding under service level
  objectives. The repository consists of custom device operators (\<^verbatim>\<open>csrc/\<close>: host code that infers shapes
  and tilings, kernels that run on many cores), of host extensions, and of Python code that plugs both into
  vLLM. This development models parts whose behaviour is decided by their own code, each
  from shape inference or Python entry to its last store, and proves what they compute.

  \<^bold>\<open>Conventions.\<close> C++ integers are \<^typ>\<open>int\<close> with the wrap-around of their type written out (\<open>u32\<close>,
  \<open>u64\<close>, \<open>i32\<close> in \<open>Prelude\<close>); undefined behaviour, such as a division by zero or an access outside of a
  vector, is \<^term>\<open>None\<close>. Loops with a bound that is known are folds, other loops are \<open>partial_function (option)\<close>
  or terminating functions, so a statement that an operator ends is a statement that its result is
  \<^term>\<open>Some\<close>. There is no fuel in the operators. Tensors are functions from indices to values.
  The instructions of the device are arguments: records of copy functions, with locales for what
  the documentation promises of them (\<open>Device\<close>, \<open>KvDma\<close>), each interpreted by a concrete device. A
  launch runs the cores one after another, in an arbitrary order.

  \<^bold>\<open>Parts.\<close>

  \<^item> \<^emph>\<open>Expansion of EAGLE draft inputs\<close> (\<^verbatim>\<open>csrc/moe/copy_and_expand_eagle_inputs\<close>): \<open>Eagle\<close> has shape inference,
    tiling, the kernel with its two modes and the adapter. \<open>EagleSpec\<close> has the reference output of a
    request and the effect of each stage, for stores that may spill over the rest of a 32-byte block.
    \<open>EagleProperties\<close>: every request gets its reference slots, the segments tile the output, the tail is
    zero, and two cores would destroy each other's slots.

  \<^item> \<^emph>\<open>N-gram speculative decoding\<close> (\<^verbatim>\<open>csrc/attention/ngram_spec_decode\<close>): \<open>Ngram\<close> has tiling, kernel, scalar and vector
    search, and the path for rows larger than the buffer. \<open>NgramSpec\<close>, \<open>NgramRows\<close> and \<open>NgramLaunch\<close> have the
    reference row and lift it from a row to a block, a core and a launch. \<open>NgramProperties\<close>: the launch
    computes the reference rows, the search finds the longest n-gram, vector and scalar search agree on
    aligned buffers and differ on others.

  \<^item> \<^emph>\<open>Scheduler of sparse attention with shared KV\<close>
    (\<^verbatim>\<open>csrc/attention/sparse_attn_sharedkv_metadata\<close>): \<open>SasParams\<close> has parameters and their checks, \<open>SasCost\<close> the cost
    of blocks, rows and batches, \<open>SasAssign\<close> the assignment of rows and the metadata. \<open>SasTable\<close>, \<open>SasRows\<close>, \<open>SasLoops\<close>, \<open>SasPlan\<close>,
    \<open>SasSchedule\<close>, \<open>SasMeta\<close> and \<open>SasFit\<close> prove the loops correct, from one row to the table. \<open>SasProperties\<close>: the
    enabled cores divide the rows, loads are bounded, and two parameter sets that the checks
    accept have undefined behaviour.

  \<^item> \<^emph>\<open>Storing keys into the paged cache\<close> (\<^verbatim>\<open>csrc/attention/store_kv_block\<close>): \<open>StoreKv\<close> has the host grouping of slots, the
    tiling and the kernel; \<open>StoreKvGroups\<close> and \<open>StoreKvLaunch\<close> the loops. \<open>StoreKvProperties\<close>: from slot mapping to cache,
    grouping is reversible, and three inputs on which tokens are lost or misplaced.

  \<^item> \<^emph>\<open>Gathering cache pages\<close> (\<^verbatim>\<open>csrc/attention/kv_cache_block_gather\<close>): \<open>Gather\<close> has tiling and kernel, \<open>GatherProperties\<close> the
    pages moved, alignment and bounds, and the race between equal destination pages.

  \<^item> \<^emph>\<open>Pluggable device allocator\<close> (\<^verbatim>\<open>csrc/camem_allocator.cpp\<close>, \<^verbatim>\<open>vllm_ascend/device_allocator/camem.py\<close>): \<open>Camem\<close> has the exported
    functions, the module functions and the Python class; the ACL runtime is an argument and its
    contract the locale \<open>acl_driver\<close> in \<open>CamemDriver\<close>, met by the simulated runtime \<open>sim_acl\<close>. \<open>CamemTable\<close> has the invariant between
    allocation table and runtime, \<open>CamemOps\<close> and \<open>CamemSleep\<close> show that operations keep it, \<open>CamemPool\<close> has the abstract pool.
    \<open>CamemProperties\<close>: runs of the allocator are runs of the pool, nothing leaks as long as calls return,
    sleep always succeeds on awake allocations, and what failing calls leave behind.

  \<^item> \<^emph>\<open>Control plane of speculative decoding\<close> (\<^verbatim>\<open>vllm_ascend/spec_decode/pearl/spec_rhythm.py\<close>): \<open>Rhythm\<close> has the progress of a
    request, budget plans and the two stages of the budget shaper; \<open>RhythmPipeline\<close> the proposal tickets, the
    controller of two alternating batches and the scheduler. \<open>RhythmShape\<close> proves the stages, \<open>RhythmTickets\<close> has the
    invariant of the mailbox and the life of a ticket, \<open>RhythmRuns\<close> sequences of scheduler calls, \<open>RhythmRounds\<close> plans and
    rounds, where a round makes the calls in the order of the main loop of \<^verbatim>\<open>native_engine.py\<close> (plan, tickets,
    publish, verdicts). \<open>RhythmProperties\<close>: the shaper ends and its budgets fit and are used up, proposals are
    verified on the prefix they were drafted for and once only, active requests always have work, batches
    alternate, rounds raise no exception; and two uses that the guards of \<^verbatim>\<open>publish\<close> do not cover.

  \<^item> \<^emph>\<open>Prefix cache of the native engine\<close> (\<^verbatim>\<open>vllm_ascend/spec_decode/pearl/native_cache.py\<close>): \<open>PrefixCache\<close> has the class with
    all its operations. \<open>PrefixCacheBlocks\<close> has the invariant of blocks, references and index, \<open>PrefixCacheBatch\<close> the tables of
    an allocation, \<open>PrefixCacheRuns\<close> release, growth and sequences of calls. \<open>PrefixCacheProperties\<close>: reference counts and index
    are exact after any calls, tables have the right blocks, allocation succeeds when the blocks suffice, a
    released prompt is found again; and two states in which tokens are reported as cached that are not.

  \<^item> \<^emph>\<open>Trees of draft candidates\<close> (\<^verbatim>\<open>vllm_ascend/spec_decode/pearl/tree.py\<close>): \<open>TreePlan\<close> has the shape of a tree, its attention
    mask, plans, the selection of candidates and the coordinator, which reads the budgets of the control plane. \<open>TreeSelect\<close>
    has ancestors, the greedy selection and the entries of the mask. \<open>TreeProperties\<close>: the selection ends, is closed under
    parents, within the budget and maximal; a node sees its ancestors only; a budget gets the smallest tree with
    room for it; and the check of the mask is too weak for trees of more than one node per level.

  \<^bold>\<open>Shared.\<close> \<open>PyBase\<close> has what the Python components share: exceptions as values, dictionaries as lists of
  items, and floating point operations as an argument, so that theorems about Python hold for every
  rounding; concrete runs use rational numbers. \<open>Prelude\<close> has machine integers, bounded loops with their induction rules, vectors and lists;
  \<open>Device\<close> and \<open>KvDma\<close> the copy instructions with their contracts.

  \<^bold>\<open>Not modelled.\<close> Numerical kernels (attention, matrix products, normalisation, quantisation), whose
  content is floating point arithmetic of the device; communication operators and their transport; the
  registration of operators, generated code and build files; the Python layers that configure vLLM,
  call torch or wrap a kernel, where the behaviour is that of libraries outside of this repository; queues and
  event synchronisation inside a core, which the copy contracts replace; contents of device memory and of
  the CPU backups in the allocator; of the native engine, everything but its order of calls on the control
  plane, since the rest is torch and collective communication.
\<close>

end
